theory Spec2Isabelle
  imports Main
begin

section \<open>JavaScript strings\<close>

text \<open>
  The program is Google Apps Script (JavaScript).  Its strings are modelled by
  Isabelle strings: \<open>length\<close>, \<open>take\<close> and \<open>of_char\<close> stand for \<open>.length\<close>,
  \<open>.substring(0, n)\<close> and \<open>.charCodeAt\<close>.  The case mappings below are the ones of
  ASCII letters, so the model is exact for ASCII text (calendar times in ISO format,
  e-mail addresses and their domains, hexadecimal fingerprints, Drive identifiers).
\<close>

definition upperLetters :: string where
  "upperLetters = ''ABCDEFGHIJKLMNOPQRSTUVWXYZ''"

definition lowerLetters :: string where
  "lowerLetters = ''abcdefghijklmnopqrstuvwxyz''"

definition toLowerChar :: "char \<Rightarrow> char" where
  "toLowerChar c = (case map_of (zip upperLetters lowerLetters) c of None \<Rightarrow> c | Some l \<Rightarrow> l)"

definition toUpperChar :: "char \<Rightarrow> char" where
  "toUpperChar c = (case map_of (zip lowerLetters upperLetters) c of None \<Rightarrow> c | Some u \<Rightarrow> u)"

definition toLowerCase :: "string \<Rightarrow> string" where
  "toLowerCase s = map toLowerChar s"

text \<open>\<open>String.prototype.trim\<close>: white space is removed at both ends.\<close>

definition isWhiteSpace :: "char \<Rightarrow> bool" where
  "isWhiteSpace c = ((of_char c :: int) \<in> {9, 10, 11, 12, 13, 32, 160})"

definition trim :: "string \<Rightarrow> string" where
  "trim s = rev (dropWhile isWhiteSpace (rev (dropWhile isWhiteSpace s)))"

text \<open>\<open>Array.prototype.join\<close>.\<close>

fun join :: "string \<Rightarrow> string list \<Rightarrow> string" where
  "join sep [] = []"
| "join sep [x] = x"
| "join sep (x # y # ys) = x @ sep @ join sep (y # ys)"

text \<open>\<open>String.prototype.split\<close> with a one-character separator class: the pieces
  between the separators, empty pieces included.\<close>

fun splitOn :: "(char \<Rightarrow> bool) \<Rightarrow> string \<Rightarrow> string list" where
  "splitOn sep [] = [[]]"
| "splitOn sep (c # cs) =
     (if sep c then [] # splitOn sep cs
      else (case splitOn sep cs of [] \<Rightarrow> [[c]] | w # ws \<Rightarrow> (c # w) # ws))"

text \<open>\<open>Number.prototype.toString(16)\<close> on a non-negative integer.\<close>

definition hexDigit :: "int \<Rightarrow> char" where
  "hexDigit d = ''0123456789abcdef'' ! nat d"

function toHex :: "int \<Rightarrow> string" where
  "toHex n = (if n < 16 then [hexDigit n] else toHex (n div 16) @ [hexDigit (n mod 16)])"
  by pat_completeness auto
termination
  by (relation "measure nat") auto

section \<open>Calendar events\<close>

text \<open>
  What the program reads of a calendar event: \<open>getId()\<close>, \<open>getTitle()\<close>,
  \<open>getDescription()\<close>, \<open>getLocation()\<close>, and the start and end times, which the
  tracker only ever uses through \<open>toISOString()\<close>.
\<close>

record calendar_event =
  getId :: string
  getTitle :: string
  getDescription :: string
  getLocation :: string
  startTimeISO :: string
  endTimeISO :: string

section \<open>Fingerprinting (ProcessedEventsTracker.generateFingerprint)\<close>

text \<open>
  \<^verbatim>\<open>hash = ((hash << 5) - hash) + char; hash = hash & hash;\<close>
  The shift and the bitwise \<open>&\<close> convert their operand to a signed 32-bit integer
  (\<open>toInt32\<close>); the subtraction and the addition in between are exact.
\<close>

definition toInt32 :: "int \<Rightarrow> int" where
  "toInt32 x = (x + 2147483648) mod 4294967296 - 2147483648"

definition hashStep :: "int \<Rightarrow> char \<Rightarrow> int" where
  "hashStep hash c = toInt32 ((toInt32 (hash * 32) - hash) + of_char c)"

definition rollingHash :: "string \<Rightarrow> int" where
  "rollingHash details = foldl hashStep 0 details"

definition fingerprintDetails :: "calendar_event \<Rightarrow> string" where
  "fingerprintDetails event =
     join ''|'' [startTimeISO event, endTimeISO event, getLocation event,
                 take 100 (getDescription event)]"

definition generateFingerprint :: "calendar_event \<Rightarrow> string" where
  "generateFingerprint event = toHex \<bar>rollingHash (fingerprintDetails event)\<bar>"


section \<open>Configuration (CONFIG)\<close>

record config =
  trackingEnabled :: bool
  retentionDays :: int
  storeFullUrlInRow4 :: bool
  notifyOnSuccess :: bool
  notifyOnError :: bool
  phase1Identifiers :: "string list"
  phase2Identifiers :: "string list"

text \<open>The values the repository's configuration file sets.\<close>

definition CONFIG :: config where
  "CONFIG = \<lparr> trackingEnabled = True, retentionDays = 120, storeFullUrlInRow4 = False,
     notifyOnSuccess = False, notifyOnError = True,
     phase1Identifiers = [''60 Minute Phase 1 - Leader Only'', ''Phase 1 - Leader Only'',
        ''Phase 1 Coaching'', ''60 Minute Phase 1''],
     phase2Identifiers = [''90 Minute Phase 2 - Team Building'', ''Phase 2 - Team Building'',
        ''Phase 2 Team Building'', ''90 Minute Phase 2''] \<rparr>"

text \<open>Row numbers of column B in the two settings sheets of a Build File
  (\<open>CONFIG.PHASE1.rows\<close>, \<open>CONFIG.PHASE2.rows\<close>, \<open>CONFIG.IDS_API\<close>).\<close>

definition rowDate :: nat where "rowDate = 2"
definition rowTime :: nat where "rowTime = 3"
definition rowName :: nat where "rowName = 7"
definition rowZoomLink :: nat where "rowZoomLink = 9"
definition phase1LinkRow :: nat where "phase1LinkRow = 4"
definition phase1LoginCodeRow :: nat where "phase1LoginCodeRow = 8"
definition phase2LoginCodeRow :: nat where "phase2LoginCodeRow = 8"

definition STRONG_TEAMS_FOLDER_ID :: string where
  "STRONG_TEAMS_FOLDER_ID = ''1qC82Iw9DbZiK-gYgB4fpMwAChpVJOc3T''"

definition TEMPLATE_BUILD_FILE_ID :: string where
  "TEMPLATE_BUILD_FILE_ID = ''1HGa3SH8VE8xLEdmrLxOUPxF8qjF6AU33FY3lf6Z31wY''"

section \<open>The ledger (ProcessedEventsTracker, version 2.0.0)\<close>

text \<open>
  One row of the tracking sheet, columns A to K in the order of
  \<open>ProcessedEventsTracker.COLUMNS\<close>.  A cell holds a string; an empty cell is the
  empty string, as \<open>getValues()\<close> returns it.
\<close>

record ledger_row =
  EVENT_ID :: string
  FINGERPRINT :: string
  PHASE :: string
  LEADER_NAME :: string
  COMPANY :: string
  EVENT_DATE :: string
  PROCESSED_AT :: string
  LAST_UPDATED :: string
  LEADER_EMAIL :: string
  BUILD_FILE_ID :: string
  LEADER_FOLDER_ID :: string

text \<open>
  \<open>sheet.getDataRange().getValues()\<close>: the rows of the sheet, the header row at
  index 0, so that the row at index \<open>i\<close> is sheet row \<open>i + 1\<close>.  The sheet itself is
  optional: \<open>getSheetByName\<close> returns null when it is missing.
\<close>

type_synonym sheet_values = "ledger_row list"

definition ledgerRows :: "sheet_values option \<Rightarrow> ledger_row list" where
  "ledgerRows sheet = (case sheet of None \<Rightarrow> [] | Some data \<Rightarrow> drop 1 data)"

record tracking_status =
  processed :: bool
  needsUpdate :: bool
  rowIndex :: int

definition notTracked :: tracking_status where
  "notTracked = \<lparr> processed = False, needsUpdate = False, rowIndex = - 1 \<rparr>"

text \<open>The loop of \<open>isEventProcessed\<close>: \<open>rows\<close> are the rows from index \<open>i\<close> on.\<close>

fun searchEventId :: "string \<Rightarrow> string \<Rightarrow> ledger_row list \<Rightarrow> nat \<Rightarrow> tracking_status" where
  "searchEventId eventId currentFingerprint [] i = notTracked"
| "searchEventId eventId currentFingerprint (r # rows) i =
     (if EVENT_ID r = eventId then
        (if FINGERPRINT r = currentFingerprint
         then \<lparr> processed = True, needsUpdate = False, rowIndex = int i + 1 \<rparr>
         else \<lparr> processed = False, needsUpdate = True, rowIndex = int i + 1 \<rparr>)
      else searchEventId eventId currentFingerprint rows (Suc i))"

definition isEventProcessed ::
  "config \<Rightarrow> sheet_values option \<Rightarrow> calendar_event \<Rightarrow> tracking_status" where
  "isEventProcessed cfg sheet event =
     (if \<not> trackingEnabled cfg then notTracked
      else case sheet of
             None \<Rightarrow> notTracked
           | Some data \<Rightarrow>
               searchEventId (getId event) (generateFingerprint event) (drop 1 data) 1)"

text \<open>The \<open>eventData\<close> argument of \<open>markEventProcessed\<close>; the two identifiers are
  absent (undefined) for a Phase 2 event.\<close>

record tracking_data =
  td_fullName :: string
  td_companyName :: string
  td_email :: string
  td_buildFileId :: "string option"
  td_leaderFolderId :: "string option"

definition orEmpty :: "string option \<Rightarrow> string" where
  "orEmpty v = (case v of None \<Rightarrow> [] | Some s \<Rightarrow> s)"

definition rowData ::
  "calendar_event \<Rightarrow> string \<Rightarrow> tracking_data \<Rightarrow> string \<Rightarrow> string \<Rightarrow> ledger_row" where
  "rowData event phase eventData processedAt lastUpdated =
     \<lparr> EVENT_ID = getId event,
       FINGERPRINT = generateFingerprint event,
       PHASE = phase,
       LEADER_NAME = td_fullName eventData,
       COMPANY = td_companyName eventData,
       EVENT_DATE = startTimeISO event,
       PROCESSED_AT = processedAt,
       LAST_UPDATED = lastUpdated,
       LEADER_EMAIL = td_email eventData,
       BUILD_FILE_ID = orEmpty (td_buildFileId eventData),
       LEADER_FOLDER_ID = orEmpty (td_leaderFolderId eventData) \<rparr>"

definition blankRow :: ledger_row where
  "blankRow = \<lparr> EVENT_ID = [], FINGERPRINT = [], PHASE = [], LEADER_NAME = [], COMPANY = [],
     EVENT_DATE = [], PROCESSED_AT = [], LAST_UPDATED = [], LEADER_EMAIL = [],
     BUILD_FILE_ID = [], LEADER_FOLDER_ID = [] \<rparr>"

text \<open>\<open>sheet.getRange(row, 1, 1, 11).setValues([rowData])\<close>: sheet row \<open>row\<close> (counted
  from 1) is overwritten; a row below the data is reached over blank rows.\<close>

definition setRowValues :: "nat \<Rightarrow> ledger_row \<Rightarrow> sheet_values \<Rightarrow> sheet_values" where
  "setRowValues row r data =
     (if row - 1 < length data then data[row - 1 := r]
      else data @ replicate (row - 1 - length data) blankRow @ [r])"

definition appendRow :: "ledger_row \<Rightarrow> sheet_values \<Rightarrow> sheet_values" where
  "appendRow r data = data @ [r]"

text \<open>\<open>sheet.deleteRow(row)\<close>, rows counted from 1.\<close>

definition deleteRow :: "nat \<Rightarrow> sheet_values \<Rightarrow> sheet_values" where
  "deleteRow row data = take (row - 1) data @ drop row data"

section \<open>Errors and the world outside the script\<close>

text \<open>Every exception the modelled code raises is a value of this type.\<close>

datatype error =
    SheetIsNull
  | NoEventProvided
  | MissingRequiredFields
  | DriveException
  | FailedToCreateBuildFile
  | FailedToUpdatePhase1Settings
  | Phase1SheetNotFound
  | FailedToGenerateLink
  | Phase1ValidationFailed "string list"
  | ValidationError
  | BuildFileNotFound string string
  | FailedToUpdatePhase2Settings
  | MailException

text \<open>
  A Build File is a spreadsheet with the sheets \<open>Phase 1 Settings\<close> and
  \<open>Phase 2 Settings\<close>; of each sheet the program touches column B only, which is a
  function from the row number to the cell (\<open>getValue()\<close> of an empty cell is the empty
  string).  A sheet may be missing.
\<close>

type_synonym settings_sheet = "nat \<Rightarrow> string"

record build_file =
  fileName :: string
  phase1Settings :: "settings_sheet option"
  phase2Settings :: "settings_sheet option"

record folder =
  folderName :: string
  subfolderIds :: "string list"
  fileIds :: "string list"

text \<open>The answer of the assessment-link API to one request: the request itself may
  fail, or there is a response code and the \<open>login\<close> field of the response body (empty
  when the body has none).\<close>

datatype api_reply = FetchFailed | Reply nat string

text \<open>
  The state the script works on.  Drive is a store of folders and files by identifier;
  a folder lists its subfolders and files in the order in which \<open>getFoldersByName\<close>
  and \<open>getFilesByName\<close> iterate.  What the outside decides is written as a script of
  answers with a counter of how many were consumed: the identifiers Drive gives to new
  items, the replies of the assessment-link API, the readings of the clock
  (\<open>new Date().toISOString()\<close>), and whether mail can be sent.
\<close>

record world =
  trackingSheet :: "sheet_values option"
  folders :: "string \<Rightarrow> folder option"
  files :: "string \<Rightarrow> build_file option"
  idSupply :: "nat \<Rightarrow> string"
  idsUsed :: nat
  apiReplies :: "nat \<Rightarrow> api_reply"
  apiCalls :: nat
  mailWorks :: bool
  clock :: "nat \<Rightarrow> string"
  clockReads :: nat

text \<open>Sequencing of steps that may raise: the first error ends the computation, and
  the state reached so far is kept.\<close>

definition andThen ::
  "('e + 'a) \<times> 's \<Rightarrow> ('a \<Rightarrow> 's \<Rightarrow> ('e + 'b) \<times> 's) \<Rightarrow> ('e + 'b) \<times> 's" where
  "andThen m f = (case m of (Inl e, s) \<Rightarrow> (Inl e, s) | (Inr a, s) \<Rightarrow> f a s)"

subsection \<open>markEventProcessed\<close>

definition markEventProcessed ::
  "config \<Rightarrow> world \<Rightarrow> calendar_event \<Rightarrow> string \<Rightarrow> tracking_data \<Rightarrow> int \<Rightarrow> (error + unit) \<times> world" where
  "markEventProcessed cfg w event phase eventData existingRowIndex =
     (if \<not> trackingEnabled cfg then (Inr (), w)
      else
        let r = rowData event phase eventData (clock w (clockReads w)) (clock w (clockReads w + 1));
            w1 = w\<lparr> clockReads := clockReads w + 2 \<rparr>
        in case trackingSheet w of
             None \<Rightarrow> (Inl SheetIsNull, w1)
           | Some data \<Rightarrow>
               if existingRowIndex > 0
               then (Inr (), w1\<lparr> trackingSheet := Some (setRowValues (nat existingRowIndex) r data) \<rparr>)
               else (Inr (), w1\<lparr> trackingSheet := Some (appendRow r data) \<rparr>))"

subsection \<open>findByEmail\<close>

record email_match =
  m_rowIndex :: nat
  m_buildFileId :: string
  m_leaderFolderId :: string
  m_leaderName :: string
  m_company :: string

definition toMatch :: "nat \<Rightarrow> ledger_row \<Rightarrow> email_match" where
  "toMatch i r = \<lparr> m_rowIndex = i, m_buildFileId = BUILD_FILE_ID r,
     m_leaderFolderId = LEADER_FOLDER_ID r, m_leaderName = LEADER_NAME r,
     m_company = COMPANY r \<rparr>"

text \<open>Step 1 of \<open>findByEmail\<close>: the loop that collects the matches, \<open>rows\<close> being the
  rows from index \<open>i\<close> on.\<close>

fun collectMatches :: "string \<Rightarrow> ledger_row list \<Rightarrow> nat \<Rightarrow> email_match list" where
  "collectMatches normalizedEmail [] i = []"
| "collectMatches normalizedEmail (r # rows) i =
     (if trim (toLowerCase (LEADER_EMAIL r)) = normalizedEmail \<and> BUILD_FILE_ID r \<noteq> []
      then toMatch i r # collectMatches normalizedEmail rows (Suc i)
      else collectMatches normalizedEmail rows (Suc i))"

definition normalizeName :: "string option \<Rightarrow> string option" where
  "normalizeName leaderName =
     (case leaderName of
        None \<Rightarrow> None
      | Some n \<Rightarrow> if n = [] then None else Some (trim (toLowerCase n)))"

text \<open>Steps 2 and 3: the result by the number of matches.\<close>

definition chooseMatch :: "string option \<Rightarrow> email_match list \<Rightarrow> email_match option" where
  "chooseMatch normalizedName matches =
     (case matches of
        [] \<Rightarrow> None
      | [m] \<Rightarrow> Some m
      | m # _ # _ \<Rightarrow>
          (case normalizedName of
             None \<Rightarrow> Some m
           | Some nn \<Rightarrow>
               if nn = [] then Some m
               else (case filter (\<lambda>x. trim (toLowerCase (m_leaderName x)) = nn) matches of
                       [] \<Rightarrow> Some m
                     | [x] \<Rightarrow> Some x
                     | x # _ # _ \<Rightarrow> Some x)))"

definition findByEmail ::
  "sheet_values option \<Rightarrow> string \<Rightarrow> string option \<Rightarrow> email_match option" where
  "findByEmail sheet email leaderName =
     (if email = [] then None
      else case sheet of
             None \<Rightarrow> None
           | Some data \<Rightarrow>
               chooseMatch (normalizeName leaderName)
                 (collectMatches (trim (toLowerCase email)) (drop 1 data) 1))"

text \<open>The disambiguation policy in the words of the specification: the candidates are
  all ledger rows, in ledger order, whose e-mail equals the requested one up to case and
  surrounding white space and whose Build File ID is not empty; \<open>nameMatches\<close> are the
  candidates whose leader name equals the normalized hint.\<close>

definition candidates :: "string \<Rightarrow> ledger_row list \<Rightarrow> email_match list" where
  "candidates mail rows =
     map (\<lambda>(i, r). toMatch i r)
       (filter (\<lambda>(i, r). trim (toLowerCase (LEADER_EMAIL r)) = trim (toLowerCase mail) \<and>
                          BUILD_FILE_ID r \<noteq> [])
          (zip [1 ..< Suc (length rows)] rows))"

definition nameMatches :: "string \<Rightarrow> email_match list \<Rightarrow> email_match list" where
  "nameMatches normalizedName matches =
     filter (\<lambda>m. trim (toLowerCase (m_leaderName m)) = normalizedName) matches"

subsection \<open>cleanupOldRecords\<close>

text \<open>
  The time values of \<open>Date\<close> are milliseconds since the epoch.  \<open>Day\<close>, \<open>TimeWithinDay\<close>,
  \<open>MakeDate\<close>, \<open>TimeClip\<close>, \<open>LocalTime\<close> and \<open>UTC\<close> are the abstract operations of
  ECMAScript with these names; \<open>DateFromTime\<close> is the day of the month (1 to 31) in the
  proleptic Gregorian calendar.  The time zone of the script is a parameter: \<open>Z t isUTC\<close>
  is \<open>LocalTZA(t, isUTC)\<close>, the offset of local time in milliseconds at the UTC time
  \<open>t\<close> (when \<open>isUTC\<close>) or at the local time \<open>t\<close> (otherwise).  An invalid date (a time
  value that is \<open>NaN\<close>) is \<open>None\<close>.  The time values of valid dates are integers of at
  most \<open>8.64e15\<close> in absolute value, on which the arithmetic of JavaScript numbers is
  exact.
\<close>

definition msPerDay :: int where
  "msPerDay = 86400000"

definition Day :: "int \<Rightarrow> int" where
  "Day t = t div msPerDay"

definition TimeWithinDay :: "int \<Rightarrow> int" where
  "TimeWithinDay t = t mod msPerDay"

definition DateFromTime :: "int \<Rightarrow> int" where
  "DateFromTime t =
     (let z = Day t + 719468;
          era = z div 146097;
          doe = z - era * 146097;
          yoe = (doe - doe div 1460 + doe div 36524 - doe div 146096) div 365;
          doy = doe - (365 * yoe + yoe div 4 - yoe div 100);
          mp = (5 * doy + 2) div 153
      in doy - (153 * mp + 2) div 5 + 1)"

definition MakeDate :: "int \<Rightarrow> int \<Rightarrow> int" where
  "MakeDate day time = day * msPerDay + time"

definition TimeClip :: "int \<Rightarrow> int option" where
  "TimeClip t = (if \<bar>t\<bar> > 8640000000000000 then None else Some t)"

type_synonym time_zone = "int \<Rightarrow> bool \<Rightarrow> int"

definition LocalTime :: "time_zone \<Rightarrow> int \<Rightarrow> int" where
  "LocalTime Z t = t + Z t True"

definition UTC :: "time_zone \<Rightarrow> int \<Rightarrow> int" where
  "UTC Z t = t - Z t False"

text \<open>\<open>MakeDay(YearFromTime(t), MonthFromTime(t), dt)\<close>: the number of the first day of
  the month of \<open>t\<close>, plus \<open>dt - 1\<close>; the month begins \<open>DateFromTime(t) - 1\<close> days before the
  day of \<open>t\<close>.\<close>

definition MakeDayInMonthOf :: "int \<Rightarrow> int \<Rightarrow> int" where
  "MakeDayInMonthOf t dt = (Day t - (DateFromTime t - 1)) + dt - 1"

text \<open>\<open>Date.prototype.getDate\<close> and \<open>Date.prototype.setDate\<close> on a valid date with the
  time value \<open>tv\<close>; \<open>setDate\<close> gives the new time value.\<close>

definition getDate :: "time_zone \<Rightarrow> int \<Rightarrow> int" where
  "getDate Z tv = DateFromTime (LocalTime Z tv)"

definition setDate :: "time_zone \<Rightarrow> int \<Rightarrow> int \<Rightarrow> int option" where
  "setDate Z tv dt =
     (let t = LocalTime Z tv;
          newDate = MakeDate (MakeDayInMonthOf t dt) (TimeWithinDay t)
      in TimeClip (UTC Z newDate))"

text \<open>\<open>const cutoffDate = new Date();
  cutoffDate.setDate(cutoffDate.getDate() - CONFIG.PROCESSED_EVENTS.retentionDays)\<close>,
  where \<open>now\<close> is the time value of \<open>new Date()\<close>.\<close>

definition cutoffDate :: "config \<Rightarrow> time_zone \<Rightarrow> int \<Rightarrow> int option" where
  "cutoffDate cfg Z now = setDate Z now (getDate Z now - retentionDays cfg)"

text \<open>\<open>eventDate < cutoffDate\<close> on two dates: the comparison of the time values, false
  when one of them is invalid.  \<open>parseDate\<close> stands for \<open>new Date(eventDateStr)\<close>, the date
  parser of the platform; it gives the time value, or nothing for an invalid date.\<close>

definition dateBefore :: "int option \<Rightarrow> int option \<Rightarrow> bool" where
  "dateBefore eventDate cutoff =
     (case eventDate of
        None \<Rightarrow> False
      | Some t \<Rightarrow> (case cutoff of None \<Rightarrow> False | Some c \<Rightarrow> t < c))"

text \<open>The loop \<open>for (let i = data.length - 1; i >= 1; i--)\<close> over the snapshot \<open>data\<close>;
  the state is the sheet and \<open>deletedCount\<close>.\<close>

fun cleanupLoop ::
  "(string \<Rightarrow> int option) \<Rightarrow> int option \<Rightarrow> sheet_values \<Rightarrow> nat \<Rightarrow> sheet_values \<times> nat \<Rightarrow>
   sheet_values \<times> nat" where
  "cleanupLoop parseDate cutoff data 0 st = st"
| "cleanupLoop parseDate cutoff data (Suc i) (sheet, deletedCount) =
     (let eventDateStr = EVENT_DATE (data ! Suc i) in
      if eventDateStr \<noteq> [] \<and> dateBefore (parseDate eventDateStr) cutoff
      then cleanupLoop parseDate cutoff data i (deleteRow (Suc i + 1) sheet, deletedCount + 1)
      else cleanupLoop parseDate cutoff data i (sheet, deletedCount))"

definition cleanupOldRecords ::
  "config \<Rightarrow> (string \<Rightarrow> int option) \<Rightarrow> time_zone \<Rightarrow> int \<Rightarrow> sheet_values option \<Rightarrow>
   sheet_values option \<times> nat" where
  "cleanupOldRecords cfg parseDate Z now sheet =
     (case sheet of
        None \<Rightarrow> (None, 0)
      | Some data \<Rightarrow>
          (case cleanupLoop parseDate (cutoffDate cfg Z now) data (length data - 1) (data, 0) of
             (sheet', deletedCount) \<Rightarrow> (Some sheet', deletedCount)))"

section \<open>Extraction of the lead data (CalendarUtils)\<close>

text \<open>\<open>description.includes(identifier)\<close>.\<close>

fun startsWith :: "string \<Rightarrow> string \<Rightarrow> bool" where
  "startsWith s [] = True"
| "startsWith [] (p # ps) = False"
| "startsWith (c # cs) (p # ps) = (c = p \<and> startsWith cs ps)"

fun stringIncludes :: "string \<Rightarrow> string \<Rightarrow> bool" where
  "stringIncludes [] t = (t = [])"
| "stringIncludes (c # cs) t = (startsWith (c # cs) t \<or> stringIncludes cs t)"

definition isPhase1Event :: "config \<Rightarrow> calendar_event \<Rightarrow> bool" where
  "isPhase1Event cfg event = list_ex (stringIncludes (getDescription event)) (phase1Identifiers cfg)"

definition isPhase2Event :: "config \<Rightarrow> calendar_event \<Rightarrow> bool" where
  "isPhase2Event cfg event = list_ex (stringIncludes (getDescription event)) (phase2Identifiers cfg)"

text \<open>
  The text processing of \<open>CalendarUtils\<close> by regular expressions (\<open>stripHtml\<close>,
  \<open>extractField\<close>, \<open>extractFirstEmail\<close>) and the two locale-dependent formatters of
  the start time are parameters of the model: \<open>extractEventData\<close> is modelled for every
  choice of them.
\<close>

record text_tools =
  stripHtml :: "string \<Rightarrow> string"
  extractField :: "string \<Rightarrow> string \<Rightarrow> string"
  extractFirstEmail :: "string \<Rightarrow> string"
  getFormattedDate :: "string \<Rightarrow> string"
  getFormattedTime :: "string \<Rightarrow> string"

record event_data =
  eventId :: string
  eventTitle :: string
  startDate :: string
  firstName :: string
  lastName :: string
  email :: string
  phoneNumber :: string
  zoomLink :: string
  formattedDate :: string
  formattedTime :: string
  fullName :: string
  companyName :: string

definition capitalizeWord :: "string \<Rightarrow> string" where
  "capitalizeWord word =
     (case word of [] \<Rightarrow> [] | c # cs \<Rightarrow> toUpperChar c # toLowerCase cs)"

definition isLowerAZ :: "char \<Rightarrow> bool" where
  "isLowerAZ c = (c \<in> set lowerLetters)"

definition isUpperAZ :: "char \<Rightarrow> bool" where
  "isUpperAZ c = (c \<in> set upperLetters)"

text \<open>\<open>.replace(/([a-z])([A-Z])/g, '$1 $2')\<close>: the scan goes on after a match.\<close>

fun camelCaseToSpaces :: "string \<Rightarrow> string" where
  "camelCaseToSpaces (a # b # cs) =
     (if isLowerAZ a \<and> isUpperAZ b then a # CHR '' '' # b # camelCaseToSpaces cs
      else a # camelCaseToSpaces (b # cs))"
| "camelCaseToSpaces cs = cs"

text \<open>\<open>formatDomainAsCompanyName\<close>; the argument is absent when \<open>split('@')[1]\<close> is
  undefined.\<close>

definition formatDomainAsCompanyName :: "string option \<Rightarrow> string" where
  "formatDomainAsCompanyName domain =
     (case domain of
        None \<Rightarrow> []
      | Some dname \<Rightarrow>
          if dname = [] then []
          else
            let companyPart = hd (splitOn (\<lambda>c. c = CHR ''.'') dname)
            in join '' ''
                 (map capitalizeWord
                    (splitOn (\<lambda>c. c = CHR '' '')
                       (join '' ''
                          (splitOn (\<lambda>c. c = CHR ''-'' \<or> c = CHR ''_'')
                             (camelCaseToSpaces companyPart))))))"

text \<open>\<open>email.split('@')[1]\<close>.\<close>

definition emailDomain :: "string \<Rightarrow> string option" where
  "emailDomain e =
     (case splitOn (\<lambda>c. c = CHR ''@'') e of _ # d # _ \<Rightarrow> Some d | _ \<Rightarrow> None)"

definition getCompanyFromEmail :: "string \<Rightarrow> string" where
  "getCompanyFromEmail e = (if e = [] then [] else formatDomainAsCompanyName (emailDomain e))"

definition extractEventData :: "text_tools \<Rightarrow> calendar_event \<Rightarrow> error + event_data" where
  "extractEventData X event =
     (let description = stripHtml X (getDescription event);
          first = capitalizeWord (extractField X description ''First name:'');
          last = capitalizeWord (extractField X description ''Last name:'');
          mail = extractFirstEmail X description;
          data = \<lparr> eventId = getId event,
                   eventTitle = getTitle event,
                   startDate = startTimeISO event,
                   firstName = first,
                   lastName = last,
                   email = mail,
                   phoneNumber = extractField X description ''Phone number:'',
                   zoomLink = getLocation event,
                   formattedDate = getFormattedDate X (startTimeISO event),
                   formattedTime = getFormattedTime X (startTimeISO event),
                   fullName = first @ '' '' @ last,
                   companyName = getCompanyFromEmail mail \<rparr>
      in if first = [] \<or> last = [] \<or> mail = [] then Inl MissingRequiredFields else Inr data)"

text \<open>The description of the company name in words: the part of the domain before
  the first dot is cut at every dash and underscore and between a lower-case and an
  upper-case letter, and the words are capitalized and joined by single spaces.\<close>

fun domainWords :: "string \<Rightarrow> string list" where
  "domainWords [] = [[]]"
| "domainWords [a] = (if a = CHR ''-'' \<or> a = CHR ''_'' then [[], []] else [[a]])"
| "domainWords (a # b # cs) =
     (if a = CHR ''-'' \<or> a = CHR ''_'' then [] # domainWords (b # cs)
      else if isLowerAZ a \<and> isUpperAZ b then [a] # domainWords (b # cs)
      else (case domainWords (b # cs) of [] \<Rightarrow> [[a]] | w # ws \<Rightarrow> (a # w) # ws))"

definition companyNameOfDomain :: "string \<Rightarrow> string" where
  "companyNameOfDomain dname =
     join '' '' (map capitalizeWord (domainWords (takeWhile (\<lambda>c. c \<noteq> CHR ''.'') dname)))"

section \<open>Folders (FolderUtils)\<close>

definition findFolderByName :: "world \<Rightarrow> string \<Rightarrow> string \<Rightarrow> string option" where
  "findFolderByName w parentFolder name =
     (case folders w parentFolder of
        None \<Rightarrow> None
      | Some p \<Rightarrow>
          find (\<lambda>i. case folders w i of None \<Rightarrow> False | Some f \<Rightarrow> folderName f = name)
            (subfolderIds p))"

definition createFolder :: "world \<Rightarrow> string \<Rightarrow> string \<Rightarrow> (error + string) \<times> world" where
  "createFolder w parentFolder name =
     (case folders w parentFolder of
        None \<Rightarrow> (Inl DriveException, w)
      | Some p \<Rightarrow>
          let newId = idSupply w (idsUsed w)
          in (Inr newId,
              w\<lparr> folders := (folders w)
                     (newId := Some \<lparr> folderName = name, subfolderIds = [], fileIds = [] \<rparr>,
                      parentFolder := Some (p\<lparr> subfolderIds := subfolderIds p @ [newId] \<rparr>)),
                 idsUsed := idsUsed w + 1 \<rparr>))"

definition getOrCreateFolder :: "world \<Rightarrow> string \<Rightarrow> string \<Rightarrow> (error + string) \<times> world" where
  "getOrCreateFolder w parentFolder name =
     (case findFolderByName w parentFolder name of
        Some existingFolder \<Rightarrow> (Inr existingFolder, w)
      | None \<Rightarrow> createFolder w parentFolder name)"

record leader_folders =
  companyFolder :: string
  leaderFolder :: string

definition createLeaderFolderStructure ::
  "world \<Rightarrow> event_data \<Rightarrow> (error + leader_folders) \<times> world" where
  "createLeaderFolderStructure w eventData =
     (case folders w STRONG_TEAMS_FOLDER_ID of
        None \<Rightarrow> (Inl DriveException, w)
      | Some _ \<Rightarrow>
          andThen (getOrCreateFolder w STRONG_TEAMS_FOLDER_ID (companyName eventData))
            (\<lambda>company w1.
               andThen (getOrCreateFolder w1 company (fullName eventData))
                 (\<lambda>leader w2.
                    (Inr \<lparr> companyFolder = company, leaderFolder = leader \<rparr>, w2))))"

definition findFileInFolder :: "world \<Rightarrow> string \<Rightarrow> string \<Rightarrow> string option" where
  "findFileInFolder w fld name =
     (case folders w fld of
        None \<Rightarrow> None
      | Some f \<Rightarrow>
          find (\<lambda>i. case files w i of None \<Rightarrow> False | Some bf \<Rightarrow> fileName bf = name)
            (fileIds f))"

section \<open>The assessment-link API (IDSUtils.generateResponseLink)\<close>

record response_link =
  loginCode :: string
  responseLink :: string

definition generateResponseLink :: "world \<Rightarrow> event_data \<Rightarrow> (error + response_link) \<times> world" where
  "generateResponseLink w eventData =
     (let w1 = w\<lparr> apiCalls := apiCalls w + 1, clockReads := clockReads w + 1 \<rparr>
      in case apiReplies w (apiCalls w) of
           FetchFailed \<Rightarrow> (Inl FailedToGenerateLink, w1)
         | Reply responseCode login \<Rightarrow>
             if responseCode \<noteq> 201 then (Inl FailedToGenerateLink, w1)
             else if login = [] then (Inl FailedToGenerateLink, w1)
             else (Inr \<lparr> loginCode = login,
                         responseLink = ''https://assessment.basleracademy.com/'' @ login \<rparr>, w1))"

section \<open>Build Files (BuildFileManager, version 1.2.0)\<close>

definition buildFileNameOf :: "event_data \<Rightarrow> string" where
  "buildFileNameOf eventData = fullName eventData @ '' - Strong Teams Build File''"

definition validatePhase1Success :: "world \<Rightarrow> string \<Rightarrow> error + unit" where
  "validatePhase1Success w buildFile =
     (case files w buildFile of
        None \<Rightarrow> Inl ValidationError
      | Some bf \<Rightarrow>
          let missingFields =
                (case phase1Settings bf of
                   None \<Rightarrow> [''Phase 1 Settings sheet'']
                 | Some sheet \<Rightarrow>
                     (if sheet phase1LoginCodeRow = [] then [''IDS login code (Row 8)''] else []) @
                     (if sheet rowDate = [] then [''Phase 1 date (Row 2)''] else []) @
                     (if sheet rowTime = [] then [''Phase 1 time (Row 3)''] else []) @
                     (if sheet rowName = [] then [''Leader name (Row 7)''] else []) @
                     (if sheet rowZoomLink = [] then [''Zoom link (Row 9)''] else []))
          in if missingFields = [] then Inr () else Inl (Phase1ValidationFailed missingFields))"

definition createNewBuildFile :: "world \<Rightarrow> string \<Rightarrow> string \<Rightarrow> (error + string) \<times> world" where
  "createNewBuildFile w name destinationFolder =
     (case files w TEMPLATE_BUILD_FILE_ID of
        None \<Rightarrow> (Inl FailedToCreateBuildFile, w)
      | Some templateFile \<Rightarrow>
          (case folders w destinationFolder of
             None \<Rightarrow> (Inl FailedToCreateBuildFile, w)
           | Some f \<Rightarrow>
               let newId = idSupply w (idsUsed w)
               in (Inr newId,
                   w\<lparr> files := (files w)(newId := Some (templateFile\<lparr> fileName := name \<rparr>)),
                      folders := (folders w)
                        (destinationFolder := Some (f\<lparr> fileIds := fileIds f @ [newId] \<rparr>)),
                      idsUsed := idsUsed w + 1 \<rparr>)))"

definition updatePhase1Settings :: "world \<Rightarrow> string \<Rightarrow> event_data \<Rightarrow> (error + unit) \<times> world" where
  "updatePhase1Settings w buildFile eventData =
     (case files w buildFile of
        None \<Rightarrow> (Inl FailedToUpdatePhase1Settings, w)
      | Some bf \<Rightarrow>
          (case phase1Settings bf of
             None \<Rightarrow> (Inl FailedToUpdatePhase1Settings, w)
           | Some sheet \<Rightarrow>
               (Inr (),
                w\<lparr> files := (files w)(buildFile := Some (bf\<lparr> phase1Settings := Some (sheet
                       (rowDate := formattedDate eventData,
                        rowTime := formattedTime eventData,
                        rowName := fullName eventData,
                        rowZoomLink := zoomLink eventData)) \<rparr>)) \<rparr>)))"

text \<open>\<open>copyLoginCodeToPhase2\<close> works on the opened spreadsheet; it skips a missing
  sheet and raises nothing.\<close>

definition copyLoginCodeToPhase2 :: "build_file \<Rightarrow> string \<Rightarrow> build_file" where
  "copyLoginCodeToPhase2 spreadsheet code =
     (case phase2Settings spreadsheet of
        None \<Rightarrow> spreadsheet
      | Some phase2Sheet \<Rightarrow>
          spreadsheet\<lparr> phase2Settings := Some (phase2Sheet(phase2LoginCodeRow := code)) \<rparr>)"

text \<open>\<open>updateResponseLink\<close> has no try and catch: an error of the API call leaves it
  as it is.\<close>

definition updateResponseLink ::
  "config \<Rightarrow> world \<Rightarrow> string \<Rightarrow> event_data \<Rightarrow> (error + unit) \<times> world" where
  "updateResponseLink cfg w buildFile eventData =
     andThen (generateResponseLink w eventData)
       (\<lambda>result w1.
          case files w1 buildFile of
            None \<Rightarrow> (Inl DriveException, w1)
          | Some ss \<Rightarrow>
              (case phase1Settings ss of
                 None \<Rightarrow> (Inl Phase1SheetNotFound, w1)
               | Some sheet \<Rightarrow>
                   let sheet1 = (if storeFullUrlInRow4 cfg
                                 then sheet(phase1LinkRow := responseLink result) else sheet);
                       sheet2 = sheet1(phase1LoginCodeRow := loginCode result);
                       ss2 = copyLoginCodeToPhase2 (ss\<lparr> phase1Settings := Some sheet2 \<rparr>)
                               (loginCode result)
                   in (Inr (), w1\<lparr> files := (files w1)(buildFile := Some ss2) \<rparr>)))"

definition processLeaderBuildFile ::
  "config \<Rightarrow> world \<Rightarrow> event_data \<Rightarrow> string \<Rightarrow> (error + string) \<times> world" where
  "processLeaderBuildFile cfg w eventData leaderFld =
     (case findFileInFolder w leaderFld (buildFileNameOf eventData) of
        Some buildFile \<Rightarrow>
          andThen (updatePhase1Settings w buildFile eventData)
            (\<lambda>_ w1. (Inr buildFile, w1))
      | None \<Rightarrow>
          andThen (createNewBuildFile w (buildFileNameOf eventData) leaderFld)
            (\<lambda>buildFile w1.
               andThen (updatePhase1Settings w1 buildFile eventData)
                 (\<lambda>_ w2.
                    andThen (updateResponseLink cfg w2 buildFile eventData)
                      (\<lambda>_ w3. (Inr buildFile, w3)))))"

definition updatePhase2Settings :: "world \<Rightarrow> string \<Rightarrow> event_data \<Rightarrow> (error + unit) \<times> world" where
  "updatePhase2Settings w buildFile eventData =
     (case files w buildFile of
        None \<Rightarrow> (Inl FailedToUpdatePhase2Settings, w)
      | Some ss \<Rightarrow>
          (case phase2Settings ss of
             None \<Rightarrow> (Inl FailedToUpdatePhase2Settings, w)
           | Some sheet \<Rightarrow>
               let sheet1 = sheet(rowDate := formattedDate eventData,
                                  rowTime := formattedTime eventData,
                                  rowZoomLink := zoomLink eventData);
                   sheet2 = (case phase1Settings ss of
                               None \<Rightarrow> sheet1
                             | Some phase1Sheet \<Rightarrow>
                                 if phase1Sheet phase1LoginCodeRow \<noteq> []
                                 then sheet1(phase2LoginCodeRow := phase1Sheet phase1LoginCodeRow)
                                 else sheet1)
               in (Inr (),
                   w\<lparr> files := (files w)(buildFile := Some (ss\<lparr> phase2Settings := Some sheet2 \<rparr>)) \<rparr>)))"

section \<open>The orchestrator (version 2.2.0)\<close>

definition sendSuccessEmail :: "config \<Rightarrow> world \<Rightarrow> (error + unit) \<times> world" where
  "sendSuccessEmail cfg w =
     (if \<not> notifyOnSuccess cfg then (Inr (), w)
      else if mailWorks w then (Inr (), w) else (Inl MailException, w))"

definition sendErrorEmail :: "config \<Rightarrow> world \<Rightarrow> (error + unit) \<times> world" where
  "sendErrorEmail cfg w =
     (if \<not> notifyOnError cfg then (Inr (), w)
      else if mailWorks w then (Inr (), w) else (Inl MailException, w))"

record phase1_result =
  p1_eventData :: event_data
  p1_buildFileId :: string
  p1_leaderFolderId :: string

definition processPhase1Event ::
  "config \<Rightarrow> text_tools \<Rightarrow> world \<Rightarrow> calendar_event \<Rightarrow> (error + phase1_result) \<times> world" where
  "processPhase1Event cfg X w event =
     (case extractEventData X event of
        Inl e \<Rightarrow> (Inl e, w)
      | Inr eventData \<Rightarrow>
          andThen (createLeaderFolderStructure w eventData)
            (\<lambda>flds w1.
               andThen (processLeaderBuildFile cfg w1 eventData (leaderFolder flds))
                 (\<lambda>buildFile w2.
                    andThen (sendSuccessEmail cfg w2)
                      (\<lambda>_ w3.
                         (Inr \<lparr> p1_eventData = eventData, p1_buildFileId = buildFile,
                                p1_leaderFolderId = leaderFolder flds \<rparr>, w3)))))"

definition getBuildFileById :: "world \<Rightarrow> string \<Rightarrow> string option" where
  "getBuildFileById w fileId =
     (if fileId = [] then None
      else case files w fileId of None \<Rightarrow> None | Some _ \<Rightarrow> Some fileId)"

definition findBuildFileByFolderSearch :: "world \<Rightarrow> event_data \<Rightarrow> string option" where
  "findBuildFileByFolderSearch w eventData =
     (case folders w STRONG_TEAMS_FOLDER_ID of
        None \<Rightarrow> None
      | Some _ \<Rightarrow>
          (case findFolderByName w STRONG_TEAMS_FOLDER_ID (companyName eventData) of
             None \<Rightarrow> None
           | Some company \<Rightarrow>
               (case findFolderByName w company (fullName eventData) of
                  None \<Rightarrow> None
                | Some leader \<Rightarrow> findFileInFolder w leader (buildFileNameOf eventData))))"

text \<open>Step 2 of \<open>processPhase2Event\<close>: the look-up by e-mail, then the search of the
  folders when the first gave no file.\<close>

definition lookupByEmail :: "world \<Rightarrow> event_data \<Rightarrow> string option" where
  "lookupByEmail w eventData =
     (case findByEmail (trackingSheet w) (email eventData) (Some (fullName eventData)) of
        None \<Rightarrow> None
      | Some trackerResult \<Rightarrow>
          if m_buildFileId trackerResult \<noteq> []
          then getBuildFileById w (m_buildFileId trackerResult) else None)"

definition resolveBuildFile :: "world \<Rightarrow> event_data \<Rightarrow> string option" where
  "resolveBuildFile w eventData =
     (case lookupByEmail w eventData of
        Some buildFile \<Rightarrow> Some buildFile
      | None \<Rightarrow> findBuildFileByFolderSearch w eventData)"

definition processPhase2Event ::
  "config \<Rightarrow> text_tools \<Rightarrow> world \<Rightarrow> calendar_event \<Rightarrow> (error + event_data) \<times> world" where
  "processPhase2Event cfg X w event =
     (case extractEventData X event of
        Inl e \<Rightarrow> (Inl e, w)
      | Inr eventData \<Rightarrow>
          (case resolveBuildFile w eventData of
             None \<Rightarrow> (Inl (BuildFileNotFound (fullName eventData) (email eventData)), w)
           | Some buildFile \<Rightarrow>
               andThen (updatePhase2Settings w buildFile eventData)
                 (\<lambda>_ w1. (Inr eventData, w1))))"

datatype outcome = NewlyProcessed | AlreadyProcessed | NotStrongTeams | Failed error

definition phase1TrackingData :: "phase1_result \<Rightarrow> tracking_data" where
  "phase1TrackingData result =
     \<lparr> td_fullName = fullName (p1_eventData result),
       td_companyName = companyName (p1_eventData result),
       td_email = email (p1_eventData result),
       td_buildFileId = Some (p1_buildFileId result),
       td_leaderFolderId = Some (p1_leaderFolderId result) \<rparr>"

definition phase2TrackingData :: "event_data \<Rightarrow> tracking_data" where
  "phase2TrackingData eventData =
     \<lparr> td_fullName = fullName eventData,
       td_companyName = companyName eventData,
       td_email = email eventData,
       td_buildFileId = None,
       td_leaderFolderId = None \<rparr>"

definition existingRow :: "tracking_status \<Rightarrow> int" where
  "existingRow trackingStatus =
     (if needsUpdate trackingStatus then rowIndex trackingStatus else - 1)"

text \<open>The body of the \<open>try\<close> block that \<open>onCalendarTrigger\<close> runs for one event.\<close>

definition processEvent ::
  "config \<Rightarrow> text_tools \<Rightarrow> world \<Rightarrow> calendar_event \<Rightarrow> outcome \<times> world" where
  "processEvent cfg X w event =
     (if isPhase1Event cfg event then
        (let trackingStatus = isEventProcessed cfg (trackingSheet w) event
         in if processed trackingStatus then (AlreadyProcessed, w)
            else
              (case processPhase1Event cfg X w event of
                 (Inl e, w1) \<Rightarrow> (Failed e, w1)
               | (Inr result, w1) \<Rightarrow>
                   (case markEventProcessed cfg w1 event ''Phase 1''
                           (phase1TrackingData result) (existingRow trackingStatus) of
                      (Inl e, w2) \<Rightarrow> (Failed e, w2)
                    | (Inr _, w2) \<Rightarrow> (NewlyProcessed, w2))))
      else if isPhase2Event cfg event then
        (let trackingStatus = isEventProcessed cfg (trackingSheet w) event
         in if processed trackingStatus then (AlreadyProcessed, w)
            else
              (case processPhase2Event cfg X w event of
                 (Inl e, w1) \<Rightarrow> (Failed e, w1)
               | (Inr eventData, w1) \<Rightarrow>
                   (case markEventProcessed cfg w1 event ''Phase 2''
                           (phase2TrackingData eventData) (existingRow trackingStatus) of
                      (Inl e, w2) \<Rightarrow> (Failed e, w2)
                    | (Inr _, w2) \<Rightarrow> (NewlyProcessed, w2))))
      else (NotStrongTeams, w))"

record counters =
  successCount :: nat
  errorCount :: nat
  skippedCount :: nat
  alreadyProcessedCount :: nat

definition countOutcome :: "outcome \<Rightarrow> counters \<Rightarrow> counters" where
  "countOutcome out c =
     (case out of
        NewlyProcessed \<Rightarrow> c\<lparr> successCount := successCount c + 1 \<rparr>
      | AlreadyProcessed \<Rightarrow> c\<lparr> alreadyProcessedCount := alreadyProcessedCount c + 1 \<rparr>
      | NotStrongTeams \<Rightarrow> c\<lparr> skippedCount := skippedCount c + 1 \<rparr>
      | Failed _ \<Rightarrow> c\<lparr> errorCount := errorCount c + 1 \<rparr>)"

text \<open>\<open>events.forEach\<close>: an error of one event is caught and reported by
  \<open>handleEventError\<close>; when the report itself fails, the loop is left.\<close>

fun forEachEvent ::
  "config \<Rightarrow> text_tools \<Rightarrow> calendar_event list \<Rightarrow> world \<times> counters \<Rightarrow> (error + unit) \<times> world \<times> counters" where
  "forEachEvent cfg X [] (w, c) = (Inr (), w, c)"
| "forEachEvent cfg X (event # events) (w, c) =
     (case processEvent cfg X w event of
        (Failed e, w1) \<Rightarrow>
          (case sendErrorEmail cfg w1 of
             (Inl e', w2) \<Rightarrow> (Inl e', w2, countOutcome (Failed e) c)
           | (Inr _, w2) \<Rightarrow> forEachEvent cfg X events (w2, countOutcome (Failed e) c))
      | (out, w1) \<Rightarrow> forEachEvent cfg X events (w1, countOutcome out c))"

definition onCalendarTrigger ::
  "config \<Rightarrow> text_tools \<Rightarrow> world \<Rightarrow> calendar_event list \<Rightarrow> world \<times> counters" where
  "onCalendarTrigger cfg X w events =
     (let c0 = \<lparr> successCount = 0, errorCount = 0, skippedCount = 0, alreadyProcessedCount = 0 \<rparr>
      in case forEachEvent cfg X events (w, c0) of
           (Inl _, w', c) \<Rightarrow> (w', c\<lparr> errorCount := errorCount c + 1 \<rparr>)
         | (Inr _, w', c) \<Rightarrow> (w', c))"

section \<open>Notions used in the statements\<close>

text \<open>The ledger invariant of the specification: at most one row per event id.\<close>

definition uniqueEventIds :: "sheet_values option \<Rightarrow> bool" where
  "uniqueEventIds sheet = distinct (map EVENT_ID (ledgerRows sheet))"

text \<open>The next request to the assessment-link API fails: the request itself, a
  response code other than 201, or a response without login code.\<close>

definition apiFails :: "world \<Rightarrow> bool" where
  "apiFails w =
     (case apiReplies w (apiCalls w) of
        FetchFailed \<Rightarrow> True
      | Reply responseCode login \<Rightarrow> responseCode \<noteq> 201 \<or> login = [])"

text \<open>The login code stored in a Build File (row 8 of its Phase 1 sheet), and the files
  of a given name in a folder.\<close>

definition storedLoginCode :: "world \<Rightarrow> string \<Rightarrow> string" where
  "storedLoginCode w buildFile =
     (case files w buildFile of
        None \<Rightarrow> []
      | Some bf \<Rightarrow>
          (case phase1Settings bf of None \<Rightarrow> [] | Some sheet \<Rightarrow> sheet phase1LoginCodeRow))"

definition filesNamed :: "world \<Rightarrow> string \<Rightarrow> string \<Rightarrow> string list" where
  "filesNamed w fld name =
     (case folders w fld of
        None \<Rightarrow> []
      | Some f \<Rightarrow>
          filter (\<lambda>i. case files w i of None \<Rightarrow> False | Some bf \<Rightarrow> fileName bf = name)
            (fileIds f))"

text \<open>What no operation on Drive, on a Build File or on the API touches: the tracking
  sheet and the scripts of the outside; the counters only grow.\<close>

definition leavesLedger :: "world \<Rightarrow> world \<Rightarrow> bool" where
  "leavesLedger w w' =
     (trackingSheet w' = trackingSheet w \<and> clock w' = clock w \<and>
      clockReads w \<le> clockReads w' \<and> apiReplies w' = apiReplies w \<and>
      apiCalls w \<le> apiCalls w' \<and> idSupply w' = idSupply w \<and> mailWorks w' = mailWorks w)"

section \<open>Sample data\<close>

text \<open>Concrete inputs on which the theorems below are instantiated.  The leader is the
  one of \<open>testWithSampleData\<close> in the orchestrator's file; the event is the scenario of
  the specification's testable properties.\<close>

definition sampleEvent :: calendar_event where
  "sampleEvent = \<lparr> getId = ''e1'', getTitle = ''Phase 1 Coaching - April Welch'',
     getDescription = ''Appointment Type : 60 Minute Phase 1 - Leader Only<br>First name: April<br>Last name: Welch<br>Email: aw@aprilwelch.com<br>Phone number: 555-0100'',
     getLocation = ''https://book.youcanbook.me/zoom/JTHO-ZFBK-BYRI'',
     startTimeISO = ''2025-01-10T18:00:00.000Z'',
     endTimeISO = ''2025-01-10T19:00:00.000Z'' \<rparr>"

definition headerRow :: ledger_row where
  "headerRow = \<lparr> EVENT_ID = ''Event ID'', FINGERPRINT = ''Fingerprint'', PHASE = ''Phase'',
     LEADER_NAME = ''Leader Name'', COMPANY = ''Company'', EVENT_DATE = ''Event Date'',
     PROCESSED_AT = ''Processed At'', LAST_UPDATED = ''Last Updated'',
     LEADER_EMAIL = ''Leader Email'', BUILD_FILE_ID = ''Build File ID'',
     LEADER_FOLDER_ID = ''Leader Folder ID'' \<rparr>"

definition sampleRow ::
  "string \<Rightarrow> string \<Rightarrow> string \<Rightarrow> string \<Rightarrow> string \<Rightarrow> string \<Rightarrow> ledger_row" where
  "sampleRow eid fp name eventDate mail fileId =
     \<lparr> EVENT_ID = eid, FINGERPRINT = fp, PHASE = ''Phase 1'', LEADER_NAME = name,
       COMPANY = ''Acme'', EVENT_DATE = eventDate,
       PROCESSED_AT = ''2025-01-02T08:00:00.000Z'', LAST_UPDATED = ''2025-01-02T08:00:00.000Z'',
       LEADER_EMAIL = mail, BUILD_FILE_ID = fileId, LEADER_FOLDER_ID = ''folder-1'' \<rparr>"

text \<open>A ledger that holds the sample event with its current fingerprint, and one that
  holds it with the fingerprint of an earlier location.\<close>

definition currentLedger :: sheet_values where
  "currentLedger = [headerRow,
     sampleRow ''e0'' ''2042edc9'' ''Bob Stone'' ''2025-01-09T18:00:00.000Z'' ''bob@acme.com'' ''file-0'',
     sampleRow ''e1'' ''13a88f6a'' ''April Welch'' ''2025-01-10T18:00:00.000Z'' ''aw@aprilwelch.com'' ''file-1'']"

definition staleLedger :: sheet_values where
  "staleLedger = [headerRow,
     sampleRow ''e0'' ''2042edc9'' ''Bob Stone'' ''2025-01-09T18:00:00.000Z'' ''bob@acme.com'' ''file-0'',
     sampleRow ''e1'' ''25c0a10c'' ''April Welch'' ''2025-01-10T18:00:00.000Z'' ''aw@aprilwelch.com'' ''file-1'']"

text \<open>Three Phase 1 rows that share one e-mail address; two of them also share the
  leader name.\<close>

definition sharedInboxLedger :: sheet_values where
  "sharedInboxLedger = [headerRow,
     sampleRow ''e10'' ''1a'' ''Bob Stone'' ''2025-01-09T18:00:00.000Z'' ''Team@Acme.com'' ''file-bob'',
     sampleRow ''e11'' ''2b'' ''Alice Smith'' ''2025-01-10T18:00:00.000Z'' ''team@acme.com'' ''file-alice-1'',
     sampleRow ''e12'' ''3c'' ''alice smith '' ''2025-01-11T18:00:00.000Z'' ''team@acme.com '' ''file-alice-2'']"

text \<open>A ledger with an old row, a recent row, a row without event date and a row whose
  event date is no date; the times that the date parser gives for the dates of this
  section; and the first of July 2025, 00:00 UTC, as the current time.\<close>

definition agedLedger :: sheet_values where
  "agedLedger = [headerRow,
     sampleRow ''e20'' ''1a'' ''Bob Stone'' ''2024-01-01T00:00:00.000Z'' ''bob@acme.com'' ''file-0'',
     sampleRow ''e21'' ''2b'' ''Alice Smith'' ''2025-06-01T00:00:00.000Z'' ''alice@acme.com'' ''file-1'',
     sampleRow ''e22'' ''3c'' ''Carol Jones'' [] ''carol@acme.com'' ''file-2'',
     sampleRow ''e23'' ''4d'' ''Dan Brown'' ''to be scheduled'' ''dan@acme.com'' ''file-3'']"

definition sampleParseDate :: "string \<Rightarrow> int option" where
  "sampleParseDate = map_of
     [(''2024-01-01T00:00:00.000Z'', 1704067200000),
      (''2025-03-03T00:00:00.000Z'', 1740960000000),
      (''2025-03-03T00:30:00.000Z'', 1740961800000),
      (''2025-03-03T01:00:00.000Z'', 1740963600000),
      (''2025-06-01T00:00:00.000Z'', 1748736000000)]"

definition sampleNow :: int where
  "sampleNow = 1751328000000"

text \<open>Two time zones: UTC, and the offsets of New York (America/New York) from November 2024 to
  November 2025 (five hours behind UTC until 9 March 2025, 2:00 local time, which is
  7:00 UTC, four hours from then on).\<close>

definition utcZone :: time_zone where
  "utcZone t isUTC = 0"

definition newYorkZone :: time_zone where
  "newYorkZone t isUTC =
     (if isUTC then (if t < 1741503600000 then - 18000000 else - 14400000)
      else (if t < 1741485600000 then - 18000000 else - 14400000))"

text \<open>A ledger with three rows dated 3 March 2025, at 0:00, 0:30 and 1:00 UTC: 120 days
  before the sample time are 0:00 UTC on that day, and 1:00 UTC on the local calendar of
  New York.\<close>

definition boundaryLedger :: sheet_values where
  "boundaryLedger = [headerRow,
     sampleRow ''e30'' ''1a'' ''Bob Stone'' ''2025-03-03T00:00:00.000Z'' ''bob@acme.com'' ''file-0'',
     sampleRow ''e31'' ''2b'' ''Alice Smith'' ''2025-03-03T00:30:00.000Z'' ''alice@acme.com'' ''file-1'',
     sampleRow ''e32'' ''3c'' ''Carol Jones'' ''2025-03-03T01:00:00.000Z'' ''carol@acme.com'' ''file-2'']"

text \<open>Text tools that return, for every description, what the program's extraction
  returns on the description of the sample event; the lead data of that event; and the
  same tools for a second leader with an address at the same domain.\<close>

definition sampleTools :: text_tools where
  "sampleTools = \<lparr> stripHtml = (\<lambda>html. html),
     extractField = (\<lambda>description label.
        if label = ''First name:'' then ''april''
        else if label = ''Last name:'' then ''WELCH''
        else if label = ''Phone number:'' then ''555-0100'' else []),
     extractFirstEmail = (\<lambda>description. ''aw@aprilwelch.com''),
     getFormattedDate = (\<lambda>start. if start = ''2025-01-10T18:00:00.000Z''
                                 then ''January 10, 2025'' else ''February 14, 2025''),
     getFormattedTime = (\<lambda>start. if start = ''2025-01-10T18:00:00.000Z''
                                 then ''1:00 PM EST'' else ''10:00 AM EST'') \<rparr>"

definition sampleData :: event_data where
  "sampleData = \<lparr> eventId = ''e1'', eventTitle = ''Phase 1 Coaching - April Welch'',
     startDate = ''2025-01-10T18:00:00.000Z'', firstName = ''April'', lastName = ''Welch'',
     email = ''aw@aprilwelch.com'', phoneNumber = ''555-0100'',
     zoomLink = ''https://book.youcanbook.me/zoom/JTHO-ZFBK-BYRI'',
     formattedDate = ''January 10, 2025'', formattedTime = ''1:00 PM EST'',
     fullName = ''April Welch'', companyName = ''Aprilwelch'' \<rparr>"

definition colleagueTools :: text_tools where
  "colleagueTools = sampleTools\<lparr>
     extractField := (\<lambda>description label.
        if label = ''First name:'' then ''Jo''
        else if label = ''Last name:'' then ''Park'' else []),
     extractFirstEmail := (\<lambda>description. ''jo.park@aprilwelch.com'') \<rparr>"

definition colleagueData :: event_data where
  "colleagueData = \<lparr> eventId = ''e1'', eventTitle = ''Phase 1 Coaching - April Welch'',
     startDate = ''2025-01-10T18:00:00.000Z'', firstName = ''Jo'', lastName = ''Park'',
     email = ''jo.park@aprilwelch.com'', phoneNumber = [],
     zoomLink = ''https://book.youcanbook.me/zoom/JTHO-ZFBK-BYRI'',
     formattedDate = ''January 10, 2025'', formattedTime = ''1:00 PM EST'',
     fullName = ''Jo Park'', companyName = ''Aprilwelch'' \<rparr>"

text \<open>The same tools for a third leader at this domain, who writes the domain of the
  address in camel case.\<close>

definition camelCaseTools :: text_tools where
  "camelCaseTools = sampleTools\<lparr>
     extractField := (\<lambda>description label.
        if label = ''First name:'' then ''Al''
        else if label = ''Last name:'' then ''Welch'' else []),
     extractFirstEmail := (\<lambda>description. ''al@aprilWelch.com'') \<rparr>"

definition camelCaseData :: event_data where
  "camelCaseData = \<lparr> eventId = ''e1'', eventTitle = ''Phase 1 Coaching - April Welch'',
     startDate = ''2025-01-10T18:00:00.000Z'', firstName = ''Al'', lastName = ''Welch'',
     email = ''al@aprilWelch.com'', phoneNumber = [],
     zoomLink = ''https://book.youcanbook.me/zoom/JTHO-ZFBK-BYRI'',
     formattedDate = ''January 10, 2025'', formattedTime = ''1:00 PM EST'',
     fullName = ''Al Welch'', companyName = ''April Welch'' \<rparr>"

text \<open>A Phase 2 event of the same leader.\<close>

definition samplePhase2Event :: calendar_event where
  "samplePhase2Event = \<lparr> getId = ''e2'', getTitle = ''Phase 2 Team Building - April Welch'',
     getDescription = ''Appointment Type : 90 Minute Phase 2 - Team Building<br>First name: April<br>Last name: Welch<br>Email: aw@aprilwelch.com<br>Phone number: 555-0100'',
     getLocation = ''https://book.youcanbook.me/zoom/TEAM-MEET'',
     startTimeISO = ''2025-02-14T15:00:00.000Z'',
     endTimeISO = ''2025-02-14T16:30:00.000Z'' \<rparr>"

definition samplePhase2Data :: event_data where
  "samplePhase2Data = \<lparr> eventId = ''e2'', eventTitle = ''Phase 2 Team Building - April Welch'',
     startDate = ''2025-02-14T15:00:00.000Z'', firstName = ''April'', lastName = ''Welch'',
     email = ''aw@aprilwelch.com'', phoneNumber = ''555-0100'',
     zoomLink = ''https://book.youcanbook.me/zoom/TEAM-MEET'',
     formattedDate = ''February 14, 2025'', formattedTime = ''10:00 AM EST'',
     fullName = ''April Welch'', companyName = ''Aprilwelch'' \<rparr>"

text \<open>The lead data of the sample event after the session was moved by a week.\<close>

definition rescheduledData :: event_data where
  "rescheduledData = sampleData\<lparr> formattedDate := ''January 17, 2025'' \<rparr>"

definition sampleFolders :: leader_folders where
  "sampleFolders = \<lparr> companyFolder = ''company-folder-1'', leaderFolder = ''leader-folder-1'' \<rparr>"

text \<open>A world before the first run: the Strong Teams folder is empty, the template of
  the Build File has both settings sheets, the tracking sheet has its header row only.
  \<open>apiDown\<close> says whether the first request to the assessment-link API fails; every
  later request is answered with a login code.\<close>

definition emptySheet :: settings_sheet where
  "emptySheet = (\<lambda>row. [])"

definition freshWorld :: "bool \<Rightarrow> world" where
  "freshWorld apiDown =
     \<lparr> trackingSheet = Some [headerRow],
       folders = (\<lambda>i. if i = STRONG_TEAMS_FOLDER_ID
                       then Some \<lparr> folderName = ''Strong Teams'', subfolderIds = [], fileIds = [] \<rparr>
                       else None),
       files = (\<lambda>i. if i = TEMPLATE_BUILD_FILE_ID
                     then Some \<lparr> fileName = ''Strong Teams Build File (Template)'',
                                 phase1Settings = Some emptySheet,
                                 phase2Settings = Some emptySheet \<rparr>
                     else None),
       idSupply = (\<lambda>n. if n = 0 then ''company-folder-1''
                        else if n = 1 then ''leader-folder-1''
                        else if n = 2 then ''build-file-1'' else ''build-file-2''),
       idsUsed = 0,
       apiReplies = (\<lambda>n. if n = 0 \<and> apiDown then FetchFailed else Reply 201 ''LOGIN-CODE-1''),
       apiCalls = 0,
       mailWorks = True,
       clock = (\<lambda>n. ''2025-01-02T08:00:00.000Z''),
       clockReads = 0 \<rparr>"

text \<open>The world after the folders of the sample leader were created; the world after
  a first successful Phase 1 run for the sample event; the same world with the ledger
  cleared; a world whose ledger holds the sample event with an outdated fingerprint; and
  the world that a first run leaves when the assessment-link API was down.\<close>

definition leaderWorld :: world where
  "leaderWorld = snd (createLeaderFolderStructure (freshWorld False) sampleData)"

definition phase1DoneWorld :: world where
  "phase1DoneWorld = snd (processEvent CONFIG sampleTools (freshWorld False) sampleEvent)"

definition clearedWorld :: world where
  "clearedWorld = phase1DoneWorld\<lparr> trackingSheet := Some [headerRow] \<rparr>"

definition staleWorld :: world where
  "staleWorld = (freshWorld False)\<lparr> trackingSheet := Some staleLedger \<rparr>"

definition retryWorld :: world where
  "retryWorld = snd (processEvent CONFIG sampleTools (freshWorld True) sampleEvent)"

section \<open>Verified properties\<close>

subsection \<open>Fingerprints\<close>

lemma toInt32_range: "- 2147483648 \<le> toInt32 x \<and> toInt32 x < 2147483648"
  unfolding toInt32_def
  using pos_mod_sign [of 4294967296 "x + 2147483648"]
        pos_mod_bound [of 4294967296 "x + 2147483648"]
  by linarith

lemma hashStep_range: "- 2147483648 \<le> hashStep h c \<and> hashStep h c < 2147483648"
  unfolding hashStep_def by (rule toInt32_range)

lemma foldl_hashStep_range:
  "- 2147483648 \<le> h \<Longrightarrow> h < 2147483648 \<Longrightarrow>
   - 2147483648 \<le> foldl hashStep h s \<and> foldl hashStep h s < 2147483648"
proof (induction s arbitrary: h)
  case Nil
  then show ?case by simp
next
  case (Cons c s)
  show ?case
    using Cons.IH [of "hashStep h c"] hashStep_range [of h c] by simp
qed

lemma rollingHash_range:
  "- 2147483648 \<le> rollingHash s \<and> rollingHash s < 2147483648"
  unfolding rollingHash_def by (rule foldl_hashStep_range) simp_all

lemma fingerprintDetails_cong:
  assumes "startTimeISO e1 = startTimeISO e2" and "endTimeISO e1 = endTimeISO e2"
    and "getLocation e1 = getLocation e2"
    and "take 100 (getDescription e1) = take 100 (getDescription e2)"
  shows "fingerprintDetails e1 = fingerprintDetails e2"
  using assms by (simp add: fingerprintDetails_def)

text \<open>
  C8 (as amended).  The fingerprint is a function of exactly four values: the start time
  and the end time in ISO format, the location, and the first 100 characters of the
  description.  Two events that agree on them have equal fingerprints, whatever their
  titles, identifiers and the rest of their descriptions are, so the fingerprint changes
  only if one of the four changes.  It is the hexadecimal numeral of the absolute value
  of the 32-bit signed rolling hash of the four values joined by \<open>|\<close>.  The converse,
  that every change of the details changes the fingerprint, is not claimed.
\<close>

theorem generateFingerprint_deterministic:
  assumes "startTimeISO e1 = startTimeISO e2" and "endTimeISO e1 = endTimeISO e2"
    and "getLocation e1 = getLocation e2"
    and "take 100 (getDescription e1) = take 100 (getDescription e2)"
  shows "generateFingerprint e1 = generateFingerprint e2 \<and>
         (\<exists>h. - 2147483648 \<le> h \<and> h < 2147483648 \<and>
              h = rollingHash (join ''|'' [startTimeISO e1, endTimeISO e1, getLocation e1,
                                            take 100 (getDescription e1)]) \<and>
              generateFingerprint e1 = toHex \<bar>h\<bar>)"
proof -
  have "fingerprintDetails e1 = fingerprintDetails e2"
    using assms by (rule fingerprintDetails_cong)
  then have "generateFingerprint e1 = generateFingerprint e2"
    by (simp add: generateFingerprint_def)
  moreover have "generateFingerprint e1 = toHex \<bar>rollingHash (fingerprintDetails e1)\<bar>"
    by (simp add: generateFingerprint_def)
  ultimately show ?thesis
    using rollingHash_range [of "fingerprintDetails e1"]
    by (simp add: fingerprintDetails_def)
qed

theorem generateFingerprint_deterministic_witness:
  "generateFingerprint sampleEvent =
     generateFingerprint (sampleEvent\<lparr> getId := ''e2'', getTitle := ''Renamed'',
        getDescription := take 100 (getDescription sampleEvent) @ ''another ending'' \<rparr>)"
proof -
  let ?e2 = "sampleEvent\<lparr> getId := ''e2'', getTitle := ''Renamed'',
        getDescription := take 100 (getDescription sampleEvent) @ ''another ending'' \<rparr>"
  have a: "startTimeISO sampleEvent = startTimeISO ?e2"
    and b: "endTimeISO sampleEvent = endTimeISO ?e2"
    and c: "getLocation sampleEvent = getLocation ?e2" by simp_all
  have d: "take 100 (getDescription sampleEvent) = take 100 (getDescription ?e2)"
    by (simp add: sampleEvent_def)
  from generateFingerprint_deterministic [OF a b c d] show ?thesis by blast
qed

text \<open>The claim as stated also says that the fingerprint changes whenever the details
  change.  Two events that differ in the location only, \<open>.../Aa\<close> against \<open>.../BB\<close>,
  have the same fingerprint.\<close>

theorem generateFingerprint_collision_counterexample:
  "getLocation (sampleEvent\<lparr> getLocation := ''https://zoom.us/j/Aa'' \<rparr>) \<noteq>
     getLocation (sampleEvent\<lparr> getLocation := ''https://zoom.us/j/BB'' \<rparr>) \<and>
   generateFingerprint (sampleEvent\<lparr> getLocation := ''https://zoom.us/j/Aa'' \<rparr>) =
     generateFingerprint (sampleEvent\<lparr> getLocation := ''https://zoom.us/j/BB'' \<rparr>)"
  by (simp add: sampleEvent_def generateFingerprint_def fingerprintDetails_def rollingHash_def
        hashStep_def toInt32_def)

subsection \<open>The three outcomes of isEventProcessed\<close>

lemma searchEventId_absent:
  "\<forall>r \<in> set rows. EVENT_ID r \<noteq> eid \<Longrightarrow> searchEventId eid fp rows i = notTracked"
  by (induction rows arbitrary: i) simp_all

lemma searchEventId_first:
  "k < length rows \<Longrightarrow> EVENT_ID (rows ! k) = eid \<Longrightarrow>
   \<forall>j<k. EVENT_ID (rows ! j) \<noteq> eid \<Longrightarrow>
   searchEventId eid fp rows i =
     (if FINGERPRINT (rows ! k) = fp
      then \<lparr> processed = True, needsUpdate = False, rowIndex = int (i + k) + 1 \<rparr>
      else \<lparr> processed = False, needsUpdate = True, rowIndex = int (i + k) + 1 \<rparr>)"
proof (induction rows arbitrary: i k)
  case Nil
  then show ?case by simp
next
  case (Cons r rows)
  show ?case
  proof (cases k)
    case 0
    with Cons.prems show ?thesis by simp
  next
    case (Suc k')
    from Cons.prems Suc have neq: "EVENT_ID r \<noteq> eid" by auto
    have "searchEventId eid fp rows (Suc i) =
      (if FINGERPRINT (rows ! k') = fp
       then \<lparr> processed = True, needsUpdate = False, rowIndex = int (Suc i + k') + 1 \<rparr>
       else \<lparr> processed = False, needsUpdate = True, rowIndex = int (Suc i + k') + 1 \<rparr>)"
    proof (rule Cons.IH)
      show "k' < length rows" using Cons.prems Suc by simp
      show "EVENT_ID (rows ! k') = eid" using Cons.prems Suc by simp
      show "\<forall>j<k'. EVENT_ID (rows ! j) \<noteq> eid"
      proof (intro allI impI)
        fix j assume "j < k'"
        then have "Suc j < k" using Suc by simp
        with Cons.prems have "EVENT_ID ((r # rows) ! Suc j) \<noteq> eid" by blast
        then show "EVENT_ID (rows ! j) \<noteq> eid" by simp
      qed
    qed
    with neq Suc show ?thesis by simp
  qed
qed

lemma distinct_first_occurrence:
  assumes "distinct (map f xs)" and "k < length xs" and "f (xs ! k) = v" and "j < k"
  shows "f (xs ! j) \<noteq> v"
proof
  assume "f (xs ! j) = v"
  then have eq: "map f xs ! j = map f xs ! k" using assms by simp
  have lj: "j < length (map f xs)" and lk: "k < length (map f xs)" using assms by simp_all
  have "j = k"
    using nth_eq_iff_index_eq [OF assms(1) lj lk] eq by blast
  with assms(4) show False by simp
qed

text \<open>
  C1.  With tracking enabled the answer of \<open>isEventProcessed\<close> is one of three, decided
  by the ledger.  If no ledger row carries the event's id, the event is new: not
  processed, no update needed, row reference \<open>-1\<close>.  If row \<open>k\<close> of the ledger (sheet
  row \<open>k + 2\<close>) carries the id, the answer is \<open>processed\<close> with that row's reference when
  the stored fingerprint equals the recomputed one, and \<open>needsUpdate\<close> with the same
  reference when it differs.  The row meant is the one row with that id in a ledger
  whose event ids are unique; in any ledger it is the first row with that id.
\<close>

theorem isEventProcessed_trichotomy:
  assumes "trackingEnabled cfg"
  shows "((\<forall>r \<in> set (ledgerRows sheet). EVENT_ID r \<noteq> getId event) \<longrightarrow>
            isEventProcessed cfg sheet event =
              \<lparr> processed = False, needsUpdate = False, rowIndex = - 1 \<rparr>) \<and>
         (\<forall>k < length (ledgerRows sheet).
            EVENT_ID (ledgerRows sheet ! k) = getId event \<and>
            (distinct (map EVENT_ID (ledgerRows sheet)) \<or>
             (\<forall>j<k. EVENT_ID (ledgerRows sheet ! j) \<noteq> getId event)) \<longrightarrow>
            isEventProcessed cfg sheet event =
              (if FINGERPRINT (ledgerRows sheet ! k) = generateFingerprint event
               then \<lparr> processed = True, needsUpdate = False, rowIndex = int k + 2 \<rparr>
               else \<lparr> processed = False, needsUpdate = True, rowIndex = int k + 2 \<rparr>))"
proof (intro conjI impI allI)
  assume "\<forall>r \<in> set (ledgerRows sheet). EVENT_ID r \<noteq> getId event"
  then show "isEventProcessed cfg sheet event =
      \<lparr> processed = False, needsUpdate = False, rowIndex = - 1 \<rparr>"
    using assms
    by (cases sheet)
       (simp_all add: isEventProcessed_def ledgerRows_def searchEventId_absent notTracked_def)
next
  fix k
  assume k: "k < length (ledgerRows sheet)"
    and h: "EVENT_ID (ledgerRows sheet ! k) = getId event \<and>
            (distinct (map EVENT_ID (ledgerRows sheet)) \<or>
             (\<forall>j<k. EVENT_ID (ledgerRows sheet ! j) \<noteq> getId event))"
  from k obtain data where sheet: "sheet = Some data"
    by (cases sheet) (simp_all add: ledgerRows_def)
  have first: "\<forall>j<k. EVENT_ID (ledgerRows sheet ! j) \<noteq> getId event"
    using h k distinct_first_occurrence [of EVENT_ID "ledgerRows sheet" k "getId event"]
    by blast
  have "searchEventId (getId event) (generateFingerprint event) (ledgerRows sheet) 1 =
        (if FINGERPRINT (ledgerRows sheet ! k) = generateFingerprint event
         then \<lparr> processed = True, needsUpdate = False, rowIndex = int (1 + k) + 1 \<rparr>
         else \<lparr> processed = False, needsUpdate = True, rowIndex = int (1 + k) + 1 \<rparr>)"
    using k h first by (intro searchEventId_first) simp_all
  then show "isEventProcessed cfg sheet event =
      (if FINGERPRINT (ledgerRows sheet ! k) = generateFingerprint event
       then \<lparr> processed = True, needsUpdate = False, rowIndex = int k + 2 \<rparr>
       else \<lparr> processed = False, needsUpdate = True, rowIndex = int k + 2 \<rparr>)"
    using assms sheet by (simp add: isEventProcessed_def ledgerRows_def)
qed

lemma generateFingerprint_sampleEvent: "generateFingerprint sampleEvent = ''13a88f6a''"
  by (simp add: sampleEvent_def generateFingerprint_def fingerprintDetails_def rollingHash_def
        hashStep_def toInt32_def hexDigit_def)

theorem isEventProcessed_trichotomy_witness:
  "trackingEnabled CONFIG \<and>
   isEventProcessed CONFIG (Some [headerRow]) sampleEvent =
     \<lparr> processed = False, needsUpdate = False, rowIndex = - 1 \<rparr> \<and>
   isEventProcessed CONFIG (Some currentLedger) sampleEvent =
     \<lparr> processed = True, needsUpdate = False, rowIndex = 3 \<rparr> \<and>
   isEventProcessed CONFIG (Some staleLedger) sampleEvent =
     \<lparr> processed = False, needsUpdate = True, rowIndex = 3 \<rparr>"
proof -
  have en: "trackingEnabled CONFIG" by (simp add: CONFIG_def)
  have none: "\<forall>r \<in> set (ledgerRows (Some [headerRow])). EVENT_ID r \<noteq> getId sampleEvent"
    by (simp add: ledgerRows_def)
  have cur: "(1::nat) < length (ledgerRows (Some currentLedger))"
    "EVENT_ID (ledgerRows (Some currentLedger) ! 1) = getId sampleEvent"
    "distinct (map EVENT_ID (ledgerRows (Some currentLedger)))"
    "FINGERPRINT (ledgerRows (Some currentLedger) ! 1) = generateFingerprint sampleEvent"
    by (simp_all add: ledgerRows_def currentLedger_def sampleRow_def
          generateFingerprint_sampleEvent) (simp add: sampleEvent_def)
  have stale: "(1::nat) < length (ledgerRows (Some staleLedger))"
    "EVENT_ID (ledgerRows (Some staleLedger) ! 1) = getId sampleEvent"
    "distinct (map EVENT_ID (ledgerRows (Some staleLedger)))"
    "FINGERPRINT (ledgerRows (Some staleLedger) ! 1) \<noteq> generateFingerprint sampleEvent"
    by (simp_all add: ledgerRows_def staleLedger_def sampleRow_def
          generateFingerprint_sampleEvent) (simp add: sampleEvent_def)
  have a: "isEventProcessed CONFIG (Some [headerRow]) sampleEvent =
     \<lparr> processed = False, needsUpdate = False, rowIndex = - 1 \<rparr>"
    using isEventProcessed_trichotomy [OF en, of "Some [headerRow]" sampleEvent] none by blast
  have b: "isEventProcessed CONFIG (Some currentLedger) sampleEvent =
     \<lparr> processed = True, needsUpdate = False, rowIndex = 3 \<rparr>"
    using isEventProcessed_trichotomy [OF en, of "Some currentLedger" sampleEvent] cur by force
  have c: "isEventProcessed CONFIG (Some staleLedger) sampleEvent =
     \<lparr> processed = False, needsUpdate = True, rowIndex = 3 \<rparr>"
    using isEventProcessed_trichotomy [OF en, of "Some staleLedger" sampleEvent] stale by force
  from en a b c show ?thesis by blast
qed

subsection \<open>Retention pruning\<close>

lemma cutoffDate_local_days:
  "cutoffDate cfg Z now =
     TimeClip (UTC Z (LocalTime Z now - retentionDays cfg * msPerDay))"
proof -
  let ?t = "LocalTime Z now"
  have "MakeDate (MakeDayInMonthOf ?t (getDate Z now - retentionDays cfg)) (TimeWithinDay ?t) =
        (?t div msPerDay - retentionDays cfg) * msPerDay + ?t mod msPerDay"
    by (simp add: MakeDate_def MakeDayInMonthOf_def getDate_def Day_def TimeWithinDay_def)
  also have "\<dots> = (?t div msPerDay * msPerDay + ?t mod msPerDay) - retentionDays cfg * msPerDay"
    by (simp add: algebra_simps)
  also have "\<dots> = ?t - retentionDays cfg * msPerDay"
    by simp
  finally show ?thesis
    by (simp add: cutoffDate_def setDate_def Let_def)
qed

lemma cutoffDate_explicit:
  "cutoffDate cfg Z now =
     (if \<bar>(now + Z now True - retentionDays cfg * 86400000) -
           Z (now + Z now True - retentionDays cfg * 86400000) False\<bar> \<le> 8640000000000000
      then Some ((now + Z now True - retentionDays cfg * 86400000) -
                 Z (now + Z now True - retentionDays cfg * 86400000) False)
      else None)"
  by (simp add: cutoffDate_local_days TimeClip_def UTC_def LocalTime_def msPerDay_def)

lemma dateBefore_iff:
  "dateBefore a b = (\<exists>t c. a = Some t \<and> b = Some c \<and> t < c)"
  by (simp add: dateBefore_def split: option.splits)

lemma cleanupLoop_filter:
  "i < length data \<Longrightarrow>
   cleanupLoop P c data i (take (Suc i) data @ rest, n) =
     (take 1 data @
        filter (\<lambda>r. \<not> (EVENT_DATE r \<noteq> [] \<and> dateBefore (P (EVENT_DATE r)) c))
          (drop 1 (take (Suc i) data)) @ rest,
      n + length (filter (\<lambda>r. EVENT_DATE r \<noteq> [] \<and> dateBefore (P (EVENT_DATE r)) c)
                    (drop 1 (take (Suc i) data))))"
proof (induction i arbitrary: rest n)
  case 0
  then show ?case by (cases data) simp_all
next
  case (Suc i)
  define old :: "ledger_row \<Rightarrow> bool" where "old = (\<lambda>r. EVENT_DATE r \<noteq> [] \<and> dateBefore (P (EVENT_DATE r)) c)"
  define x where "x = data ! Suc i"
  define pre where "pre = take (Suc i) data"
  have tk: "take (Suc (Suc i)) data = pre @ [x]"
    unfolding pre_def x_def using Suc.prems by (rule take_Suc_conv_app_nth)
  have len: "length pre = Suc i"
    unfolding pre_def using Suc.prems by simp
  have dr: "drop 1 (pre @ [x]) = drop 1 pre @ [x]"
    using len by simp
  have i: "i < length data" using Suc.prems by simp
  have step: "cleanupLoop P c data (Suc i) (pre @ [x] @ rest, n) =
      (if old x
       then cleanupLoop P c data i (deleteRow (Suc i + 1) (pre @ [x] @ rest), n + 1)
       else cleanupLoop P c data i (pre @ [x] @ rest, n))"
    unfolding x_def old_def by (simp add: Let_def)
  have IH: "cleanupLoop P c data i (pre @ rest', n') =
      (take 1 data @ filter (\<lambda>r. \<not> old r) (drop 1 pre) @ rest',
       n' + length (filter old (drop 1 pre)))" for rest' n'
    unfolding pre_def old_def by (rule Suc.IH [OF i])
  have goal: "cleanupLoop P c data (Suc i) (pre @ [x] @ rest, n) =
      (take 1 data @ filter (\<lambda>r. \<not> old r) (drop 1 (pre @ [x])) @ rest,
       n + length (filter old (drop 1 (pre @ [x]))))"
  proof (cases "old x")
    case True
    have del: "deleteRow (Suc i + 1) (pre @ [x] @ rest) = pre @ rest"
      unfolding deleteRow_def using len by simp
    have "cleanupLoop P c data (Suc i) (pre @ [x] @ rest, n) =
          cleanupLoop P c data i (pre @ rest, n + 1)"
      using step True del by simp
    also have "\<dots> = (take 1 data @ filter (\<lambda>r. \<not> old r) (drop 1 pre) @ rest,
        n + 1 + length (filter old (drop 1 pre)))"
      by (rule IH)
    finally show ?thesis
      unfolding dr using True by simp
  next
    case False
    have "cleanupLoop P c data (Suc i) (pre @ [x] @ rest, n) =
          cleanupLoop P c data i (pre @ (x # rest), n)"
      using step False by simp
    also have "\<dots> = (take 1 data @ filter (\<lambda>r. \<not> old r) (drop 1 pre) @ (x # rest),
        n + length (filter old (drop 1 pre)))"
      by (rule IH)
    finally show ?thesis
      unfolding dr using False by simp
  qed
  show ?case
    unfolding tk append_assoc by (rule goal [unfolded old_def])
qed

lemma cleanupLoop_all:
  "cleanupLoop P c data (length data - 1) (data, 0) =
     (take 1 data @
        filter (\<lambda>r. \<not> (EVENT_DATE r \<noteq> [] \<and> dateBefore (P (EVENT_DATE r)) c)) (drop 1 data),
      length (filter (\<lambda>r. EVENT_DATE r \<noteq> [] \<and> dateBefore (P (EVENT_DATE r)) c) (drop 1 data)))"
proof (cases data)
  case Nil
  then show ?thesis by simp
next
  case (Cons a as)
  then have "length data - 1 < length data" by simp
  from cleanupLoop_filter [OF this, of P c "[]" 0] Cons show ?thesis by simp
qed

lemma cleanupOldRecords_Some:
  "cleanupOldRecords cfg P Z now (Some data) =
     (Some (take 1 data @
        filter (\<lambda>r. \<not> (EVENT_DATE r \<noteq> [] \<and> dateBefore (P (EVENT_DATE r)) (cutoffDate cfg Z now)))
          (drop 1 data)),
      length (filter (\<lambda>r. EVENT_DATE r \<noteq> [] \<and> dateBefore (P (EVENT_DATE r)) (cutoffDate cfg Z now))
                (drop 1 data)))"
  by (simp only: cleanupOldRecords_def option.case cleanupLoop_all prod.case)

lemma drop1_take1_append: "drop 1 (take 1 data @ ys) = (if data = [] then drop 1 ys else ys)"
  by (cases data) simp_all

lemma cleanupOldRecords_rows:
  "ledgerRows (fst (cleanupOldRecords cfg P Z now sheet)) =
     filter (\<lambda>r. \<not> (EVENT_DATE r \<noteq> [] \<and> dateBefore (P (EVENT_DATE r)) (cutoffDate cfg Z now)))
       (ledgerRows sheet)"
proof (cases sheet)
  case None
  then show ?thesis by (simp add: cleanupOldRecords_def ledgerRows_def)
next
  case (Some data)
  then show ?thesis
    by (cases data) (simp_all add: cleanupOldRecords_Some ledgerRows_def)
qed

lemma cleanupOldRecords_count:
  "snd (cleanupOldRecords cfg P Z now sheet) =
     length (filter (\<lambda>r. EVENT_DATE r \<noteq> [] \<and> dateBefore (P (EVENT_DATE r)) (cutoffDate cfg Z now))
               (ledgerRows sheet))"
proof (cases sheet)
  case None
  then show ?thesis by (simp add: cleanupOldRecords_def ledgerRows_def)
next
  case (Some data)
  then show ?thesis by (simp add: cleanupOldRecords_Some ledgerRows_def)
qed

lemma cleanupOldRecords_header:
  "map_option (take 1) (fst (cleanupOldRecords cfg P Z now sheet)) = map_option (take 1) sheet"
proof (cases sheet)
  case None
  then show ?thesis by (simp add: cleanupOldRecords_def)
next
  case (Some data)
  then show ?thesis by (cases data) (simp_all add: cleanupOldRecords_Some)
qed

lemma cleanupOldRecords_nothing_old:
  assumes "\<forall>r \<in> set (ledgerRows sheet).
             \<not> (EVENT_DATE r \<noteq> [] \<and> dateBefore (P (EVENT_DATE r)) (cutoffDate cfg Z now))"
  shows "cleanupOldRecords cfg P Z now sheet = (sheet, 0)"
proof (cases sheet)
  case None
  then show ?thesis by (simp add: cleanupOldRecords_def)
next
  case (Some data)
  let ?old = "\<lambda>r. EVENT_DATE r \<noteq> [] \<and> dateBefore (P (EVENT_DATE r)) (cutoffDate cfg Z now)"
  from assms Some have all: "\<forall>r \<in> set (drop 1 data). \<not> ?old r"
    by (simp add: ledgerRows_def)
  then have keep: "filter (\<lambda>r. \<not> ?old r) (drop 1 data) = drop 1 data"
    by (simp add: filter_id_conv)
  from all have none: "filter ?old (drop 1 data) = []"
    by (simp add: filter_empty_conv)
  have "take 1 data @ drop 1 data = data" by simp
  with Some keep none show ?thesis
    by (simp only: cleanupOldRecords_Some list.size)
qed

text \<open>
  C9.  The cutoff of \<open>cleanupOldRecords\<close> is the current time moved back by the retention
  days on the local calendar: the local clock time of \<open>now\<close>, less \<open>retentionDays\<close> times
  24 hours, read as a local time and taken back to UTC (\<open>c\<close> below; it is no date when it
  leaves the range of \<open>Date\<close>).  Where the offset of the time zone changes in between, the
  cutoff is therefore not \<open>now\<close> less \<open>retentionDays\<close> times 24 hours.  A row is old when
  its event date is not empty, is a valid date and is before the cutoff.  One run deletes
  exactly the old rows: the rows left are the rows that are not old, in their order, the
  count of deletions is the number of old rows, and the header row stays, so the backward
  loop neither skips nor revisits a row.  Every old row is gone; every other row, in
  particular every row dated at or after the cutoff, is retained.  A second run at the
  time \<open>later\<close> deletes exactly the rows left over that are old for its own cutoff; it
  changes nothing and counts zero when no row left over is old for it, which is the case
  when its cutoff is not after the cutoff of the first run, for instance when both runs
  read the same time.
\<close>

theorem cleanupOldRecords_exact:
  fixes cfg :: config and P :: "string \<Rightarrow> int option" and Z :: time_zone
    and now later :: int and sheet :: "sheet_values option"
  defines "wall \<equiv> now + Z now True - retentionDays cfg * 86400000"
    and "wall2 \<equiv> later + Z later True - retentionDays cfg * 86400000"
  defines "c \<equiv> wall - Z wall False"
    and "c2 \<equiv> wall2 - Z wall2 False"
  defines "old \<equiv> (\<lambda>r. EVENT_DATE r \<noteq> [] \<and> \<bar>c\<bar> \<le> 8640000000000000 \<and>
                        (\<exists>t. P (EVENT_DATE r) = Some t \<and> t < c))"
    and "old2 \<equiv> (\<lambda>r. EVENT_DATE r \<noteq> [] \<and> \<bar>c2\<bar> \<le> 8640000000000000 \<and>
                        (\<exists>t. P (EVENT_DATE r) = Some t \<and> t < c2))"
    and "R \<equiv> cleanupOldRecords cfg P Z now sheet"
  defines "R2 \<equiv> cleanupOldRecords cfg P Z later (fst R)"
  shows "cutoffDate cfg Z now = (if \<bar>c\<bar> \<le> 8640000000000000 then Some c else None) \<and>
         ledgerRows (fst R) = filter (\<lambda>r. \<not> old r) (ledgerRows sheet) \<and>
         snd R = length (filter old (ledgerRows sheet)) \<and>
         map_option (take 1) (fst R) = map_option (take 1) sheet \<and>
         (\<forall>r \<in> set (ledgerRows sheet). old r \<longrightarrow> r \<notin> set (ledgerRows (fst R))) \<and>
         (\<forall>r \<in> set (ledgerRows sheet). \<not> old r \<longrightarrow> r \<in> set (ledgerRows (fst R))) \<and>
         (\<forall>r \<in> set (ledgerRows sheet). \<forall>t. P (EVENT_DATE r) = Some t \<and> c \<le> t \<longrightarrow>
              r \<in> set (ledgerRows (fst R))) \<and>
         ledgerRows (fst R2) = filter (\<lambda>r. \<not> old2 r) (ledgerRows (fst R)) \<and>
         snd R2 = length (filter old2 (ledgerRows (fst R))) \<and>
         ((\<forall>r \<in> set (ledgerRows (fst R)). \<not> old2 r) \<longrightarrow> R2 = (fst R, 0)) \<and>
         ((\<bar>c2\<bar> \<le> 8640000000000000 \<longrightarrow> \<bar>c\<bar> \<le> 8640000000000000 \<and> c2 \<le> c) \<longrightarrow>
              R2 = (fst R, 0)) \<and>
         (later = now \<longrightarrow> R2 = (fst R, 0))"
proof -
  have cut: "cutoffDate cfg Z now = (if \<bar>c\<bar> \<le> 8640000000000000 then Some c else None)"
    unfolding c_def wall_def by (rule cutoffDate_explicit)
  have cut2: "cutoffDate cfg Z later = (if \<bar>c2\<bar> \<le> 8640000000000000 then Some c2 else None)"
    unfolding c2_def wall2_def by (rule cutoffDate_explicit)
  have old: "(\<lambda>r. EVENT_DATE r \<noteq> [] \<and> dateBefore (P (EVENT_DATE r)) (cutoffDate cfg Z now)) = old"
    unfolding old_def cut by (auto simp: dateBefore_iff fun_eq_iff)
  have old2: "(\<lambda>r. EVENT_DATE r \<noteq> [] \<and> dateBefore (P (EVENT_DATE r)) (cutoffDate cfg Z later)) = old2"
    unfolding old2_def cut2 by (auto simp: dateBefore_iff fun_eq_iff)
  have rows: "ledgerRows (fst R) = filter (\<lambda>r. \<not> old r) (ledgerRows sheet)"
    unfolding R_def old [symmetric] by (rule cleanupOldRecords_rows)
  have cnt: "snd R = length (filter old (ledgerRows sheet))"
    unfolding R_def old [symmetric] by (rule cleanupOldRecords_count)
  have hd: "map_option (take 1) (fst R) = map_option (take 1) sheet"
    unfolding R_def by (rule cleanupOldRecords_header)
  have gone: "\<forall>r \<in> set (ledgerRows sheet). old r \<longrightarrow> r \<notin> set (ledgerRows (fst R))"
    unfolding rows by simp
  have kept: "\<forall>r \<in> set (ledgerRows sheet). \<not> old r \<longrightarrow> r \<in> set (ledgerRows (fst R))"
    unfolding rows by simp
  have later: "\<forall>r \<in> set (ledgerRows sheet). \<forall>t. P (EVENT_DATE r) = Some t \<and> c \<le> t \<longrightarrow>
      r \<in> set (ledgerRows (fst R))"
    unfolding rows by (auto simp: old_def)
  have rows2: "ledgerRows (fst R2) = filter (\<lambda>r. \<not> old2 r) (ledgerRows (fst R))"
    unfolding R2_def old2 [symmetric] by (rule cleanupOldRecords_rows)
  have cnt2: "snd R2 = length (filter old2 (ledgerRows (fst R)))"
    unfolding R2_def old2 [symmetric] by (rule cleanupOldRecords_count)
  have noop: "R2 = (fst R, 0)" if "\<forall>r \<in> set (ledgerRows (fst R)). \<not> old2 r"
  proof -
    from that have "\<forall>r \<in> set (ledgerRows (fst R)).
        \<not> (EVENT_DATE r \<noteq> [] \<and> dateBefore (P (EVENT_DATE r)) (cutoffDate cfg Z later))"
      unfolding old2 [symmetric] .
    then show ?thesis
      unfolding R2_def by (rule cleanupOldRecords_nothing_old)
  qed
  have earlier: "R2 = (fst R, 0)"
    if "\<bar>c2\<bar> \<le> 8640000000000000 \<longrightarrow> \<bar>c\<bar> \<le> 8640000000000000 \<and> c2 \<le> c"
  proof (rule noop)
    show "\<forall>r \<in> set (ledgerRows (fst R)). \<not> old2 r"
      unfolding rows using that by (auto simp: old_def old2_def)
  qed
  have same: "R2 = (fst R, 0)" if "later = now"
  proof (rule earlier)
    from that have "c2 = c" by (simp add: c_def c2_def wall_def wall2_def)
    then show "\<bar>c2\<bar> \<le> 8640000000000000 \<longrightarrow> \<bar>c\<bar> \<le> 8640000000000000 \<and> c2 \<le> c"
      by simp
  qed
  from cut rows cnt hd gone kept later rows2 cnt2 noop earlier same show ?thesis
    by blast
qed

theorem cleanupOldRecords_exact_witness:
  "cutoffDate CONFIG utcZone sampleNow = Some 1740960000000 \<and>
   map EVENT_ID (ledgerRows (Some agedLedger)) = [''e20'', ''e21'', ''e22'', ''e23''] \<and>
   sampleParseDate (EVENT_DATE (agedLedger ! 1)) = Some 1704067200000 \<and>
   agedLedger ! 1 \<notin> set (ledgerRows (fst (cleanupOldRecords CONFIG sampleParseDate utcZone sampleNow
                                              (Some agedLedger)))) \<and>
   sampleParseDate (EVENT_DATE (agedLedger ! 2)) = Some 1748736000000 \<and>
   agedLedger ! 2 \<in> set (ledgerRows (fst (cleanupOldRecords CONFIG sampleParseDate utcZone sampleNow
                                              (Some agedLedger)))) \<and>
   map EVENT_ID (ledgerRows (fst (cleanupOldRecords CONFIG sampleParseDate utcZone sampleNow
                                    (Some agedLedger)))) = [''e21'', ''e22'', ''e23''] \<and>
   snd (cleanupOldRecords CONFIG sampleParseDate utcZone sampleNow (Some agedLedger)) = 1 \<and>
   cleanupOldRecords CONFIG sampleParseDate utcZone sampleNow
     (fst (cleanupOldRecords CONFIG sampleParseDate utcZone sampleNow (Some agedLedger))) =
     (fst (cleanupOldRecords CONFIG sampleParseDate utcZone sampleNow (Some agedLedger)), 0) \<and>
   cutoffDate CONFIG newYorkZone sampleNow = Some 1740963600000 \<and>
   map EVENT_ID (ledgerRows (fst (cleanupOldRecords CONFIG sampleParseDate newYorkZone sampleNow
                                    (Some boundaryLedger)))) = [''e32'']"
proof -
  note utc = cleanupOldRecords_exact [where cfg = CONFIG and P = sampleParseDate and Z = utcZone
      and now = sampleNow and later = sampleNow and sheet = "Some agedLedger"]
  note ny = cleanupOldRecords_exact [where cfg = CONFIG and P = sampleParseDate and Z = newYorkZone
      and now = sampleNow and later = sampleNow and sheet = "Some boundaryLedger"]
  have rows: "ledgerRows (Some agedLedger) = [agedLedger ! 1, agedLedger ! 2, agedLedger ! 3, agedLedger ! 4]"
    by (simp add: ledgerRows_def agedLedger_def)
  have ids: "map EVENT_ID (ledgerRows (Some agedLedger)) = [''e20'', ''e21'', ''e22'', ''e23'']"
    by (simp add: ledgerRows_def agedLedger_def sampleRow_def)
  have p1: "sampleParseDate (EVENT_DATE (agedLedger ! 1)) = Some 1704067200000"
    by (simp add: agedLedger_def sampleRow_def sampleParseDate_def)
  have p2: "sampleParseDate (EVENT_DATE (agedLedger ! 2)) = Some 1748736000000"
    by (simp add: agedLedger_def sampleRow_def sampleParseDate_def)
  have p3: "EVENT_DATE (agedLedger ! 3) = []"
    by (simp add: agedLedger_def sampleRow_def)
  have p4: "sampleParseDate (EVENT_DATE (agedLedger ! 4)) = None"
    by (simp add: agedLedger_def sampleRow_def sampleParseDate_def)
  have e: "map EVENT_ID [agedLedger ! 2, agedLedger ! 3, agedLedger ! 4] = [''e21'', ''e22'', ''e23'']"
    by (simp add: agedLedger_def sampleRow_def)
  have ne: "EVENT_DATE (agedLedger ! 1) \<noteq> []"
    by (simp add: agedLedger_def sampleRow_def)
  have rd: "retentionDays CONFIG = 120"
    by (simp add: CONFIG_def)
  have c: "cutoffDate CONFIG utcZone sampleNow = Some 1740960000000"
    using utc [THEN conjunct1] by (simp add: rd utcZone_def sampleNow_def)
  have left: "ledgerRows (fst (cleanupOldRecords CONFIG sampleParseDate utcZone sampleNow
      (Some agedLedger))) = [agedLedger ! 2, agedLedger ! 3, agedLedger ! 4]"
    using utc [THEN conjunct2, THEN conjunct1] unfolding rows
    by (simp add: ne p1 p2 p3 p4 rd utcZone_def sampleNow_def del: One_nat_def)
  have n: "snd (cleanupOldRecords CONFIG sampleParseDate utcZone sampleNow (Some agedLedger)) = 1"
    using utc [THEN conjunct2, THEN conjunct2, THEN conjunct1] unfolding rows
    by (simp add: ne p1 p2 p3 p4 rd utcZone_def sampleNow_def del: One_nat_def)
  have d: "agedLedger ! 1 \<notin> set [agedLedger ! 2, agedLedger ! 3, agedLedger ! 4]"
    by (simp add: agedLedger_def sampleRow_def)
  have again: "cleanupOldRecords CONFIG sampleParseDate utcZone sampleNow
     (fst (cleanupOldRecords CONFIG sampleParseDate utcZone sampleNow (Some agedLedger))) =
     (fst (cleanupOldRecords CONFIG sampleParseDate utcZone sampleNow (Some agedLedger)), 0)"
    using utc by blast
  have brows: "ledgerRows (Some boundaryLedger) = [boundaryLedger ! 1, boundaryLedger ! 2, boundaryLedger ! 3]"
    by (simp add: ledgerRows_def boundaryLedger_def)
  have q: "sampleParseDate (EVENT_DATE (boundaryLedger ! 1)) = Some 1740960000000"
    "sampleParseDate (EVENT_DATE (boundaryLedger ! 2)) = Some 1740961800000"
    "sampleParseDate (EVENT_DATE (boundaryLedger ! 3)) = Some 1740963600000"
    "EVENT_ID (boundaryLedger ! 3) = ''e32''"
    "EVENT_DATE (boundaryLedger ! 1) \<noteq> []"
    "EVENT_DATE (boundaryLedger ! 2) \<noteq> []"
    by (simp_all add: boundaryLedger_def sampleRow_def sampleParseDate_def)
  have cny: "cutoffDate CONFIG newYorkZone sampleNow = Some 1740963600000"
    using ny [THEN conjunct1] by (simp add: rd newYorkZone_def sampleNow_def)
  have nyleft: "map EVENT_ID (ledgerRows (fst (cleanupOldRecords CONFIG sampleParseDate newYorkZone
      sampleNow (Some boundaryLedger)))) = [''e32'']"
    using ny [THEN conjunct2, THEN conjunct1] unfolding brows
    by (simp add: q rd newYorkZone_def sampleNow_def del: One_nat_def)
  from c ids p1 p2 left e n d again cny nyleft show ?thesis
    by simp
qed

text \<open>
  A second run is not always without effect.  With 120 days of retention in UTC, a row
  dated 3 March 2025, 0:00 UTC, is exactly at the cutoff of a run on 1 July 2025, 0:00
  UTC, which keeps it and deletes nothing; a second run one millisecond later deletes
  it.
\<close>

theorem cleanupOldRecords_second_run_counterexample:
  "snd (cleanupOldRecords CONFIG sampleParseDate utcZone sampleNow (Some boundaryLedger)) = 0 \<and>
   map EVENT_ID (ledgerRows (fst (cleanupOldRecords CONFIG sampleParseDate utcZone sampleNow
      (Some boundaryLedger)))) = [''e30'', ''e31'', ''e32''] \<and>
   snd (cleanupOldRecords CONFIG sampleParseDate utcZone (sampleNow + 1)
          (fst (cleanupOldRecords CONFIG sampleParseDate utcZone sampleNow (Some boundaryLedger)))) = 1 \<and>
   map EVENT_ID (ledgerRows (fst (cleanupOldRecords CONFIG sampleParseDate utcZone (sampleNow + 1)
          (fst (cleanupOldRecords CONFIG sampleParseDate utcZone sampleNow (Some boundaryLedger)))))) =
     [''e31'', ''e32'']"
  by code_simp

subsection \<open>The disambiguation policy of findByEmail\<close>

lemma collectMatches_zip:
  "collectMatches e rows i =
     map (\<lambda>(i, r). toMatch i r)
       (filter (\<lambda>(i, r). trim (toLowerCase (LEADER_EMAIL r)) = e \<and> BUILD_FILE_ID r \<noteq> [])
          (zip [i ..< i + length rows] rows))"
proof (induction rows arbitrary: i)
  case Nil
  then show ?case by simp
next
  case (Cons r rows)
  have "i < Suc (i + length rows)" by simp
  then have "[i ..< Suc (i + length rows)] = i # [Suc i ..< Suc (i + length rows)]"
    by (rule upt_conv_Cons)
  then show ?case using Cons.IH [of "Suc i"] by (simp del: upt_Suc)
qed

lemma collectMatches_candidates:
  "collectMatches (trim (toLowerCase mail)) rows 1 = candidates mail rows"
  by (simp add: collectMatches_zip candidates_def del: upt_Suc)

lemma findByEmail_chooseMatch:
  assumes "mail \<noteq> []"
  shows "findByEmail sheet mail hint =
     chooseMatch (normalizeName hint) (candidates mail (ledgerRows sheet))"
proof (cases sheet)
  case None
  then show ?thesis
    using assms by (simp add: findByEmail_def ledgerRows_def candidates_def chooseMatch_def)
next
  case (Some data)
  have "collectMatches (trim (toLowerCase mail)) (drop 1 data) 1 = candidates mail (drop 1 data)"
    by (rule collectMatches_candidates)
  then show ?thesis
    using assms Some by (simp add: findByEmail_def ledgerRows_def)
qed

text \<open>
  C4 (as amended).  For a non-empty e-mail address, \<open>findByEmail\<close> collects the
  candidates: all ledger rows whose e-mail matches up to case and that have a Build
  File ID.  It returns nothing when there is no candidate and the candidate when there
  is exactly one.  With more than one candidate and a usable name hint it filters the
  candidates by the name: if the filter leaves one or more, it returns the first of
  those that the filter leaves; if it leaves none, or if there is no usable hint, it
  returns the first candidate of the full set in ledger order.  It is a total function.
\<close>

theorem findByEmail_policy:
  assumes "mail \<noteq> []"
  shows "(candidates mail (ledgerRows sheet) = [] \<longrightarrow> findByEmail sheet mail hint = None) \<and>
         (\<forall>m. candidates mail (ledgerRows sheet) = [m] \<longrightarrow>
               findByEmail sheet mail hint = Some m) \<and>
         (1 < length (candidates mail (ledgerRows sheet)) \<longrightarrow>
            findByEmail sheet mail hint =
              (case normalizeName hint of
                 None \<Rightarrow> Some (hd (candidates mail (ledgerRows sheet)))
               | Some nn \<Rightarrow>
                   if nn \<noteq> [] \<and> nameMatches nn (candidates mail (ledgerRows sheet)) \<noteq> []
                   then Some (hd (nameMatches nn (candidates mail (ledgerRows sheet))))
                   else Some (hd (candidates mail (ledgerRows sheet)))))"
proof -
  let ?c = "candidates mail (ledgerRows sheet)"
  have eq: "findByEmail sheet mail hint = chooseMatch (normalizeName hint) ?c"
    using assms by (rule findByEmail_chooseMatch)
  have a: "?c = [] \<longrightarrow> findByEmail sheet mail hint = None"
    by (simp add: eq chooseMatch_def)
  have b: "\<forall>m. ?c = [m] \<longrightarrow> findByEmail sheet mail hint = Some m"
    by (simp add: eq chooseMatch_def)
  have c: "1 < length ?c \<longrightarrow> findByEmail sheet mail hint =
              (case normalizeName hint of
                 None \<Rightarrow> Some (hd ?c)
               | Some nn \<Rightarrow>
                   if nn \<noteq> [] \<and> nameMatches nn ?c \<noteq> []
                   then Some (hd (nameMatches nn ?c))
                   else Some (hd ?c))"
  proof
    assume "1 < length ?c"
    then obtain m m' ms where c: "?c = m # m' # ms"
      by (cases ?c; cases "tl ?c") auto
    show "findByEmail sheet mail hint =
              (case normalizeName hint of
                 None \<Rightarrow> Some (hd ?c)
               | Some nn \<Rightarrow>
                   if nn \<noteq> [] \<and> nameMatches nn ?c \<noteq> []
                   then Some (hd (nameMatches nn ?c))
                   else Some (hd ?c))"
      unfolding eq c chooseMatch_def nameMatches_def
      by (simp split: option.splits list.splits)
  qed
  from a b c show ?thesis by blast
qed

theorem findByEmail_policy_witness:
  "''team@acme.com'' \<noteq> [] \<and>
   1 < length (candidates ''team@acme.com'' (ledgerRows (Some sharedInboxLedger))) \<and>
   findByEmail (Some sharedInboxLedger) ''team@acme.com'' (Some ''Bob Stone'') =
     Some (toMatch 1 (sharedInboxLedger ! 1)) \<and>
   findByEmail (Some sharedInboxLedger) ''team@acme.com'' None =
     Some (toMatch 1 (sharedInboxLedger ! 1))"
proof -
  let ?c = "candidates ''team@acme.com'' (ledgerRows (Some sharedInboxLedger))"
  have ne: "''team@acme.com'' \<noteq> []" by simp
  have many: "1 < length ?c" by code_simp
  have hint: "normalizeName (Some ''Bob Stone'') = Some ''bob stone''" by code_simp
  have nohint: "normalizeName None = None" by code_simp
  have named: "nameMatches ''bob stone'' ?c = [toMatch 1 (sharedInboxLedger ! 1)]" by code_simp
  have first: "hd ?c = toMatch 1 (sharedInboxLedger ! 1)" by code_simp
  have a: "findByEmail (Some sharedInboxLedger) ''team@acme.com'' (Some ''Bob Stone'') =
     Some (toMatch 1 (sharedInboxLedger ! 1))"
    using findByEmail_policy [OF ne, of "Some sharedInboxLedger" "Some ''Bob Stone''"]
      many hint named by simp
  have b: "findByEmail (Some sharedInboxLedger) ''team@acme.com'' None =
     Some (toMatch 1 (sharedInboxLedger ! 1))"
    using findByEmail_policy [OF ne, of "Some sharedInboxLedger" None]
      many nohint first by simp
  from ne many a b show ?thesis by blast
qed

text \<open>The claim as stated says that a name filter which leaves more than one candidate
  falls back to the first candidate of the full set.  In the ledger below three rows
  share the address; the first is Bob Stone's, the second and third are Alice Smith's.
  Asked for Alice Smith, the filter leaves two candidates and \<open>findByEmail\<close> returns the
  first of these two, sheet data index 2, not the first of the three.\<close>

theorem findByEmail_counterexample:
  "length (nameMatches ''alice smith''
             (candidates ''team@acme.com'' (ledgerRows (Some sharedInboxLedger)))) = 2 \<and>
   hd (candidates ''team@acme.com'' (ledgerRows (Some sharedInboxLedger))) =
     toMatch 1 (sharedInboxLedger ! 1) \<and>
   findByEmail (Some sharedInboxLedger) ''team@acme.com'' (Some ''Alice Smith'') =
     Some (toMatch 2 (sharedInboxLedger ! 2)) \<and>
   toMatch 2 (sharedInboxLedger ! 2) \<noteq> toMatch 1 (sharedInboxLedger ! 1)"
  by code_simp

subsection \<open>The company name\<close>

lemma splitOn_not_Nil: "splitOn p s \<noteq> []"
  by (induction s) (auto split: list.splits)

lemma hd_splitOn: "hd (splitOn p s) = takeWhile (\<lambda>c. \<not> p c) s"
proof (induction s)
  case Nil
  then show ?case by simp
next
  case (Cons c s)
  then show ?case using splitOn_not_Nil [of p s] by (cases "splitOn p s") auto
qed

lemma join_splitOn_replace:
  "join [r] (splitOn p s) = map (\<lambda>c. if p c then r else c) s"
proof (induction s)
  case Nil
  then show ?case by simp
next
  case (Cons c s)
  show ?case
  proof (cases "splitOn p s")
    case Nil
    then show ?thesis using splitOn_not_Nil [of p s] by simp
  next
    case (Cons w ws)
    then show ?thesis using Cons.IH by (cases ws) auto
  qed
qed

lemma upper_not_lower: "isUpperAZ c \<Longrightarrow> \<not> isLowerAZ c"
  by (auto simp: isUpperAZ_def isLowerAZ_def upperLetters_def lowerLetters_def)

lemma lower_not_separator:
  "isLowerAZ c \<Longrightarrow> c \<noteq> CHR ''-'' \<and> c \<noteq> CHR ''_'' \<and> c \<noteq> CHR '' ''"
  by (auto simp: isLowerAZ_def lowerLetters_def)

lemma camelCaseToSpaces_not_lower:
  "\<not> isLowerAZ b \<Longrightarrow> camelCaseToSpaces (b # cs) = b # camelCaseToSpaces cs"
  by (cases cs) simp_all

lemma camelCaseToSpaces_step:
  "camelCaseToSpaces (a # b # cs) =
     (if isLowerAZ a \<and> isUpperAZ b then a # CHR '' '' # camelCaseToSpaces (b # cs)
      else a # camelCaseToSpaces (b # cs))"
  by (simp add: camelCaseToSpaces_not_lower upper_not_lower)

lemma camelCase_words:
  "CHR '' '' \<notin> set s \<Longrightarrow>
   splitOn (\<lambda>c. c = CHR '' '')
     (map (\<lambda>c. if c = CHR ''-'' \<or> c = CHR ''_'' then CHR '' '' else c) (camelCaseToSpaces s)) =
   domainWords s"
proof (induction s rule: domainWords.induct)
  case 1
  then show ?case by simp
next
  case (2 a)
  then show ?case by auto
next
  case (3 a b cs)
  let ?repl = "\<lambda>c. if c = CHR ''-'' \<or> c = CHR ''_'' then CHR '' '' else c"
  let ?sp = "\<lambda>s. splitOn (\<lambda>c. c = CHR '' '') (map ?repl (camelCaseToSpaces s))"
  define R where "R = map ?repl (camelCaseToSpaces (b # cs))"
  have nsp: "a \<noteq> CHR '' ''" and rest: "CHR '' '' \<notin> set (b # cs)" using 3 by auto
  have sR: "?sp (b # cs) = splitOn (\<lambda>c. c = CHR '' '') R"
    by (simp add: R_def)
  show ?case
  proof (cases "a = CHR ''-'' \<or> a = CHR ''_''")
    case True
    then have nl: "\<not> isLowerAZ a" using lower_not_separator by blast
    have "map ?repl (camelCaseToSpaces (a # b # cs)) = CHR '' '' # R"
      using True nl unfolding camelCaseToSpaces_step R_def by auto
    then have "?sp (a # b # cs) = [] # ?sp (b # cs)"
      unfolding sR by simp
    moreover have "domainWords (a # b # cs) = [] # domainWords (b # cs)"
      using True by simp
    ultimately show ?thesis using 3(1) [OF True rest] by simp
  next
    case False
    note sep = False
    have ra: "?repl a = a" using sep by simp
    show ?thesis
    proof (cases "isLowerAZ a \<and> isUpperAZ b")
      case True
      have "map ?repl (camelCaseToSpaces (a # b # cs)) = a # CHR '' '' # R"
        using True ra unfolding camelCaseToSpaces_step R_def by simp
      then have "?sp (a # b # cs) = [a] # ?sp (b # cs)"
        unfolding sR using nsp by simp
      moreover have "domainWords (a # b # cs) = [a] # domainWords (b # cs)"
        using True sep by simp
      ultimately show ?thesis using 3(2) [OF sep True rest] by simp
    next
      case False
      have "map ?repl (camelCaseToSpaces (a # b # cs)) = a # R"
        using False ra unfolding camelCaseToSpaces_step R_def by auto
      then have "?sp (a # b # cs) =
              (case ?sp (b # cs) of [] \<Rightarrow> [[a]] | w # ws \<Rightarrow> (a # w) # ws)"
        unfolding sR using nsp by simp
      moreover have "domainWords (a # b # cs) =
              (case domainWords (b # cs) of [] \<Rightarrow> [[a]] | w # ws \<Rightarrow> (a # w) # ws)"
        using False sep by auto
      ultimately show ?thesis using 3(3) [OF sep False rest] by simp
    qed
  qed
qed

lemma formatDomain_words:
  assumes "CHR '' '' \<notin> set dn"
  shows "formatDomainAsCompanyName (Some dn) = companyNameOfDomain dn"
proof (cases "dn = []")
  case True
  then show ?thesis
    by (simp add: formatDomainAsCompanyName_def companyNameOfDomain_def capitalizeWord_def)
next
  case False
  let ?cp = "takeWhile (\<lambda>c. c \<noteq> CHR ''.'') dn"
  have nsp: "CHR '' '' \<notin> set ?cp" using assms by (auto dest: set_takeWhileD)
  have j: "join '' '' (splitOn (\<lambda>c. c = CHR ''-'' \<or> c = CHR ''_'') (camelCaseToSpaces ?cp)) =
      map (\<lambda>c. if c = CHR ''-'' \<or> c = CHR ''_'' then CHR '' '' else c) (camelCaseToSpaces ?cp)"
    by (rule join_splitOn_replace)
  have "splitOn (\<lambda>c. c = CHR '' '')
          (join '' '' (splitOn (\<lambda>c. c = CHR ''-'' \<or> c = CHR ''_'') (camelCaseToSpaces ?cp))) =
        domainWords ?cp"
    unfolding j using camelCase_words [OF nsp] by simp
  then show ?thesis
    using False by (simp add: formatDomainAsCompanyName_def companyNameOfDomain_def hd_splitOn)
qed

lemma extractEventData_companyName:
  assumes "extractEventData X event = Inr d"
  shows "email d \<noteq> [] \<and> companyName d = formatDomainAsCompanyName (emailDomain (email d))"
  using assms
  by (auto simp: extractEventData_def Let_def getCompanyFromEmail_def split: if_splits)

text \<open>
  C10.  For every event that \<open>extractEventData\<close> accepts, the company name is computed
  from the domain of the extracted e-mail address and from nothing else: it is
  \<open>formatDomainAsCompanyName\<close> of the text after the \<open>@\<close>.  For a domain without
  blanks (the e-mail pattern of the extraction admits letters, digits, dots, dashes and
  underscores) this is the part before the first dot, cut at dashes, underscores and
  between a lower-case and an upper-case letter, each word capitalized, the words joined
  by single blanks.  Two accepted events whose addresses have the same domain, written
  with the same letters in the same case, get the same company name.
\<close>

theorem companyName_from_email_domain:
  assumes "extractEventData X event = Inr d"
  shows "companyName d = formatDomainAsCompanyName (emailDomain (email d)) \<and>
         (\<forall>dn. emailDomain (email d) = Some dn \<and> CHR '' '' \<notin> set dn \<longrightarrow>
               companyName d = companyNameOfDomain dn) \<and>
         (\<forall>X' event' d'. extractEventData X' event' = Inr d' \<and>
               emailDomain (email d') = emailDomain (email d) \<longrightarrow>
               companyName d' = companyName d)"
proof -
  have a: "companyName d = formatDomainAsCompanyName (emailDomain (email d))"
    using extractEventData_companyName [OF assms] by simp
  have b: "\<forall>dn. emailDomain (email d) = Some dn \<and> CHR '' '' \<notin> set dn \<longrightarrow>
               companyName d = companyNameOfDomain dn"
    using a formatDomain_words by simp
  have c: "\<forall>X' event' d'. extractEventData X' event' = Inr d' \<and>
               emailDomain (email d') = emailDomain (email d) \<longrightarrow>
               companyName d' = companyName d"
  proof (intro allI impI)
    fix X' event' d'
    assume h: "extractEventData X' event' = Inr d' \<and>
               emailDomain (email d') = emailDomain (email d)"
    then have "companyName d' = formatDomainAsCompanyName (emailDomain (email d'))"
      using extractEventData_companyName [of X' event' d'] by simp
    with h a show "companyName d' = companyName d" by simp
  qed
  from a b c show ?thesis by blast
qed

theorem companyName_from_email_domain_witness:
  "extractEventData sampleTools sampleEvent = Inr sampleData \<and>
   emailDomain (email sampleData) = Some ''aprilwelch.com'' \<and>
   CHR '' '' \<notin> set ''aprilwelch.com'' \<and>
   companyName sampleData = companyNameOfDomain ''aprilwelch.com'' \<and>
   companyNameOfDomain ''aprilwelch.com'' = ''Aprilwelch'' \<and>
   extractEventData colleagueTools sampleEvent = Inr colleagueData \<and>
   emailDomain (email colleagueData) = emailDomain (email sampleData) \<and>
   companyName colleagueData = companyName sampleData"
proof -
  have ext: "extractEventData sampleTools sampleEvent = Inr sampleData"
    by code_simp
  have dn: "emailDomain (email sampleData) = Some ''aprilwelch.com''"
    by code_simp
  have nsp: "CHR '' '' \<notin> set ''aprilwelch.com''"
    by simp
  have val: "companyNameOfDomain ''aprilwelch.com'' = ''Aprilwelch''"
    by code_simp
  have ext': "extractEventData colleagueTools sampleEvent = Inr colleagueData"
    by code_simp
  have dn': "emailDomain (email colleagueData) = emailDomain (email sampleData)"
    by code_simp
  from companyName_from_email_domain [OF ext] dn nsp
  have words: "companyName sampleData = companyNameOfDomain ''aprilwelch.com''"
    by blast
  from companyName_from_email_domain [OF ext] ext' dn'
  have same: "companyName colleagueData = companyName sampleData"
    by blast
  from ext dn nsp words val ext' dn' same show ?thesis by simp
qed

text \<open>
  The same domain written in another letter case can give another company name, since
  the extraction keeps the case of the address and the name is cut at the change from a
  lower-case to an upper-case letter: the addresses \<open>aw@aprilwelch.com\<close> and
  \<open>al@aprilWelch.com\<close> are at one domain and give the names \<open>Aprilwelch\<close> and
  \<open>April Welch\<close>.
\<close>

theorem companyName_letter_case_counterexample:
  "extractEventData sampleTools sampleEvent = Inr sampleData \<and>
   extractEventData camelCaseTools sampleEvent = Inr camelCaseData \<and>
   emailDomain (email sampleData) = Some ''aprilwelch.com'' \<and>
   emailDomain (email camelCaseData) = Some ''aprilWelch.com'' \<and>
   toLowerCase ''aprilWelch.com'' = toLowerCase ''aprilwelch.com'' \<and>
   companyName sampleData = ''Aprilwelch'' \<and>
   companyName camelCaseData = ''April Welch''"
  by code_simp

subsection \<open>What the operations outside the tracker leave alone\<close>

lemma leavesLedger_refl: "leavesLedger w w"
  by (simp add: leavesLedger_def)

lemma leavesLedger_trans: "leavesLedger a b \<Longrightarrow> leavesLedger b c \<Longrightarrow> leavesLedger a c"
  by (auto simp: leavesLedger_def)

lemma andThen_leavesLedger:
  assumes "leavesLedger w (snd m)" and "\<And>a s. leavesLedger s (snd (f a s))"
  shows "leavesLedger w (snd (andThen m f))"
proof (cases m)
  case (Pair r s)
  show ?thesis
  proof (cases r)
    case (Inl e)
    with Pair assms(1) show ?thesis by (simp add: andThen_def)
  next
    case (Inr a)
    with Pair have "snd (andThen m f) = snd (f a s)" by (simp add: andThen_def)
    with Pair assms(1) assms(2) [of s a] show ?thesis
      by (auto intro: leavesLedger_trans)
  qed
qed

lemma createFolder_leavesLedger: "leavesLedger w (snd (createFolder w parent name))"
  by (simp add: createFolder_def leavesLedger_def Let_def split: option.splits)

lemma getOrCreateFolder_leavesLedger: "leavesLedger w (snd (getOrCreateFolder w parent name))"
  by (simp add: getOrCreateFolder_def createFolder_leavesLedger leavesLedger_refl
        split: option.splits)

lemma createLeaderFolderStructure_leavesLedger:
  "leavesLedger w (snd (createLeaderFolderStructure w eventData))"
proof (cases "folders w STRONG_TEAMS_FOLDER_ID")
  case None
  then show ?thesis by (simp add: createLeaderFolderStructure_def leavesLedger_refl)
next
  case (Some a)
  have "leavesLedger w (snd (andThen (getOrCreateFolder w STRONG_TEAMS_FOLDER_ID (companyName eventData))
            (\<lambda>company w1.
               andThen (getOrCreateFolder w1 company (fullName eventData))
                 (\<lambda>leader w2.
                    (Inr \<lparr> companyFolder = company, leaderFolder = leader \<rparr>, w2)))))"
    by (intro andThen_leavesLedger getOrCreateFolder_leavesLedger) (simp add: leavesLedger_refl)
  with Some show ?thesis by (simp add: createLeaderFolderStructure_def)
qed

lemma createNewBuildFile_leavesLedger:
  "leavesLedger w (snd (createNewBuildFile w name fld))"
  by (simp add: createNewBuildFile_def leavesLedger_def Let_def split: option.splits)

lemma updatePhase1Settings_leavesLedger:
  "leavesLedger w (snd (updatePhase1Settings w buildFile eventData))"
  by (simp add: updatePhase1Settings_def leavesLedger_def split: option.splits)

lemma generateResponseLink_leavesLedger:
  "leavesLedger w (snd (generateResponseLink w eventData))"
  by (simp add: generateResponseLink_def leavesLedger_def Let_def split: api_reply.splits)

lemma updateResponseLink_leavesLedger:
  "leavesLedger w (snd (updateResponseLink cfg w buildFile eventData))"
  unfolding updateResponseLink_def
  by (intro andThen_leavesLedger generateResponseLink_leavesLedger)
     (simp add: leavesLedger_def Let_def split: option.splits)

lemma processLeaderBuildFile_leavesLedger:
  "leavesLedger w (snd (processLeaderBuildFile cfg w eventData fld))"
proof (cases "findFileInFolder w fld (buildFileNameOf eventData)")
  case None
  have "leavesLedger w (snd (andThen (createNewBuildFile w (buildFileNameOf eventData) fld)
            (\<lambda>buildFile w1.
               andThen (updatePhase1Settings w1 buildFile eventData)
                 (\<lambda>_ w2.
                    andThen (updateResponseLink cfg w2 buildFile eventData)
                      (\<lambda>_ w3. (Inr buildFile, w3))))))"
    by (intro andThen_leavesLedger createNewBuildFile_leavesLedger
          updatePhase1Settings_leavesLedger updateResponseLink_leavesLedger)
       (simp add: leavesLedger_refl)
  with None show ?thesis by (simp add: processLeaderBuildFile_def)
next
  case (Some buildFile)
  have "leavesLedger w (snd (andThen (updatePhase1Settings w buildFile eventData)
            (\<lambda>_ w1. (Inr buildFile, w1))))"
    by (intro andThen_leavesLedger updatePhase1Settings_leavesLedger)
       (simp add: leavesLedger_refl)
  with Some show ?thesis by (simp add: processLeaderBuildFile_def)
qed

lemma sendSuccessEmail_leavesLedger: "leavesLedger w (snd (sendSuccessEmail cfg w))"
  by (simp add: sendSuccessEmail_def leavesLedger_refl)

lemma processPhase1Event_leavesLedger:
  "leavesLedger w (snd (processPhase1Event cfg X w event))"
proof (cases "extractEventData X event")
  case (Inl e)
  then show ?thesis by (simp add: processPhase1Event_def leavesLedger_refl)
next
  case (Inr eventData)
  have "leavesLedger w (snd (andThen (createLeaderFolderStructure w eventData)
            (\<lambda>flds w1.
               andThen (processLeaderBuildFile cfg w1 eventData (leaderFolder flds))
                 (\<lambda>buildFile w2.
                    andThen (sendSuccessEmail cfg w2)
                      (\<lambda>_ w3.
                         (Inr \<lparr> p1_eventData = eventData, p1_buildFileId = buildFile,
                                p1_leaderFolderId = leaderFolder flds \<rparr>, w3))))))"
    by (intro andThen_leavesLedger createLeaderFolderStructure_leavesLedger
          processLeaderBuildFile_leavesLedger sendSuccessEmail_leavesLedger)
       (simp add: leavesLedger_refl)
  with Inr show ?thesis by (simp add: processPhase1Event_def)
qed

lemma updatePhase2Settings_leavesLedger:
  "leavesLedger w (snd (updatePhase2Settings w buildFile eventData))"
  by (simp add: updatePhase2Settings_def leavesLedger_def Let_def split: option.splits)

lemma processPhase2Event_leavesLedger:
  "leavesLedger w (snd (processPhase2Event cfg X w event))"
proof (cases "extractEventData X event")
  case (Inl e)
  then show ?thesis by (simp add: processPhase2Event_def leavesLedger_refl)
next
  case (Inr eventData)
  show ?thesis
  proof (cases "resolveBuildFile w eventData")
    case None
    with Inr show ?thesis by (simp add: processPhase2Event_def leavesLedger_refl)
  next
    case (Some buildFile)
    have "leavesLedger w (snd (andThen (updatePhase2Settings w buildFile eventData)
                 (\<lambda>_ w1. (Inr eventData, w1))))"
      by (intro andThen_leavesLedger updatePhase2Settings_leavesLedger)
         (simp add: leavesLedger_refl)
    with Inr Some show ?thesis by (simp add: processPhase2Event_def)
  qed
qed

subsection \<open>One ledger row per event\<close>

lemma searchEventId_cases:
  "(searchEventId eid fp rows i = notTracked \<and> (\<forall>r \<in> set rows. EVENT_ID r \<noteq> eid)) \<or>
   (\<exists>k<length rows. EVENT_ID (rows ! k) = eid \<and>
      rowIndex (searchEventId eid fp rows i) = int (i + k) + 1 \<and>
      processed (searchEventId eid fp rows i) = (FINGERPRINT (rows ! k) = fp) \<and>
      needsUpdate (searchEventId eid fp rows i) = (FINGERPRINT (rows ! k) \<noteq> fp))"
proof (induction rows arbitrary: i)
  case Nil
  then show ?case by simp
next
  case (Cons r rows)
  show ?case
  proof (cases "EVENT_ID r = eid")
    case True
    then have "\<exists>k<length (r # rows). EVENT_ID ((r # rows) ! k) = eid \<and>
      rowIndex (searchEventId eid fp (r # rows) i) = int (i + k) + 1 \<and>
      processed (searchEventId eid fp (r # rows) i) = (FINGERPRINT ((r # rows) ! k) = fp) \<and>
      needsUpdate (searchEventId eid fp (r # rows) i) = (FINGERPRINT ((r # rows) ! k) \<noteq> fp)"
      by (intro exI [of _ 0]) simp
    then show ?thesis by blast
  next
    case False
    from Cons.IH [of "Suc i"] show ?thesis
    proof
      assume "searchEventId eid fp rows (Suc i) = notTracked \<and> (\<forall>r \<in> set rows. EVENT_ID r \<noteq> eid)"
      with False show ?thesis by simp
    next
      assume "\<exists>k<length rows. EVENT_ID (rows ! k) = eid \<and>
        rowIndex (searchEventId eid fp rows (Suc i)) = int (Suc i + k) + 1 \<and>
        processed (searchEventId eid fp rows (Suc i)) = (FINGERPRINT (rows ! k) = fp) \<and>
        needsUpdate (searchEventId eid fp rows (Suc i)) = (FINGERPRINT (rows ! k) \<noteq> fp)"
      then obtain k where k: "k < length rows" "EVENT_ID (rows ! k) = eid"
        "rowIndex (searchEventId eid fp rows (Suc i)) = int (Suc i + k) + 1"
        "processed (searchEventId eid fp rows (Suc i)) = (FINGERPRINT (rows ! k) = fp)"
        "needsUpdate (searchEventId eid fp rows (Suc i)) = (FINGERPRINT (rows ! k) \<noteq> fp)"
        by blast
      with False have "Suc k < length (r # rows) \<and> EVENT_ID ((r # rows) ! Suc k) = eid \<and>
        rowIndex (searchEventId eid fp (r # rows) i) = int (i + Suc k) + 1 \<and>
        processed (searchEventId eid fp (r # rows) i) = (FINGERPRINT ((r # rows) ! Suc k) = fp) \<and>
        needsUpdate (searchEventId eid fp (r # rows) i) = (FINGERPRINT ((r # rows) ! Suc k) \<noteq> fp)"
        by simp
      then show ?thesis by blast
    qed
  qed
qed

text \<open>The answer of isEventProcessed, in terms of the ledger rows.\<close>

lemma isEventProcessed_cases:
  "(isEventProcessed cfg sheet event = notTracked \<and>
      (\<not> trackingEnabled cfg \<or> (\<forall>r \<in> set (ledgerRows sheet). EVENT_ID r \<noteq> getId event))) \<or>
   (trackingEnabled cfg \<and>
    (\<exists>k<length (ledgerRows sheet). EVENT_ID (ledgerRows sheet ! k) = getId event \<and>
      rowIndex (isEventProcessed cfg sheet event) = int k + 2 \<and>
      processed (isEventProcessed cfg sheet event) =
        (FINGERPRINT (ledgerRows sheet ! k) = generateFingerprint event) \<and>
      needsUpdate (isEventProcessed cfg sheet event) =
        (FINGERPRINT (ledgerRows sheet ! k) \<noteq> generateFingerprint event)))"
proof (cases "trackingEnabled cfg")
  case False
  then show ?thesis by (simp add: isEventProcessed_def)
next
  case True
  show ?thesis
  proof (cases sheet)
    case None
    with True show ?thesis by (simp add: isEventProcessed_def ledgerRows_def)
  next
    case (Some data)
    have eq: "isEventProcessed cfg sheet event =
        searchEventId (getId event) (generateFingerprint event) (ledgerRows sheet) 1"
      using True Some by (simp add: isEventProcessed_def ledgerRows_def)
    from searchEventId_cases [of "getId event" "generateFingerprint event" "ledgerRows sheet" 1]
    show ?thesis unfolding eq using True by auto
  qed
qed

lemma markEventProcessed_disabled:
  "\<not> trackingEnabled cfg \<Longrightarrow> markEventProcessed cfg w event phase d idx = (Inr (), w)"
  by (simp add: markEventProcessed_def)

lemma markEventProcessed_sheet:
  assumes "trackingEnabled cfg"
  shows "trackingSheet (snd (markEventProcessed cfg w event phase d idx)) =
     (case trackingSheet w of
        None \<Rightarrow> None
      | Some data \<Rightarrow>
          Some (if idx > 0
                then setRowValues (nat idx)
                       (rowData event phase d (clock w (clockReads w)) (clock w (clockReads w + 1))) data
                else appendRow
                       (rowData event phase d (clock w (clockReads w)) (clock w (clockReads w + 1))) data))"
  using assms by (simp add: markEventProcessed_def Let_def split: option.splits)

lemma markEventProcessed_failed:
  "fst (markEventProcessed cfg w event phase d idx) = Inl e \<Longrightarrow>
   trackingSheet (snd (markEventProcessed cfg w event phase d idx)) = trackingSheet w"
  by (auto simp: markEventProcessed_def Let_def split: option.splits if_splits)

lemma processEvent_shape:
  "(fst (processEvent cfg X w event) \<noteq> NewlyProcessed \<and>
    trackingSheet (snd (processEvent cfg X w event)) = trackingSheet w) \<or>
   (\<exists>w1 phase d.
      leavesLedger w w1 \<and>
      \<not> processed (isEventProcessed cfg (trackingSheet w) event) \<and>
      fst (markEventProcessed cfg w1 event phase d
             (existingRow (isEventProcessed cfg (trackingSheet w) event))) = Inr () \<and>
      fst (processEvent cfg X w event) = NewlyProcessed \<and>
      snd (processEvent cfg X w event) =
        snd (markEventProcessed cfg w1 event phase d
               (existingRow (isEventProcessed cfg (trackingSheet w) event))))"
proof -
  let ?st = "isEventProcessed cfg (trackingSheet w) event"
  have mark: "\<And>w1 phase d out w'.
      leavesLedger w w1 \<Longrightarrow> \<not> processed ?st \<Longrightarrow>
      (case markEventProcessed cfg w1 event phase d (existingRow ?st) of
         (Inl e, w2) \<Rightarrow> (Failed e, w2)
       | (Inr _, w2) \<Rightarrow> (NewlyProcessed, w2)) = (out, w') \<Longrightarrow>
      (out \<noteq> NewlyProcessed \<and> trackingSheet w' = trackingSheet w) \<or>
      (\<exists>w1 phase d.
        leavesLedger w w1 \<and> \<not> processed ?st \<and>
        fst (markEventProcessed cfg w1 event phase d (existingRow ?st)) = Inr () \<and>
        out = NewlyProcessed \<and>
        w' = snd (markEventProcessed cfg w1 event phase d (existingRow ?st)))"
  proof -
    fix w1 phase d out w'
    assume ll: "leavesLedger w w1" and np: "\<not> processed ?st"
      and eq: "(case markEventProcessed cfg w1 event phase d (existingRow ?st) of
         (Inl e, w2) \<Rightarrow> (Failed e, w2)
       | (Inr _, w2) \<Rightarrow> (NewlyProcessed, w2)) = (out, w')"
    obtain r w2 where m: "markEventProcessed cfg w1 event phase d (existingRow ?st) = (r, w2)"
      by (cases "markEventProcessed cfg w1 event phase d (existingRow ?st)")
    show "(out \<noteq> NewlyProcessed \<and> trackingSheet w' = trackingSheet w) \<or>
      (\<exists>w1 phase d.
        leavesLedger w w1 \<and> \<not> processed ?st \<and>
        fst (markEventProcessed cfg w1 event phase d (existingRow ?st)) = Inr () \<and>
        out = NewlyProcessed \<and>
        w' = snd (markEventProcessed cfg w1 event phase d (existingRow ?st)))"
    proof (cases r)
      case (Inl e)
      with m eq have o: "out = Failed e" and w': "w' = w2" by simp_all
      have "trackingSheet w2 = trackingSheet w1"
        using markEventProcessed_failed [of cfg w1 event phase d "existingRow ?st" e] m Inl
        by simp
      with ll o w' show ?thesis by (simp add: leavesLedger_def)
    next
      case (Inr u)
      with m eq have "out = NewlyProcessed" and "w' = w2" by simp_all
      with m Inr ll np show ?thesis by (intro disjI2 exI [of _ w1] exI [of _ phase] exI [of _ d]) simp
    qed
  qed
  obtain out w' where pe: "processEvent cfg X w event = (out, w')"
    by (cases "processEvent cfg X w event")
  have "(out \<noteq> NewlyProcessed \<and> trackingSheet w' = trackingSheet w) \<or>
      (\<exists>w1 phase d.
        leavesLedger w w1 \<and> \<not> processed ?st \<and>
        fst (markEventProcessed cfg w1 event phase d (existingRow ?st)) = Inr () \<and>
        out = NewlyProcessed \<and>
        w' = snd (markEventProcessed cfg w1 event phase d (existingRow ?st)))"
  proof (cases "isPhase1Event cfg event")
    case True
    show ?thesis
    proof (cases "processed ?st")
      case True
      with \<open>isPhase1Event cfg event\<close> pe show ?thesis by (simp add: processEvent_def)
    next
      case False
      obtain r w1 where p: "processPhase1Event cfg X w event = (r, w1)"
        by (cases "processPhase1Event cfg X w event")
      have ll: "leavesLedger w w1"
        using processPhase1Event_leavesLedger [of w cfg X event] p by simp
      show ?thesis
      proof (cases r)
        case (Inl e)
        with True False p pe have "out = Failed e" "w' = w1" by (simp_all add: processEvent_def)
        with ll show ?thesis by (simp add: leavesLedger_def)
      next
        case (Inr result)
        with True False p pe
        have "(case markEventProcessed cfg w1 event ''Phase 1'' (phase1TrackingData result)
                      (existingRow ?st) of
                 (Inl e, w2) \<Rightarrow> (Failed e, w2)
               | (Inr _, w2) \<Rightarrow> (NewlyProcessed, w2)) = (out, w')"
          by (simp add: processEvent_def)
        from mark [OF ll False this] show ?thesis .
      qed
    qed
  next
    case False
    note n1 = False
    show ?thesis
    proof (cases "isPhase2Event cfg event")
      case False
      with n1 pe show ?thesis by (simp add: processEvent_def)
    next
      case True
      show ?thesis
      proof (cases "processed ?st")
        case True
        with n1 \<open>isPhase2Event cfg event\<close> pe show ?thesis by (simp add: processEvent_def)
      next
        case False
        obtain r w1 where p: "processPhase2Event cfg X w event = (r, w1)"
          by (cases "processPhase2Event cfg X w event")
        have ll: "leavesLedger w w1"
          using processPhase2Event_leavesLedger [of w cfg X event] p by simp
        show ?thesis
        proof (cases r)
          case (Inl e)
          with n1 True False p pe have "out = Failed e" "w' = w1"
            by (simp_all add: processEvent_def)
          with ll show ?thesis by (simp add: leavesLedger_def)
        next
          case (Inr eventData)
          with n1 True False p pe
          have "(case markEventProcessed cfg w1 event ''Phase 2'' (phase2TrackingData eventData)
                        (existingRow ?st) of
                   (Inl e, w2) \<Rightarrow> (Failed e, w2)
                 | (Inr _, w2) \<Rightarrow> (NewlyProcessed, w2)) = (out, w')"
            by (simp add: processEvent_def)
          from mark [OF ll False this] show ?thesis .
        qed
      qed
    qed
  qed
  with pe show ?thesis by simp
qed

lemma drop1_update: "drop 1 (xs[Suc k := x]) = (drop 1 xs)[k := x]"
  by (cases xs) simp_all

lemma map_update_same: "k < length xs \<Longrightarrow> f x = f (xs ! k) \<Longrightarrow> map f (xs[k := x]) = map f xs"
  by (simp add: map_update list_update_same_conv)

text \<open>The effect on the ledger of marking an event that isEventProcessed did not
  report as processed.\<close>

lemma mark_after_check:
  fixes phase :: string and d :: tracking_data
  assumes ll: "leavesLedger w w1"
    and np: "\<not> processed (isEventProcessed cfg (trackingSheet w) event)"
  defines "st \<equiv> isEventProcessed cfg (trackingSheet w) event"
  defines "w2 \<equiv> snd (markEventProcessed cfg w1 event phase d (existingRow st))"
  defines "rows \<equiv> ledgerRows (trackingSheet w)"
  defines "rows' \<equiv> ledgerRows (trackingSheet w2)"
  shows "(uniqueEventIds (trackingSheet w) \<longrightarrow> uniqueEventIds (trackingSheet w2)) \<and>
         (needsUpdate st \<longrightarrow>
            (\<exists>k r. k < length rows \<and> rowIndex st = int k + 2 \<and>
               EVENT_ID (rows ! k) = getId event \<and> rows' = rows[k := r] \<and>
               EVENT_ID r = getId event \<and> FINGERPRINT r = generateFingerprint event \<and>
               (\<exists>n\<ge>clockReads w. PROCESSED_AT r = clock w n \<and> LAST_UPDATED r = clock w (n + 1)))) \<and>
         (length rows' \<noteq> length rows \<longrightarrow>
            (\<forall>r \<in> set rows. EVENT_ID r \<noteq> getId event) \<and>
            (\<exists>r. rows' = rows @ [r] \<and> EVENT_ID r = getId event))"
proof (cases "trackingEnabled cfg")
  case False
  then have "w2 = w1" by (simp add: w2_def markEventProcessed_disabled)
  moreover have "st = notTracked" using False by (simp add: st_def isEventProcessed_def)
  ultimately show ?thesis using ll
    by (simp add: rows_def rows'_def leavesLedger_def notTracked_def)
next
  case True
  define r where "r = rowData event phase d (clock w1 (clockReads w1)) (clock w1 (clockReads w1 + 1))"
  have sh1: "trackingSheet w1 = trackingSheet w" and ck: "clock w1 = clock w"
    and cr: "clockReads w \<le> clockReads w1" using ll by (simp_all add: leavesLedger_def)
  have rid: "EVENT_ID r = getId event" and rfp: "FINGERPRINT r = generateFingerprint event"
    and rts: "PROCESSED_AT r = clock w (clockReads w1)" "LAST_UPDATED r = clock w (clockReads w1 + 1)"
    by (simp_all add: r_def rowData_def ck)
  have sh2: "trackingSheet w2 =
     (case trackingSheet w of
        None \<Rightarrow> None
      | Some data \<Rightarrow>
          Some (if existingRow st > 0 then setRowValues (nat (existingRow st)) r data
                else appendRow r data))"
    unfolding w2_def r_def using markEventProcessed_sheet [OF True] sh1 by simp
  show ?thesis
  proof (cases "trackingSheet w")
    case None
    then have "st = notTracked" using True by (simp add: st_def isEventProcessed_def)
    with None sh2 show ?thesis
      by (simp add: rows_def rows'_def notTracked_def)
  next
    case (Some data)
    have rows: "rows = drop 1 data" using Some by (simp add: rows_def ledgerRows_def)
    from isEventProcessed_cases [of cfg "trackingSheet w" event]
    show ?thesis
    proof
      assume a: "isEventProcessed cfg (trackingSheet w) event = notTracked \<and>
        (\<not> trackingEnabled cfg \<or>
         (\<forall>r \<in> set (ledgerRows (trackingSheet w)). EVENT_ID r \<noteq> getId event))"
      then have st: "st = notTracked"
        and fresh: "\<forall>x \<in> set rows. EVENT_ID x \<noteq> getId event"
        using True by (simp_all add: st_def rows_def)
      have "existingRow st = - 1" using st by (simp add: existingRow_def notTracked_def)
      then have sh': "trackingSheet w2 = Some (data @ [r])"
        using sh2 Some by (simp add: appendRow_def)
      have nu: "\<not> needsUpdate st" using st by (simp add: notTracked_def)
      show ?thesis
      proof (cases data)
        case Nil
        then have "rows' = rows" using sh' rows by (simp add: rows'_def ledgerRows_def)
        with nu sh' Nil show ?thesis
          by (simp add: uniqueEventIds_def ledgerRows_def)
      next
        case (Cons h t)
        then have r': "rows' = rows @ [r]" using sh' rows by (simp add: rows'_def ledgerRows_def)
        have "distinct (map EVENT_ID rows) \<longrightarrow> distinct (map EVENT_ID rows')"
          using r' fresh rid by auto
        with nu r' fresh rid show ?thesis
          by (simp add: uniqueEventIds_def rows_def rows'_def)
      qed
    next
      assume "trackingEnabled cfg \<and>
        (\<exists>k<length (ledgerRows (trackingSheet w)).
           EVENT_ID (ledgerRows (trackingSheet w) ! k) = getId event \<and>
           rowIndex (isEventProcessed cfg (trackingSheet w) event) = int k + 2 \<and>
           processed (isEventProcessed cfg (trackingSheet w) event) =
             (FINGERPRINT (ledgerRows (trackingSheet w) ! k) = generateFingerprint event) \<and>
           needsUpdate (isEventProcessed cfg (trackingSheet w) event) =
             (FINGERPRINT (ledgerRows (trackingSheet w) ! k) \<noteq> generateFingerprint event))"
      then obtain k where k: "k < length rows" "EVENT_ID (rows ! k) = getId event"
        "rowIndex st = int k + 2"
        "processed st = (FINGERPRINT (rows ! k) = generateFingerprint event)"
        "needsUpdate st = (FINGERPRINT (rows ! k) \<noteq> generateFingerprint event)"
        unfolding st_def rows_def by blast
      have nu: "needsUpdate st" using k np by (simp add: st_def)
      then have ex: "existingRow st = int k + 2" using k by (simp add: existingRow_def)
      have kd: "Suc k < length data" using k(1) rows by simp
      have "setRowValues (nat (existingRow st)) r data = data[Suc k := r]"
        using ex kd by (simp add: setRowValues_def nat_add_distrib)
      then have sh': "trackingSheet w2 = Some (data[Suc k := r])"
        using sh2 Some ex by simp
      have r': "rows' = rows[k := r]"
        using sh' rows drop1_update [of data k r] by (simp add: rows'_def ledgerRows_def)
      have ids: "map EVENT_ID rows' = map EVENT_ID rows"
        unfolding r' using k(1) k(2) rid by (intro map_update_same) simp_all
      have ts: "\<exists>n\<ge>clockReads w. PROCESSED_AT r = clock w n \<and> LAST_UPDATED r = clock w (n + 1)"
        using rts cr by blast
      have len: "length rows' = length rows" using r' by simp
      have B: "\<exists>k r. k < length rows \<and> rowIndex st = int k + 2 \<and>
               EVENT_ID (rows ! k) = getId event \<and> rows' = rows[k := r] \<and>
               EVENT_ID r = getId event \<and> FINGERPRINT r = generateFingerprint event \<and>
               (\<exists>n\<ge>clockReads w. PROCESSED_AT r = clock w n \<and> LAST_UPDATED r = clock w (n + 1))"
        using k(1) k(3) k(2) r' rid rfp ts by blast
      have A: "uniqueEventIds (trackingSheet w) \<longrightarrow> uniqueEventIds (trackingSheet w2)"
        using ids by (simp add: uniqueEventIds_def rows_def rows'_def)
      from A B len show ?thesis by simp
    qed
  qed
qed

lemma processEvent_ledger:
  "(uniqueEventIds (trackingSheet w) \<longrightarrow>
      uniqueEventIds (trackingSheet (snd (processEvent cfg X w event)))) \<and>
   (fst (processEvent cfg X w event) = NewlyProcessed \<and>
    needsUpdate (isEventProcessed cfg (trackingSheet w) event) \<longrightarrow>
      (\<exists>k r. k < length (ledgerRows (trackingSheet w)) \<and>
         rowIndex (isEventProcessed cfg (trackingSheet w) event) = int k + 2 \<and>
         EVENT_ID (ledgerRows (trackingSheet w) ! k) = getId event \<and>
         ledgerRows (trackingSheet (snd (processEvent cfg X w event))) =
           (ledgerRows (trackingSheet w))[k := r] \<and>
         EVENT_ID r = getId event \<and> FINGERPRINT r = generateFingerprint event \<and>
         (\<exists>n\<ge>clockReads w. PROCESSED_AT r = clock w n \<and> LAST_UPDATED r = clock w (n + 1)))) \<and>
   (length (ledgerRows (trackingSheet (snd (processEvent cfg X w event)))) \<noteq>
      length (ledgerRows (trackingSheet w)) \<longrightarrow>
      (\<forall>r \<in> set (ledgerRows (trackingSheet w)). EVENT_ID r \<noteq> getId event) \<and>
      (\<exists>r. ledgerRows (trackingSheet (snd (processEvent cfg X w event))) =
             ledgerRows (trackingSheet w) @ [r] \<and> EVENT_ID r = getId event))"
proof -
  from processEvent_shape [of cfg X w event] show ?thesis
  proof
    assume "fst (processEvent cfg X w event) \<noteq> NewlyProcessed \<and>
      trackingSheet (snd (processEvent cfg X w event)) = trackingSheet w"
    then show ?thesis by simp
  next
    assume "\<exists>w1 phase d.
      leavesLedger w w1 \<and>
      \<not> processed (isEventProcessed cfg (trackingSheet w) event) \<and>
      fst (markEventProcessed cfg w1 event phase d
             (existingRow (isEventProcessed cfg (trackingSheet w) event))) = Inr () \<and>
      fst (processEvent cfg X w event) = NewlyProcessed \<and>
      snd (processEvent cfg X w event) =
        snd (markEventProcessed cfg w1 event phase d
               (existingRow (isEventProcessed cfg (trackingSheet w) event)))"
    then obtain w1 phase d where ll: "leavesLedger w w1"
      and np: "\<not> processed (isEventProcessed cfg (trackingSheet w) event)"
      and eq: "snd (processEvent cfg X w event) =
        snd (markEventProcessed cfg w1 event phase d
               (existingRow (isEventProcessed cfg (trackingSheet w) event)))"
      by blast
    from mark_after_check [OF ll np, of phase d] show ?thesis
      unfolding eq by blast
  qed
qed

lemma sendErrorEmail_world: "snd (sendErrorEmail cfg w) = w"
  by (simp add: sendErrorEmail_def)

lemma forEachEvent_unique:
  "uniqueEventIds (trackingSheet w) \<Longrightarrow>
   uniqueEventIds (trackingSheet (fst (snd (forEachEvent cfg X events (w, c)))))"
proof (induction events arbitrary: w c)
  case Nil
  then show ?case by simp
next
  case (Cons event events)
  obtain out w1 where pe: "processEvent cfg X w event = (out, w1)"
    by (cases "processEvent cfg X w event")
  have u1: "uniqueEventIds (trackingSheet w1)"
    using processEvent_ledger [of w cfg X event] Cons.prems pe by simp
  obtain r w2 where se: "sendErrorEmail cfg w1 = (r, w2)"
    by (cases "sendErrorEmail cfg w1")
  have w2: "w2 = w1" using sendErrorEmail_world [of cfg w1] se by simp
  show ?case
  proof (cases out)
    case (Failed e)
    show ?thesis
    proof (cases r)
      case (Inl e')
      with Failed pe se w2 u1 show ?thesis by simp
    next
      case (Inr u)
      with Failed pe se w2 Cons.IH [OF u1] show ?thesis by simp
    qed
  next
    case NewlyProcessed
    with pe Cons.IH [OF u1] show ?thesis by simp
  next
    case AlreadyProcessed
    with pe Cons.IH [OF u1] show ?thesis by simp
  next
    case NotStrongTeams
    with pe Cons.IH [OF u1] show ?thesis by simp
  qed
qed

lemma onCalendarTrigger_unique:
  assumes "uniqueEventIds (trackingSheet w)"
  shows "uniqueEventIds (trackingSheet (fst (onCalendarTrigger cfg X w events)))"
proof -
  let ?c0 = "\<lparr> successCount = 0, errorCount = 0, skippedCount = 0, alreadyProcessedCount = 0 \<rparr>"
  obtain r w' c where f: "forEachEvent cfg X events (w, ?c0) = (r, w', c)"
    by (cases "forEachEvent cfg X events (w, ?c0)") auto
  have "uniqueEventIds (trackingSheet w')"
    using forEachEvent_unique [OF assms, of cfg X events ?c0] f by simp
  then show ?thesis using f by (cases r) (simp_all add: onCalendarTrigger_def)
qed

text \<open>
  C5.  Under the orchestrator, which asks \<open>isEventProcessed\<close> first and passes its row
  reference to \<open>markEventProcessed\<close> exactly when an update is needed, a ledger with at
  most one row per event id keeps this property, after every batch and after every
  single event.  When the check reports \<open>needsUpdate\<close> and the event is processed, the
  row with the reported reference, which carries the event's id, is overwritten in
  place by a row with the same id, the recomputed fingerprint and two fresh readings of
  the clock; the number of rows does not change.  The number of rows changes only by one
  row appended for the event, and only when no row carried its id.
\<close>

theorem ledger_one_row_per_event:
  assumes "uniqueEventIds (trackingSheet w)"
  shows "uniqueEventIds (trackingSheet (fst (onCalendarTrigger cfg X w events))) \<and>
   uniqueEventIds (trackingSheet (snd (processEvent cfg X w event))) \<and>
   (fst (processEvent cfg X w event) = NewlyProcessed \<and>
    needsUpdate (isEventProcessed cfg (trackingSheet w) event) \<longrightarrow>
      (\<exists>k r. k < length (ledgerRows (trackingSheet w)) \<and>
         rowIndex (isEventProcessed cfg (trackingSheet w) event) = int k + 2 \<and>
         EVENT_ID (ledgerRows (trackingSheet w) ! k) = getId event \<and>
         ledgerRows (trackingSheet (snd (processEvent cfg X w event))) =
           (ledgerRows (trackingSheet w))[k := r] \<and>
         EVENT_ID r = getId event \<and> FINGERPRINT r = generateFingerprint event \<and>
         (\<exists>n\<ge>clockReads w. PROCESSED_AT r = clock w n \<and> LAST_UPDATED r = clock w (n + 1)))) \<and>
   (length (ledgerRows (trackingSheet (snd (processEvent cfg X w event)))) \<noteq>
      length (ledgerRows (trackingSheet w)) \<longrightarrow>
      (\<forall>r \<in> set (ledgerRows (trackingSheet w)). EVENT_ID r \<noteq> getId event) \<and>
      (\<exists>r. ledgerRows (trackingSheet (snd (processEvent cfg X w event))) =
             ledgerRows (trackingSheet w) @ [r] \<and> EVENT_ID r = getId event))"
  using onCalendarTrigger_unique [OF assms, of cfg X events]
        processEvent_ledger [of w cfg X event] assms
  by blast

theorem ledger_one_row_per_event_witness:
  "uniqueEventIds (trackingSheet staleWorld) \<and>
   fst (processEvent CONFIG sampleTools staleWorld sampleEvent) = NewlyProcessed \<and>
   needsUpdate (isEventProcessed CONFIG (trackingSheet staleWorld) sampleEvent) \<and>
   length (ledgerRows (trackingSheet staleWorld)) = 2 \<and>
   uniqueEventIds (trackingSheet (snd (processEvent CONFIG sampleTools staleWorld sampleEvent))) \<and>
   length (ledgerRows (trackingSheet (snd (processEvent CONFIG sampleTools staleWorld sampleEvent)))) = 2"
proof -
  have u: "uniqueEventIds (trackingSheet staleWorld)" by code_simp
  have n: "fst (processEvent CONFIG sampleTools staleWorld sampleEvent) = NewlyProcessed"
    by code_simp
  have s: "needsUpdate (isEventProcessed CONFIG (trackingSheet staleWorld) sampleEvent)"
    by code_simp
  have l: "length (ledgerRows (trackingSheet staleWorld)) = 2" by code_simp
  note t = ledger_one_row_per_event [OF u, of CONFIG sampleTools "[sampleEvent]" sampleEvent]
  from t have u': "uniqueEventIds (trackingSheet (snd (processEvent CONFIG sampleTools staleWorld sampleEvent)))"
    by blast
  from t n s obtain k r where
    "ledgerRows (trackingSheet (snd (processEvent CONFIG sampleTools staleWorld sampleEvent))) =
       (ledgerRows (trackingSheet staleWorld))[k := r]"
    by blast
  then have "length (ledgerRows (trackingSheet (snd (processEvent CONFIG sampleTools staleWorld sampleEvent)))) = 2"
    using l by simp
  with u n s l u' show ?thesis by blast
qed

subsection \<open>A failed link generation blocks the marking\<close>

lemma andThen_Inl: "fst m = Inl e \<Longrightarrow> fst (andThen m f) = Inl e"
  by (cases m) (simp add: andThen_def)

lemma andThen_Inr: "andThen (Inr a, s) f = f a s"
  by (simp add: andThen_def)

lemma generateResponseLink_fails:
  "apiFails w \<Longrightarrow> fst (generateResponseLink w eventData) = Inl FailedToGenerateLink"
  by (auto simp: apiFails_def generateResponseLink_def Let_def split: api_reply.splits)

lemma updateResponseLink_fails:
  "apiFails w \<Longrightarrow> fst (updateResponseLink cfg w buildFile eventData) = Inl FailedToGenerateLink"
  unfolding updateResponseLink_def by (intro andThen_Inl generateResponseLink_fails)

lemma createFolder_api:
  "apiCalls (snd (createFolder w parent name)) = apiCalls w"
  by (simp add: createFolder_def Let_def split: option.splits)

lemma getOrCreateFolder_api:
  "apiCalls (snd (getOrCreateFolder w parent name)) = apiCalls w"
  by (simp add: getOrCreateFolder_def createFolder_api split: option.splits)

lemma andThen_api:
  assumes "apiCalls (snd m) = n" and "\<And>a s. apiCalls (snd (f a s)) = apiCalls s"
  shows "apiCalls (snd (andThen m f)) = n"
proof (cases m)
  case (Pair r s)
  with assms show ?thesis by (cases r) (simp_all add: andThen_def)
qed

lemma createLeaderFolderStructure_api:
  "apiCalls (snd (createLeaderFolderStructure w eventData)) = apiCalls w"
proof (cases "folders w STRONG_TEAMS_FOLDER_ID")
  case None
  then show ?thesis by (simp add: createLeaderFolderStructure_def)
next
  case (Some a)
  have "apiCalls (snd (andThen (getOrCreateFolder w STRONG_TEAMS_FOLDER_ID (companyName eventData))
            (\<lambda>company w1.
               andThen (getOrCreateFolder w1 company (fullName eventData))
                 (\<lambda>leader w2.
                    (Inr \<lparr> companyFolder = company, leaderFolder = leader \<rparr>, w2))))) = apiCalls w"
    by (intro andThen_api getOrCreateFolder_api) simp
  with Some show ?thesis by (simp add: createLeaderFolderStructure_def)
qed

lemma createNewBuildFile_api:
  "apiCalls (snd (createNewBuildFile w name fld)) = apiCalls w"
  by (simp add: createNewBuildFile_def Let_def split: option.splits)

lemma updatePhase1Settings_api:
  "apiCalls (snd (updatePhase1Settings w buildFile eventData)) = apiCalls w"
  by (simp add: updatePhase1Settings_def split: option.splits)

lemma apiFails_transfer:
  "apiReplies w' = apiReplies w \<Longrightarrow> apiCalls w' = apiCalls w \<Longrightarrow> apiFails w' = apiFails w"
  by (simp add: apiFails_def)

text \<open>
  C2.  A Phase 1 event that is not yet processed, for a leader whose folder holds no
  Build File: the file is created and filled, and the request to the assessment-link
  API fails.  Then the error of the request leaves \<open>updateResponseLink\<close>,
  \<open>processLeaderBuildFile\<close> and \<open>processPhase1Event\<close> as it is, the orchestrator counts
  the event as failed without reaching \<open>markEventProcessed\<close>, the tracking sheet is what
  it was before (no row for a new event, the old row for a known one), and
  \<open>isEventProcessed\<close> still does not report the event as processed, so that the next
  batch takes it up again.
\<close>

theorem link_failure_blocks_marking:
  assumes p1: "isPhase1Event cfg event"
    and np: "\<not> processed (isEventProcessed cfg (trackingSheet w) event)"
    and ext: "extractEventData X event = Inr eventData"
    and fld: "createLeaderFolderStructure w eventData = (Inr flds, w1)"
    and first: "findFileInFolder w1 (leaderFolder flds) (buildFileNameOf eventData) = None"
    and crt: "createNewBuildFile w1 (buildFileNameOf eventData) (leaderFolder flds) = (Inr buildFile, w2)"
    and upd: "updatePhase1Settings w2 buildFile eventData = (Inr (), w3)"
    and api: "apiFails w"
  shows "fst (updateResponseLink cfg w3 buildFile eventData) = Inl FailedToGenerateLink \<and>
         fst (processLeaderBuildFile cfg w1 eventData (leaderFolder flds)) = Inl FailedToGenerateLink \<and>
         fst (processPhase1Event cfg X w event) = Inl FailedToGenerateLink \<and>
         fst (processEvent cfg X w event) = Failed FailedToGenerateLink \<and>
         trackingSheet (snd (processEvent cfg X w event)) = trackingSheet w \<and>
         \<not> processed (isEventProcessed cfg (trackingSheet (snd (processEvent cfg X w event))) event)"
proof -
  have l1: "leavesLedger w w1"
    using createLeaderFolderStructure_leavesLedger [of w eventData] fld by simp
  have l2: "leavesLedger w1 w2"
    using createNewBuildFile_leavesLedger [of w1 "buildFileNameOf eventData" "leaderFolder flds"] crt
    by simp
  have l3: "leavesLedger w2 w3"
    using updatePhase1Settings_leavesLedger [of w2 buildFile eventData] upd by simp
  have c1: "apiCalls w1 = apiCalls w"
    using createLeaderFolderStructure_api [of w eventData] fld by simp
  have c2: "apiCalls w2 = apiCalls w1"
    using createNewBuildFile_api [of w1 "buildFileNameOf eventData" "leaderFolder flds"] crt by simp
  have c3: "apiCalls w3 = apiCalls w2"
    using updatePhase1Settings_api [of w2 buildFile eventData] upd by simp
  have r3: "apiReplies w3 = apiReplies w" using l1 l2 l3 by (simp add: leavesLedger_def)
  have "apiCalls w3 = apiCalls w" using c1 c2 c3 by simp
  with r3 have "apiFails w3 = apiFails w" by (rule apiFails_transfer)
  with api have api3: "apiFails w3" by simp
  have a: "fst (updateResponseLink cfg w3 buildFile eventData) = Inl FailedToGenerateLink"
    using api3 by (rule updateResponseLink_fails)
  have "processLeaderBuildFile cfg w1 eventData (leaderFolder flds) =
          andThen (updateResponseLink cfg w3 buildFile eventData) (\<lambda>_ w3. (Inr buildFile, w3))"
    using first crt upd by (simp add: processLeaderBuildFile_def andThen_Inr)
  then have b: "fst (processLeaderBuildFile cfg w1 eventData (leaderFolder flds)) =
      Inl FailedToGenerateLink"
    using a by (simp add: andThen_Inl)
  have "processPhase1Event cfg X w event =
      andThen (processLeaderBuildFile cfg w1 eventData (leaderFolder flds))
                 (\<lambda>buildFile w2.
                    andThen (sendSuccessEmail cfg w2)
                      (\<lambda>_ w3.
                         (Inr \<lparr> p1_eventData = eventData, p1_buildFileId = buildFile,
                                p1_leaderFolderId = leaderFolder flds \<rparr>, w3)))"
    using ext fld by (simp add: processPhase1Event_def andThen_Inr)
  then have c: "fst (processPhase1Event cfg X w event) = Inl FailedToGenerateLink"
    using b by (simp add: andThen_Inl)
  obtain wf where pf: "processPhase1Event cfg X w event = (Inl FailedToGenerateLink, wf)"
    using c by (cases "processPhase1Event cfg X w event") simp
  have pe: "processEvent cfg X w event = (Failed FailedToGenerateLink, wf)"
    using p1 np pf by (simp add: processEvent_def)
  have "leavesLedger w wf"
    using processPhase1Event_leavesLedger [of w cfg X event] pf by simp
  then have d: "trackingSheet wf = trackingSheet w" by (simp add: leavesLedger_def)
  from a b c pe d np show ?thesis by simp
qed

theorem link_failure_blocks_marking_witness:
  "isPhase1Event CONFIG sampleEvent \<and> apiFails (freshWorld True) \<and>
   findFileInFolder (snd (createLeaderFolderStructure (freshWorld True) sampleData))
     ''leader-folder-1'' (buildFileNameOf sampleData) = None \<and>
   fst (processEvent CONFIG sampleTools (freshWorld True) sampleEvent) =
     Failed FailedToGenerateLink \<and>
   trackingSheet (snd (processEvent CONFIG sampleTools (freshWorld True) sampleEvent)) =
     trackingSheet (freshWorld True)"
proof -
  let ?w = "freshWorld True"
  let ?w1 = "snd (createLeaderFolderStructure ?w sampleData)"
  let ?w2 = "snd (createNewBuildFile ?w1 (buildFileNameOf sampleData) (leaderFolder sampleFolders))"
  let ?w3 = "snd (updatePhase1Settings ?w2 ''build-file-1'' sampleData)"
  have p1: "isPhase1Event CONFIG sampleEvent" by code_simp
  have np: "\<not> processed (isEventProcessed CONFIG (trackingSheet ?w) sampleEvent)" by code_simp
  have ext: "extractEventData sampleTools sampleEvent = Inr sampleData" by code_simp
  have "fst (createLeaderFolderStructure ?w sampleData) = Inr sampleFolders" by code_simp
  then have fld: "createLeaderFolderStructure ?w sampleData = (Inr sampleFolders, ?w1)"
    by (metis prod.collapse)
  have first: "findFileInFolder ?w1 (leaderFolder sampleFolders) (buildFileNameOf sampleData) = None"
    by code_simp
  have "fst (createNewBuildFile ?w1 (buildFileNameOf sampleData) (leaderFolder sampleFolders)) =
          Inr ''build-file-1''" by code_simp
  then have crt: "createNewBuildFile ?w1 (buildFileNameOf sampleData) (leaderFolder sampleFolders) =
          (Inr ''build-file-1'', ?w2)"
    by (metis prod.collapse)
  have "fst (updatePhase1Settings ?w2 ''build-file-1'' sampleData) = Inr ()" by code_simp
  then have upd: "updatePhase1Settings ?w2 ''build-file-1'' sampleData = (Inr (), ?w3)"
    by (metis prod.collapse)
  have api: "apiFails ?w" by code_simp
  have lf: "leaderFolder sampleFolders = ''leader-folder-1''" by (simp add: sampleFolders_def)
  from link_failure_blocks_marking [OF p1 np ext fld first crt upd api]
  have "fst (processEvent CONFIG sampleTools ?w sampleEvent) = Failed FailedToGenerateLink \<and>
        trackingSheet (snd (processEvent CONFIG sampleTools ?w sampleEvent)) = trackingSheet ?w"
    by blast
  with p1 api first lf show ?thesis by simp
qed

subsection \<open>One Build File and one login code per leader\<close>

lemmas row_defs = rowDate_def rowTime_def rowName_def rowZoomLink_def phase1LinkRow_def
  phase1LoginCodeRow_def phase2LoginCodeRow_def

lemma andThen_Inr_inv:
  assumes "andThen m f = (Inr b, s')"
  shows "\<exists>a s. m = (Inr a, s) \<and> f a s = (Inr b, s')"
proof (cases m)
  case (Pair r s)
  with assms show ?thesis by (cases r) (simp_all add: andThen_def)
qed

text \<open>What updatePhase1Settings changes: four cells of the Phase 1 sheet of one file.\<close>

lemma updatePhase1Settings_effect:
  "apiCalls (snd (updatePhase1Settings w bf ed)) = apiCalls w \<and>
   folders (snd (updatePhase1Settings w bf ed)) = folders w \<and>
   (\<forall>f. storedLoginCode (snd (updatePhase1Settings w bf ed)) f = storedLoginCode w f) \<and>
   (\<forall>i n. (case files (snd (updatePhase1Settings w bf ed)) i of
               None \<Rightarrow> False | Some b \<Rightarrow> fileName b = n) =
           (case files w i of None \<Rightarrow> False | Some b \<Rightarrow> fileName b = n))"
  by (auto simp: updatePhase1Settings_def storedLoginCode_def row_defs split: option.splits)

lemma updatePhase1Settings_names:
  "filesNamed (snd (updatePhase1Settings w bf ed)) fld n = filesNamed w fld n"
proof (cases "folders w fld")
  case None
  then show ?thesis
    using updatePhase1Settings_effect [of w bf ed] by (simp add: filesNamed_def)
next
  case (Some f)
  have "filter (\<lambda>i. case files (snd (updatePhase1Settings w bf ed)) i of
                      None \<Rightarrow> False | Some b \<Rightarrow> fileName b = n) (fileIds f) =
        filter (\<lambda>i. case files w i of None \<Rightarrow> False | Some b \<Rightarrow> fileName b = n) (fileIds f)"
    using updatePhase1Settings_effect [of w bf ed] by (intro filter_cong) blast+
  then show ?thesis
    using Some updatePhase1Settings_effect [of w bf ed] by (simp add: filesNamed_def)
qed

lemma processLeaderBuildFile_existing:
  assumes "findFileInFolder w fld (buildFileNameOf ed) = Some bf"
  shows "processLeaderBuildFile cfg w ed fld =
           andThen (updatePhase1Settings w bf ed) (\<lambda>_ w1. (Inr bf, w1)) \<and>
         apiCalls (snd (processLeaderBuildFile cfg w ed fld)) = apiCalls w \<and>
         (\<forall>f. storedLoginCode (snd (processLeaderBuildFile cfg w ed fld)) f = storedLoginCode w f) \<and>
         (\<forall>n. filesNamed (snd (processLeaderBuildFile cfg w ed fld)) fld n = filesNamed w fld n)"
proof -
  have eq: "processLeaderBuildFile cfg w ed fld =
           andThen (updatePhase1Settings w bf ed) (\<lambda>_ w1. (Inr bf, w1))"
    using assms by (simp add: processLeaderBuildFile_def)
  have sn: "snd (andThen (updatePhase1Settings w bf ed) (\<lambda>_ w1. (Inr bf, w1))) =
            snd (updatePhase1Settings w bf ed)"
    by (cases "updatePhase1Settings w bf ed"; cases "fst (updatePhase1Settings w bf ed)")
       (simp_all add: andThen_def)
  show ?thesis
    unfolding eq sn using updatePhase1Settings_effect [of w bf ed] updatePhase1Settings_names
    by simp
qed

lemma processLeaderBuildFile_api_le:
  "apiCalls (snd (processLeaderBuildFile cfg w ed fld)) \<le> apiCalls w + 1"
proof (cases "findFileInFolder w fld (buildFileNameOf ed)")
  case (Some bf)
  from processLeaderBuildFile_existing [OF Some, of cfg]
  have "apiCalls (snd (processLeaderBuildFile cfg w ed fld)) = apiCalls w" by blast
  then show ?thesis by simp
next
  case None
  obtain r wa where c: "createNewBuildFile w (buildFileNameOf ed) fld = (r, wa)"
    by (cases "createNewBuildFile w (buildFileNameOf ed) fld")
  have ca: "apiCalls wa = apiCalls w"
    using createNewBuildFile_api [of w "buildFileNameOf ed" fld] c by simp
  show ?thesis
  proof (cases r)
    case (Inl e)
    with None c ca show ?thesis by (simp add: processLeaderBuildFile_def andThen_def)
  next
    case (Inr bf)
    obtain r2 wb where u: "updatePhase1Settings wa bf ed = (r2, wb)"
      by (cases "updatePhase1Settings wa bf ed")
    have cb: "apiCalls wb = apiCalls w"
      using updatePhase1Settings_api [of wa bf ed] u ca by simp
    show ?thesis
    proof (cases r2)
      case (Inl e)
      with None c Inr u cb show ?thesis by (simp add: processLeaderBuildFile_def andThen_def)
    next
      case (Inr x)
      have "apiCalls (snd (updateResponseLink cfg wb bf ed)) = apiCalls wb + 1"
        by (cases "apiReplies wb (apiCalls wb)")
           (simp_all add: updateResponseLink_def generateResponseLink_def andThen_def Let_def
              split: option.splits)
      with None c \<open>r = Inr bf\<close> u Inr cb show ?thesis
        by (cases "updateResponseLink cfg wb bf ed"; cases "fst (updateResponseLink cfg wb bf ed)")
           (simp_all add: processLeaderBuildFile_def andThen_def)
    qed
  qed
qed

lemma createNewBuildFile_Inr:
  assumes "createNewBuildFile w name fld = (Inr bf, wa)"
  shows "\<exists>t f. files w TEMPLATE_BUILD_FILE_ID = Some t \<and> folders w fld = Some f \<and>
           bf = idSupply w (idsUsed w) \<and>
           files wa = (files w)(bf := Some (t\<lparr> fileName := name \<rparr>)) \<and>
           folders wa = (folders w)(fld := Some (f\<lparr> fileIds := fileIds f @ [bf] \<rparr>)) \<and>
           apiCalls wa = apiCalls w"
  using assms by (auto simp: createNewBuildFile_def Let_def split: option.splits)

lemma updatePhase1Settings_Inr:
  assumes "updatePhase1Settings w bf ed = (Inr u, wb)"
  shows "\<exists>b sh sh'. files w bf = Some b \<and> phase1Settings b = Some sh \<and>
           files wb = (files w)(bf := Some (b\<lparr> phase1Settings := Some sh' \<rparr>)) \<and>
           folders wb = folders w \<and> apiCalls wb = apiCalls w"
  using assms by (auto simp: updatePhase1Settings_def split: option.splits)

lemma updateResponseLink_Inr:
  assumes "updateResponseLink cfg w bf ed = (Inr u, w1)"
  shows "\<exists>ss ss2 s2. files w bf = Some ss \<and>
           files w1 = (files w)(bf := Some ss2) \<and> fileName ss2 = fileName ss \<and>
           phase1Settings ss2 = Some s2 \<and> s2 phase1LoginCodeRow \<noteq> [] \<and>
           folders w1 = folders w \<and> apiCalls w1 = apiCalls w + 1"
proof -
  from andThen_Inr_inv [OF assms [unfolded updateResponseLink_def]]
  obtain result wc where g: "generateResponseLink w ed = (Inr result, wc)"
    and rest: "(case files wc bf of
            None \<Rightarrow> (Inl DriveException, wc)
          | Some ss \<Rightarrow>
              (case phase1Settings ss of
                 None \<Rightarrow> (Inl Phase1SheetNotFound, wc)
               | Some sheet \<Rightarrow>
                   let sheet1 = (if storeFullUrlInRow4 cfg
                                 then sheet(phase1LinkRow := responseLink result) else sheet);
                       sheet2 = sheet1(phase1LoginCodeRow := loginCode result);
                       ss2 = copyLoginCodeToPhase2 (ss\<lparr> phase1Settings := Some sheet2 \<rparr>)
                               (loginCode result)
                   in (Inr (), wc\<lparr> files := (files wc)(bf := Some ss2) \<rparr>))) = (Inr u, w1)"
    by blast
  from g have code: "loginCode result \<noteq> []" and wc: "files wc = files w" "folders wc = folders w"
    "apiCalls wc = apiCalls w + 1"
    by (auto simp: generateResponseLink_def Let_def split: api_reply.splits if_splits)
  from rest obtain ss sheet where ss: "files wc bf = Some ss" "phase1Settings ss = Some sheet"
    by (auto split: option.splits)
  define sheet2 where "sheet2 = (if storeFullUrlInRow4 cfg
                                 then sheet(phase1LinkRow := responseLink result) else sheet)
                                (phase1LoginCodeRow := loginCode result)"
  define ss2 where "ss2 = copyLoginCodeToPhase2 (ss\<lparr> phase1Settings := Some sheet2 \<rparr>)
                               (loginCode result)"
  have w1: "w1 = wc\<lparr> files := (files wc)(bf := Some ss2) \<rparr>"
    using rest ss by (simp add: Let_def ss2_def sheet2_def)
  have p: "fileName ss2 = fileName ss" "phase1Settings ss2 = Some sheet2"
    by (simp_all add: ss2_def copyLoginCodeToPhase2_def split: option.splits)
  have c: "sheet2 phase1LoginCodeRow \<noteq> []" using code by (simp add: sheet2_def)
  show ?thesis
    using ss wc w1 p c by auto
qed

lemma find_None_iff: "(find P xs = None) = (\<forall>x \<in> set xs. \<not> P x)"
  by (induction xs) auto

lemma find_append_None: "find P xs = None \<Longrightarrow> find P (xs @ ys) = find P ys"
  by (induction xs) (auto split: if_splits)

text \<open>The first run for a leader without Build File, when it succeeds.\<close>

lemma first_run_creates:
  assumes none: "findFileInFolder w fld (buildFileNameOf ed) = None"
    and run: "processLeaderBuildFile cfg w ed fld = (Inr bf, w1)"
    and fresh: "\<forall>f. folders w fld = Some f \<longrightarrow> idSupply w (idsUsed w) \<notin> set (fileIds f)"
  shows "apiCalls w1 = apiCalls w + 1 \<and>
         filesNamed w1 fld (buildFileNameOf ed) = [bf] \<and>
         findFileInFolder w1 fld (buildFileNameOf ed) = Some bf \<and>
         storedLoginCode w1 bf \<noteq> [] \<and>
         (\<exists>b s. files w1 bf = Some b \<and> phase1Settings b = Some s)"
proof -
  let ?name = "buildFileNameOf ed"
  have "andThen (createNewBuildFile w ?name fld)
            (\<lambda>buildFile w1.
               andThen (updatePhase1Settings w1 buildFile ed)
                 (\<lambda>_ w2.
                    andThen (updateResponseLink cfg w2 buildFile ed)
                      (\<lambda>_ w3. (Inr buildFile, w3)))) = (Inr bf, w1)"
    using none run by (simp add: processLeaderBuildFile_def)
  from andThen_Inr_inv [OF this] obtain bf0 wa where
    c: "createNewBuildFile w ?name fld = (Inr bf0, wa)"
    and r1: "andThen (updatePhase1Settings wa bf0 ed)
                 (\<lambda>_ w2.
                    andThen (updateResponseLink cfg w2 bf0 ed)
                      (\<lambda>_ w3. (Inr bf0, w3))) = (Inr bf, w1)"
    by blast
  from andThen_Inr_inv [OF r1] obtain u wb where
    up: "updatePhase1Settings wa bf0 ed = (Inr u, wb)"
    and r2: "andThen (updateResponseLink cfg wb bf0 ed) (\<lambda>_ w3. (Inr bf0, w3)) = (Inr bf, w1)"
    by blast
  from andThen_Inr_inv [OF r2] obtain u' wc where
    ur: "updateResponseLink cfg wb bf0 ed = (Inr u', wc)" and fin: "(Inr bf0, wc) = (Inr bf, w1)"
    by blast
  from fin have bf: "bf0 = bf" and wc: "wc = w1" by simp_all
  from createNewBuildFile_Inr [OF c] obtain t f where
    cf: "folders w fld = Some f" "bf = idSupply w (idsUsed w)"
      "files wa = (files w)(bf := Some (t\<lparr> fileName := ?name \<rparr>))"
      "folders wa = (folders w)(fld := Some (f\<lparr> fileIds := fileIds f @ [bf] \<rparr>))"
      "apiCalls wa = apiCalls w"
    unfolding bf by blast
  from updatePhase1Settings_Inr [OF up] obtain b sh' where
    uf: "files wa bf = Some b"
      "files wb = (files wa)(bf := Some (b\<lparr> phase1Settings := Some sh' \<rparr>))"
      "folders wb = folders wa" "apiCalls wb = apiCalls wa"
    unfolding bf by blast
  from updateResponseLink_Inr [OF ur] obtain ss ss2 s2 where
    rf: "files wb bf = Some ss" "files w1 = (files wb)(bf := Some ss2)"
      "fileName ss2 = fileName ss" "phase1Settings ss2 = Some s2" "s2 phase1LoginCodeRow \<noteq> []"
      "folders w1 = folders wb" "apiCalls w1 = apiCalls wb + 1"
    unfolding bf wc by blast
  have nm: "fileName ss2 = ?name" using cf uf rf by auto
  have fw1: "files w1 bf = Some ss2" using rf by simp
  have other: "\<And>i. i \<noteq> bf \<Longrightarrow> files w1 i = files w i" using cf uf rf by simp
  have fld1: "folders w1 fld = Some (f\<lparr> fileIds := fileIds f @ [bf] \<rparr>)" using cf uf rf by simp
  have nf: "bf \<notin> set (fileIds f)" using fresh cf by simp
  have old: "\<forall>i \<in> set (fileIds f). \<not> (case files w i of None \<Rightarrow> False | Some b \<Rightarrow> fileName b = ?name)"
    using none cf by (simp add: findFileInFolder_def find_None_iff)
  have old1: "\<forall>i \<in> set (fileIds f). \<not> (case files w1 i of None \<Rightarrow> False | Some b \<Rightarrow> fileName b = ?name)"
  proof
    fix i assume i: "i \<in> set (fileIds f)"
    then have "i \<noteq> bf" using nf by auto
    then show "\<not> (case files w1 i of None \<Rightarrow> False | Some b \<Rightarrow> fileName b = ?name)"
      using other old i by simp
  qed
  have fl: "filter (\<lambda>i. case files w1 i of None \<Rightarrow> False | Some b \<Rightarrow> fileName b = ?name) (fileIds f) = []"
    using old1 by (simp add: filter_empty_conv)
  have a: "apiCalls w1 = apiCalls w + 1" using cf uf rf by simp
  have b: "filesNamed w1 fld ?name = [bf]"
    using fld1 fl fw1 nm by (simp add: filesNamed_def)
  have fn: "find (\<lambda>i. case files w1 i of None \<Rightarrow> False | Some b \<Rightarrow> fileName b = ?name) (fileIds f) = None"
    using old1 by (simp add: find_None_iff)
  have c': "findFileInFolder w1 fld ?name = Some bf"
    using fld1 fw1 nm find_append_None [OF fn, of "[bf]"] by (simp add: findFileInFolder_def)
  have d: "storedLoginCode w1 bf \<noteq> []" using fw1 rf by (simp add: storedLoginCode_def)
  from a b c' d fw1 rf(4) show ?thesis by blast
qed

lemma second_run_updates:
  assumes none: "findFileInFolder w fld (buildFileNameOf ed) = None"
    and run: "processLeaderBuildFile cfg w ed fld = (Inr bf, w1)"
    and same: "buildFileNameOf ed2 = buildFileNameOf ed"
    and fresh: "\<forall>f. folders w fld = Some f \<longrightarrow> idSupply w (idsUsed w) \<notin> set (fileIds f)"
  shows "fst (processLeaderBuildFile cfg w1 ed2 fld) = Inr bf \<and>
         apiCalls w1 = apiCalls w + 1 \<and>
         apiCalls (snd (processLeaderBuildFile cfg w1 ed2 fld)) = apiCalls w + 1 \<and>
         filesNamed (snd (processLeaderBuildFile cfg w1 ed2 fld)) fld (buildFileNameOf ed) = [bf] \<and>
         storedLoginCode (snd (processLeaderBuildFile cfg w1 ed2 fld)) bf = storedLoginCode w1 bf \<and>
         storedLoginCode w1 bf \<noteq> []"
proof -
  from first_run_creates [OF none run fresh] obtain b s where
    f: "apiCalls w1 = apiCalls w + 1" "filesNamed w1 fld (buildFileNameOf ed) = [bf]"
       "findFileInFolder w1 fld (buildFileNameOf ed) = Some bf" "storedLoginCode w1 bf \<noteq> []"
       "files w1 bf = Some b" "phase1Settings b = Some s"
    by blast
  have ex: "findFileInFolder w1 fld (buildFileNameOf ed2) = Some bf" using f same by simp
  from processLeaderBuildFile_existing [OF ex, of cfg]
  have e: "processLeaderBuildFile cfg w1 ed2 fld =
             andThen (updatePhase1Settings w1 bf ed2) (\<lambda>_ w1. (Inr bf, w1))"
    and a: "apiCalls (snd (processLeaderBuildFile cfg w1 ed2 fld)) = apiCalls w1"
    and l: "\<forall>f. storedLoginCode (snd (processLeaderBuildFile cfg w1 ed2 fld)) f = storedLoginCode w1 f"
    and n: "\<forall>n. filesNamed (snd (processLeaderBuildFile cfg w1 ed2 fld)) fld n = filesNamed w1 fld n"
    by blast+
  have "fst (updatePhase1Settings w1 bf ed2) = Inr ()"
    using f by (simp add: updatePhase1Settings_def)
  then have ok: "fst (processLeaderBuildFile cfg w1 ed2 fld) = Inr bf"
    unfolding e by (cases "updatePhase1Settings w1 bf ed2") (simp add: andThen_def)
  from ok f a l n show ?thesis by simp
qed

lemma updateResponseLink_names:
  "folders (snd (updateResponseLink cfg w bf ed)) = folders w \<and>
   (\<forall>i n. (case files (snd (updateResponseLink cfg w bf ed)) i of
               None \<Rightarrow> False | Some b \<Rightarrow> fileName b = n) =
           (case files w i of None \<Rightarrow> False | Some b \<Rightarrow> fileName b = n))"
  by (cases "apiReplies w (apiCalls w)")
     (auto simp: updateResponseLink_def generateResponseLink_def andThen_def Let_def
        copyLoginCodeToPhase2_def split: option.splits)

lemma findFileInFolder_cong:
  assumes "folders w' = folders w"
    and "\<forall>i n. (case files w' i of None \<Rightarrow> False | Some b \<Rightarrow> fileName b = n) =
               (case files w i of None \<Rightarrow> False | Some b \<Rightarrow> fileName b = n)"
  shows "findFileInFolder w' fld name = findFileInFolder w fld name"
proof (cases "folders w fld")
  case None
  with assms show ?thesis by (simp add: findFileInFolder_def)
next
  case (Some f)
  have "find (\<lambda>i. case files w' i of None \<Rightarrow> False | Some b \<Rightarrow> fileName b = name) (fileIds f) =
        find (\<lambda>i. case files w i of None \<Rightarrow> False | Some b \<Rightarrow> fileName b = name) (fileIds f)"
    using assms(2) by (intro find_cong) auto
  with Some assms(1) show ?thesis by (simp add: findFileInFolder_def)
qed

lemma createNewBuildFile_found:
  assumes none: "findFileInFolder w fld name = None"
    and c: "createNewBuildFile w name fld = (Inr bf, wa)"
    and fresh: "\<forall>f. folders w fld = Some f \<longrightarrow> idSupply w (idsUsed w) \<notin> set (fileIds f)"
  shows "findFileInFolder wa fld name = Some bf"
proof -
  from createNewBuildFile_Inr [OF c] obtain t f where
    cf: "folders w fld = Some f" "bf = idSupply w (idsUsed w)"
      "files wa = (files w)(bf := Some (t\<lparr> fileName := name \<rparr>))"
      "folders wa = (folders w)(fld := Some (f\<lparr> fileIds := fileIds f @ [bf] \<rparr>))"
    by blast
  have nf: "bf \<notin> set (fileIds f)" using fresh cf by simp
  have old: "\<forall>i \<in> set (fileIds f). \<not> (case files w i of None \<Rightarrow> False | Some b \<Rightarrow> fileName b = name)"
    using none cf by (simp add: findFileInFolder_def find_None_iff)
  have "\<forall>i \<in> set (fileIds f). \<not> (case files wa i of None \<Rightarrow> False | Some b \<Rightarrow> fileName b = name)"
  proof
    fix i assume i: "i \<in> set (fileIds f)"
    then have "i \<noteq> bf" using nf by auto
    then show "\<not> (case files wa i of None \<Rightarrow> False | Some b \<Rightarrow> fileName b = name)"
      using cf old i by simp
  qed
  then have fn: "find (\<lambda>i. case files wa i of None \<Rightarrow> False | Some b \<Rightarrow> fileName b = name)
                   (fileIds f) = None"
    by (simp add: find_None_iff)
  show ?thesis
    using cf find_append_None [OF fn, of "[bf]"] by (simp add: findFileInFolder_def)
qed

text \<open>A first run that made a request to the API has left the file in the folder,
  whether it ended with an error or not.\<close>

lemma first_run_call_leaves_file:
  assumes none: "findFileInFolder w fld (buildFileNameOf ed) = None"
    and fresh: "\<forall>f. folders w fld = Some f \<longrightarrow> idSupply w (idsUsed w) \<notin> set (fileIds f)"
  shows "apiCalls (snd (processLeaderBuildFile cfg w ed fld)) = apiCalls w \<or>
         (\<exists>bf. findFileInFolder (snd (processLeaderBuildFile cfg w ed fld)) fld
                  (buildFileNameOf ed) = Some bf)"
proof -
  let ?name = "buildFileNameOf ed"
  obtain r wa where c: "createNewBuildFile w ?name fld = (r, wa)"
    by (cases "createNewBuildFile w ?name fld")
  have ca: "apiCalls wa = apiCalls w"
    using createNewBuildFile_api [of w ?name fld] c by simp
  show ?thesis
  proof (cases r)
    case (Inl e)
    with none c ca show ?thesis by (simp add: processLeaderBuildFile_def andThen_def)
  next
    case (Inr bf)
    have fa: "findFileInFolder wa fld ?name = Some bf"
      using createNewBuildFile_found [OF none _ fresh] c Inr by simp
    obtain r2 wb where u: "updatePhase1Settings wa bf ed = (r2, wb)"
      by (cases "updatePhase1Settings wa bf ed")
    have fb: "findFileInFolder wb fld ?name = Some bf"
      using findFileInFolder_cong [of wb wa fld ?name] updatePhase1Settings_effect [of wa bf ed]
        u fa by simp
    show ?thesis
    proof (cases r2)
      case (Inl e)
      with none c Inr u fb show ?thesis by (simp add: processLeaderBuildFile_def andThen_def)
    next
      case (Inr x)
      obtain r3 wc where l: "updateResponseLink cfg wb bf ed = (r3, wc)"
        by (cases "updateResponseLink cfg wb bf ed")
      have fc: "findFileInFolder wc fld ?name = Some bf"
        using findFileInFolder_cong [of wc wb fld ?name] updateResponseLink_names [of cfg wb bf ed]
          l fb by simp
      have "snd (processLeaderBuildFile cfg w ed fld) = wc"
        using none c \<open>r = Inr bf\<close> u Inr l
        by (cases r3) (simp_all add: processLeaderBuildFile_def andThen_def)
      with fc show ?thesis by simp
    qed
  qed
qed

lemma two_runs_api_le:
  assumes none: "findFileInFolder w fld (buildFileNameOf ed) = None"
    and same: "buildFileNameOf ed2 = buildFileNameOf ed"
    and fresh: "\<forall>f. folders w fld = Some f \<longrightarrow> idSupply w (idsUsed w) \<notin> set (fileIds f)"
  shows "apiCalls (snd (processLeaderBuildFile cfg
           (snd (processLeaderBuildFile cfg w ed fld)) ed2 fld)) \<le> apiCalls w + 1"
proof -
  let ?w1 = "snd (processLeaderBuildFile cfg w ed fld)"
  from first_run_call_leaves_file [OF none fresh, of cfg] show ?thesis
  proof
    assume "apiCalls ?w1 = apiCalls w"
    then show ?thesis using processLeaderBuildFile_api_le [of cfg ?w1 ed2 fld] by simp
  next
    assume "\<exists>bf. findFileInFolder ?w1 fld (buildFileNameOf ed) = Some bf"
    then obtain bf where "findFileInFolder ?w1 fld (buildFileNameOf ed2) = Some bf"
      using same by auto
    from processLeaderBuildFile_existing [OF this, of cfg]
    have "apiCalls (snd (processLeaderBuildFile cfg ?w1 ed2 fld)) = apiCalls ?w1" by blast
    then show ?thesis using processLeaderBuildFile_api_le [of cfg w ed fld] by simp
  qed
qed

text \<open>
  C6.  When the leader folder already holds a Build File of the leader's name,
  \<open>processLeaderBuildFile\<close> does nothing but \<open>updatePhase1Settings\<close> on that file: no
  request goes to the assessment-link API, the stored login code of every file stays,
  and no file is added.  No run makes more than one request.  Hence two runs in a row
  for the same leader, the first of which created the file: the second returns the same
  file, the API was called once in all, the folder holds exactly one file of that name,
  and its login code is the one, not empty, that the first run stored.  Whether the
  first run succeeds or not, the two runs together make at most one request.  (Drive
  gives the new file an identifier that the folder does not list yet.)
\<close>

theorem one_build_file_one_login_code:
  "(findFileInFolder w fld (buildFileNameOf ed) = Some bf \<longrightarrow>
      processLeaderBuildFile cfg w ed fld =
        andThen (updatePhase1Settings w bf ed) (\<lambda>_ w1. (Inr bf, w1)) \<and>
      apiCalls (snd (processLeaderBuildFile cfg w ed fld)) = apiCalls w \<and>
      (\<forall>f. storedLoginCode (snd (processLeaderBuildFile cfg w ed fld)) f = storedLoginCode w f) \<and>
      (\<forall>n. filesNamed (snd (processLeaderBuildFile cfg w ed fld)) fld n = filesNamed w fld n)) \<and>
   apiCalls (snd (processLeaderBuildFile cfg w ed fld)) \<le> apiCalls w + 1 \<and>
   (findFileInFolder w fld (buildFileNameOf ed) = None \<and>
    processLeaderBuildFile cfg w ed fld = (Inr bf, w1) \<and>
    buildFileNameOf ed2 = buildFileNameOf ed \<and>
    (\<forall>f. folders w fld = Some f \<longrightarrow> idSupply w (idsUsed w) \<notin> set (fileIds f)) \<longrightarrow>
      fst (processLeaderBuildFile cfg w1 ed2 fld) = Inr bf \<and>
      apiCalls w1 = apiCalls w + 1 \<and>
      apiCalls (snd (processLeaderBuildFile cfg w1 ed2 fld)) = apiCalls w + 1 \<and>
      filesNamed (snd (processLeaderBuildFile cfg w1 ed2 fld)) fld (buildFileNameOf ed) = [bf] \<and>
      storedLoginCode (snd (processLeaderBuildFile cfg w1 ed2 fld)) bf = storedLoginCode w1 bf \<and>
      storedLoginCode w1 bf \<noteq> []) \<and>
   (findFileInFolder w fld (buildFileNameOf ed) = None \<and>
    buildFileNameOf ed2 = buildFileNameOf ed \<and>
    (\<forall>f. folders w fld = Some f \<longrightarrow> idSupply w (idsUsed w) \<notin> set (fileIds f)) \<longrightarrow>
      apiCalls (snd (processLeaderBuildFile cfg
                       (snd (processLeaderBuildFile cfg w ed fld)) ed2 fld)) \<le> apiCalls w + 1)"
  using processLeaderBuildFile_existing [of w fld ed bf cfg]
        processLeaderBuildFile_api_le [of cfg w ed fld]
        second_run_updates [of w fld ed cfg bf w1 ed2]
        two_runs_api_le [of w fld ed ed2 cfg]
  by blast

theorem one_build_file_one_login_code_witness:
  "findFileInFolder leaderWorld ''leader-folder-1'' (buildFileNameOf sampleData) = None \<and>
   fst (processLeaderBuildFile CONFIG leaderWorld sampleData ''leader-folder-1'') =
     Inr ''build-file-1'' \<and>
   buildFileNameOf rescheduledData = buildFileNameOf sampleData \<and>
   fst (processLeaderBuildFile CONFIG
          (snd (processLeaderBuildFile CONFIG leaderWorld sampleData ''leader-folder-1''))
          rescheduledData ''leader-folder-1'') = Inr ''build-file-1'' \<and>
   apiCalls (snd (processLeaderBuildFile CONFIG
          (snd (processLeaderBuildFile CONFIG leaderWorld sampleData ''leader-folder-1''))
          rescheduledData ''leader-folder-1'')) = 1 \<and>
   filesNamed (snd (processLeaderBuildFile CONFIG
          (snd (processLeaderBuildFile CONFIG leaderWorld sampleData ''leader-folder-1''))
          rescheduledData ''leader-folder-1'')) ''leader-folder-1'' (buildFileNameOf sampleData) =
     [''build-file-1'']"
proof -
  let ?w1 = "snd (processLeaderBuildFile CONFIG leaderWorld sampleData ''leader-folder-1'')"
  have none: "findFileInFolder leaderWorld ''leader-folder-1'' (buildFileNameOf sampleData) = None"
    by code_simp
  have r1: "fst (processLeaderBuildFile CONFIG leaderWorld sampleData ''leader-folder-1'') =
     Inr ''build-file-1''"
    by code_simp
  then have run: "processLeaderBuildFile CONFIG leaderWorld sampleData ''leader-folder-1'' =
     (Inr ''build-file-1'', ?w1)"
    by (metis prod.collapse)
  have same: "buildFileNameOf rescheduledData = buildFileNameOf sampleData"
    by code_simp
  have fl: "folders leaderWorld ''leader-folder-1'' =
      Some \<lparr> folderName = ''April Welch'', subfolderIds = [], fileIds = [] \<rparr>"
    by code_simp
  then have fresh: "\<forall>f. folders leaderWorld ''leader-folder-1'' = Some f \<longrightarrow>
      idSupply leaderWorld (idsUsed leaderWorld) \<notin> set (fileIds f)"
    by auto
  have c0: "apiCalls leaderWorld = 0" by code_simp
  from one_build_file_one_login_code [of leaderWorld "''leader-folder-1''" sampleData
        "''build-file-1''" CONFIG ?w1 rescheduledData] none run same fresh
  have "fst (processLeaderBuildFile CONFIG ?w1 rescheduledData ''leader-folder-1'') =
          Inr ''build-file-1'' \<and>
        apiCalls (snd (processLeaderBuildFile CONFIG ?w1 rescheduledData ''leader-folder-1'')) =
          apiCalls leaderWorld + 1 \<and>
        filesNamed (snd (processLeaderBuildFile CONFIG ?w1 rescheduledData ''leader-folder-1''))
          ''leader-folder-1'' (buildFileNameOf sampleData) = [''build-file-1'']"
    by blast
  with none r1 same c0 show ?thesis by simp
qed

subsection \<open>The two-tier lookup of Phase 2\<close>

lemma lookupByEmail_Some:
  "(lookupByEmail w ed = Some bf) =
   (\<exists>m. findByEmail (trackingSheet w) (email ed) (Some (fullName ed)) = Some m \<and>
        m_buildFileId m = bf \<and> bf \<noteq> [] \<and> files w bf \<noteq> None)"
  by (auto simp: lookupByEmail_def getBuildFileById_def split: option.splits if_splits)

lemma findBuildFileByFolderSearch_Some:
  "(findBuildFileByFolderSearch w ed = Some bf) =
   (folders w STRONG_TEAMS_FOLDER_ID \<noteq> None \<and>
    (\<exists>company leader.
       findFolderByName w STRONG_TEAMS_FOLDER_ID (companyName ed) = Some company \<and>
       findFolderByName w company (fullName ed) = Some leader \<and>
       findFileInFolder w leader (fullName ed @ '' - Strong Teams Build File'') = Some bf))"
  by (auto simp: findBuildFileByFolderSearch_def buildFileNameOf_def split: option.splits)

lemma updatePhase2Settings_error:
  "fst (updatePhase2Settings w bf ed) = Inl e \<Longrightarrow> e = FailedToUpdatePhase2Settings"
  by (auto simp: updatePhase2Settings_def Let_def split: option.splits)

lemma processPhase2Event_resolved:
  assumes "extractEventData X event = Inr ed" and "resolveBuildFile w ed = Some bf"
  shows "processPhase2Event cfg X w event =
           andThen (updatePhase2Settings w bf ed) (\<lambda>_ w1. (Inr ed, w1))"
  using assms by (simp add: processPhase2Event_def)

lemma processPhase2Event_not_found:
  assumes "extractEventData X event = Inr ed"
  shows "(\<exists>n e. fst (processPhase2Event cfg X w event) = Inl (BuildFileNotFound n e)) =
         (resolveBuildFile w ed = None)"
proof (cases "resolveBuildFile w ed")
  case None
  with assms show ?thesis by (simp add: processPhase2Event_def)
next
  case (Some bf)
  have "\<not> (\<exists>n e. fst (processPhase2Event cfg X w event) = Inl (BuildFileNotFound n e))"
  proof
    assume "\<exists>n e. fst (processPhase2Event cfg X w event) = Inl (BuildFileNotFound n e)"
    then obtain n e where
      h: "fst (andThen (updatePhase2Settings w bf ed) (\<lambda>_ w1. (Inr ed, w1))) =
            Inl (BuildFileNotFound n e)"
      using processPhase2Event_resolved [OF assms Some, of cfg] by auto
    obtain r s where u: "updatePhase2Settings w bf ed = (r, s)"
      by (cases "updatePhase2Settings w bf ed")
    show False
    proof (cases r)
      case (Inl e')
      with h u have "e' = BuildFileNotFound n e" by (simp add: andThen_def)
      moreover have "e' = FailedToUpdatePhase2Settings"
        using updatePhase2Settings_error [of w bf ed e'] u Inl by simp
      ultimately show False by simp
    next
      case (Inr x)
      with h u show False by (simp add: andThen_def)
    qed
  qed
  with Some show ?thesis by simp
qed

lemma resolveBuildFile_None:
  "(resolveBuildFile w ed = None) =
   (lookupByEmail w ed = None \<and> findBuildFileByFolderSearch w ed = None)"
  by (simp add: resolveBuildFile_def split: option.splits)

text \<open>
  C7.  For a Phase 2 event whose lead data are extracted, \<open>processPhase2Event\<close> first
  asks \<open>findByEmail\<close> with the e-mail and the full name and fetches the file of the stored
  Build File ID; this gives a file exactly when the tracker has a match and the file of
  its id still exists, and that file is then used whatever the folders hold.  When the
  first tier gives nothing, the result is that of the folder search: company folder,
  leader folder, file named \<open><fullName> - Strong Teams Build File\<close>.  The error that the
  Build File was not found (Phase 1 may not have been completed) is raised exactly when
  both tiers give nothing, and then nothing is changed.  When either tier gives a file,
  the same update, \<open>updatePhase2Settings\<close> with the extracted data, is applied to it.
\<close>

theorem phase2_two_tier_lookup:
  assumes "extractEventData X event = Inr ed"
  shows "(\<forall>bf. (lookupByEmail w ed = Some bf) =
              (\<exists>m. findByEmail (trackingSheet w) (email ed) (Some (fullName ed)) = Some m \<and>
                   m_buildFileId m = bf \<and> bf \<noteq> [] \<and> files w bf \<noteq> None)) \<and>
         (\<forall>bf. lookupByEmail w ed = Some bf \<longrightarrow> resolveBuildFile w ed = Some bf) \<and>
         (lookupByEmail w ed = None \<longrightarrow>
            resolveBuildFile w ed = findBuildFileByFolderSearch w ed) \<and>
         (\<forall>bf. (findBuildFileByFolderSearch w ed = Some bf) =
              (folders w STRONG_TEAMS_FOLDER_ID \<noteq> None \<and>
               (\<exists>company leader.
                  findFolderByName w STRONG_TEAMS_FOLDER_ID (companyName ed) = Some company \<and>
                  findFolderByName w company (fullName ed) = Some leader \<and>
                  findFileInFolder w leader (fullName ed @ '' - Strong Teams Build File'') =
                    Some bf))) \<and>
         ((\<exists>n e. fst (processPhase2Event cfg X w event) = Inl (BuildFileNotFound n e)) =
            (lookupByEmail w ed = None \<and> findBuildFileByFolderSearch w ed = None)) \<and>
         (resolveBuildFile w ed = None \<longrightarrow>
            processPhase2Event cfg X w event =
              (Inl (BuildFileNotFound (fullName ed) (email ed)), w)) \<and>
         (\<forall>bf. resolveBuildFile w ed = Some bf \<longrightarrow>
            processPhase2Event cfg X w event =
              andThen (updatePhase2Settings w bf ed) (\<lambda>_ w1. (Inr ed, w1)))"
proof -
  have a: "\<forall>bf. lookupByEmail w ed = Some bf \<longrightarrow> resolveBuildFile w ed = Some bf"
    by (simp add: resolveBuildFile_def)
  have b: "lookupByEmail w ed = None \<longrightarrow>
            resolveBuildFile w ed = findBuildFileByFolderSearch w ed"
    by (simp add: resolveBuildFile_def)
  have c: "(\<exists>n e. fst (processPhase2Event cfg X w event) = Inl (BuildFileNotFound n e)) =
            (lookupByEmail w ed = None \<and> findBuildFileByFolderSearch w ed = None)"
    using processPhase2Event_not_found [OF assms, of cfg w] resolveBuildFile_None [of w ed]
    by simp
  have d: "resolveBuildFile w ed = None \<longrightarrow>
            processPhase2Event cfg X w event =
              (Inl (BuildFileNotFound (fullName ed) (email ed)), w)"
    using assms by (simp add: processPhase2Event_def)
  have e: "\<forall>bf. resolveBuildFile w ed = Some bf \<longrightarrow>
            processPhase2Event cfg X w event =
              andThen (updatePhase2Settings w bf ed) (\<lambda>_ w1. (Inr ed, w1))"
    using processPhase2Event_resolved [OF assms] by blast
  from a b c d e lookupByEmail_Some findBuildFileByFolderSearch_Some show ?thesis
    by blast
qed

theorem phase2_two_tier_lookup_witness:
  "extractEventData sampleTools samplePhase2Event = Inr samplePhase2Data \<and>
   lookupByEmail phase1DoneWorld samplePhase2Data = Some ''build-file-1'' \<and>
   processPhase2Event CONFIG sampleTools phase1DoneWorld samplePhase2Event =
     andThen (updatePhase2Settings phase1DoneWorld ''build-file-1'' samplePhase2Data)
       (\<lambda>_ w1. (Inr samplePhase2Data, w1)) \<and>
   lookupByEmail clearedWorld samplePhase2Data = None \<and>
   findBuildFileByFolderSearch clearedWorld samplePhase2Data = Some ''build-file-1'' \<and>
   processPhase2Event CONFIG sampleTools clearedWorld samplePhase2Event =
     andThen (updatePhase2Settings clearedWorld ''build-file-1'' samplePhase2Data)
       (\<lambda>_ w1. (Inr samplePhase2Data, w1)) \<and>
   lookupByEmail (freshWorld False) samplePhase2Data = None \<and>
   findBuildFileByFolderSearch (freshWorld False) samplePhase2Data = None \<and>
   processPhase2Event CONFIG sampleTools (freshWorld False) samplePhase2Event =
     (Inl (BuildFileNotFound ''April Welch'' ''aw@aprilwelch.com''), freshWorld False)"
proof -
  have ext: "extractEventData sampleTools samplePhase2Event = Inr samplePhase2Data"
    by code_simp
  have l1: "lookupByEmail phase1DoneWorld samplePhase2Data = Some ''build-file-1''"
    by code_simp
  have l2: "lookupByEmail clearedWorld samplePhase2Data = None"
    by code_simp
  have f2: "findBuildFileByFolderSearch clearedWorld samplePhase2Data = Some ''build-file-1''"
    by code_simp
  have l3: "lookupByEmail (freshWorld False) samplePhase2Data = None"
    by code_simp
  have f3: "findBuildFileByFolderSearch (freshWorld False) samplePhase2Data = None"
    by code_simp
  have nm: "fullName samplePhase2Data = ''April Welch''"
    "email samplePhase2Data = ''aw@aprilwelch.com''"
    by (simp_all add: samplePhase2Data_def)
  note t1 = phase2_two_tier_lookup [OF ext, of phase1DoneWorld CONFIG]
  note t2 = phase2_two_tier_lookup [OF ext, of clearedWorld CONFIG]
  note t3 = phase2_two_tier_lookup [OF ext, of "freshWorld False" CONFIG]
  have r1: "resolveBuildFile phase1DoneWorld samplePhase2Data = Some ''build-file-1''"
    using t1 l1 by blast
  have p1: "processPhase2Event CONFIG sampleTools phase1DoneWorld samplePhase2Event =
     andThen (updatePhase2Settings phase1DoneWorld ''build-file-1'' samplePhase2Data)
       (\<lambda>_ w1. (Inr samplePhase2Data, w1))"
    using t1 r1 by blast
  have r2: "resolveBuildFile clearedWorld samplePhase2Data = Some ''build-file-1''"
    using t2 l2 f2 by simp
  have p2: "processPhase2Event CONFIG sampleTools clearedWorld samplePhase2Event =
     andThen (updatePhase2Settings clearedWorld ''build-file-1'' samplePhase2Data)
       (\<lambda>_ w1. (Inr samplePhase2Data, w1))"
    using t2 r2 by blast
  have r3: "resolveBuildFile (freshWorld False) samplePhase2Data = None"
    using t3 l3 f3 by simp
  have p3: "processPhase2Event CONFIG sampleTools (freshWorld False) samplePhase2Event =
     (Inl (BuildFileNotFound ''April Welch'' ''aw@aprilwelch.com''), freshWorld False)"
    using t3 r3 nm by simp
  from ext l1 p1 l2 f2 p2 l3 f3 p3 show ?thesis by blast
qed

subsection \<open>The validation checkpoint\<close>

text \<open>
  C3.  The claim is that the critical fields of the Build File are read again and
  checked before a Phase 1 event is marked as processed.  \<open>validatePhase1Success\<close> is
  written for this, but neither \<open>processPhase1Event\<close> nor \<open>processLeaderBuildFile\<close>
  nor the orchestrator calls it.  The run below starts from a world whose
  assessment-link API is down at the first request: the first batch creates the Build
  File, fails and leaves the ledger empty; the second batch finds the file, updates it
  without a request to the API, and marks the event as processed although the login
  code is missing, which the validation reports when it is applied to the result.
\<close>

theorem phase1_marked_without_login_code:
  "fst (processEvent CONFIG sampleTools (freshWorld True) sampleEvent) =
     Failed FailedToGenerateLink \<and>
   ledgerRows (trackingSheet retryWorld) = [] \<and>
   fst (processEvent CONFIG sampleTools retryWorld sampleEvent) = NewlyProcessed \<and>
   storedLoginCode (snd (processEvent CONFIG sampleTools retryWorld sampleEvent))
     ''build-file-1'' = [] \<and>
   validatePhase1Success (snd (processEvent CONFIG sampleTools retryWorld sampleEvent))
     ''build-file-1'' = Inl (Phase1ValidationFailed [''IDS login code (Row 8)'']) \<and>
   map BUILD_FILE_ID (ledgerRows (trackingSheet
     (snd (processEvent CONFIG sampleTools retryWorld sampleEvent)))) = [''build-file-1''] \<and>
   processed (isEventProcessed CONFIG
     (trackingSheet (snd (processEvent CONFIG sampleTools retryWorld sampleEvent))) sampleEvent)"
  by code_simp

end
